theory Spec2Isabelle
  imports Complex_Main "HOL-Library.Sublist" "HOL-Library.Char_ord" "HOL-Library.List_Lexorder"
begin

section \<open>MeatBagPnP: a shallow embedding of \<open>meatbag.py\<close>\<close>

text \<open>
  The program is a Qt application; its logic lives in the methods of \<open>MeatBagWindow\<close> and
  \<open>PCBPainter\<close>. The embedding keeps the attributes those methods read and write in a
  record, passes that record through every method, and returns, next to the new record,
  the exception a method ends with, if any. An exception leaves the attributes as they
  were at the \<open>raise\<close>: Qt reports an exception of a slot and goes on with the event loop.

  Python strings are modelled as \<open>string\<close>, their characters taken to be ASCII:
  \<open>x in y\<close> on strings is \<open>str_in\<close>, which is \<^const>\<open>sublist\<close> (lemma
  \<open>str_in_sublist\<close>), \<open>y.startswith(x)\<close> is \<^const>\<open>prefix\<close>, and strings are compared
  in the lexicographic order of their character codes. Python floats are IEEE
  doubles: a finite double is the real number it stands for, and every arithmetic
  operation yields the double nearest to the exact result (\<open>round_to_double\<close>).
\<close>

subsection \<open>Exceptions\<close>

datatype error =
    ValueError
  | AttributeError
  | IndexError
  | ZeroDivisionError
  | OverflowError
  | NotImplementedError
  | URLError

subsection \<open>Strings\<close>

text \<open>\<open>str.lower()\<close>, on the letters \<open>A\<close> to \<open>Z\<close>; every other character is kept.\<close>

definition lower_char :: "char \<Rightarrow> char" where
  "lower_char c =
     (case map_of (zip ''ABCDEFGHIJKLMNOPQRSTUVWXYZ'' ''abcdefghijklmnopqrstuvwxyz'') c of
        None \<Rightarrow> c
      | Some l \<Rightarrow> l)"

definition lower :: "string \<Rightarrow> string" where
  "lower s = map lower_char s"

text \<open>\<open>x in y\<close> for two strings: \<open>x\<close> occurs in \<open>y\<close> as a contiguous substring.\<close>

fun str_in :: "string \<Rightarrow> string \<Rightarrow> bool" where
  "str_in x [] = (x = [])"
| "str_in x (c # cs) = (prefix x (c # cs) \<or> str_in x cs)"

text \<open>\<open>s.split(sep)\<close> cut at the first occurrence of a non-empty \<open>sep\<close>: the text before
  it and the text after it, or \<open>None\<close> when \<open>sep\<close> does not occur.\<close>

fun split_once :: "string \<Rightarrow> string \<Rightarrow> (string \<times> string) option" where
  "split_once sep [] = None"
| "split_once sep (c # cs) =
     (if prefix sep (c # cs) then Some ([], drop (length sep) (c # cs))
      else (case split_once sep cs of
              None \<Rightarrow> None
            | Some (b, a) \<Rightarrow> Some (c # b, a)))"

text \<open>\<open>s.split(sep)[0]\<close> and \<open>s.split(sep)[1]\<close>; the latter raises \<open>IndexError\<close> when
  \<open>sep\<close> does not occur in \<open>s\<close>.\<close>

definition split_0 :: "string \<Rightarrow> string \<Rightarrow> string" where
  "split_0 sep s = (case split_once sep s of None \<Rightarrow> s | Some (b, a) \<Rightarrow> b)"

definition split_1 :: "string \<Rightarrow> string \<Rightarrow> error + string" where
  "split_1 sep s =
     (case split_once sep s of
        None \<Rightarrow> Inl IndexError
      | Some (b, a) \<Rightarrow> Inr (split_0 sep a))"

text \<open>The slice \<open>s[i:j]\<close> for \<open>0 \<le> i \<le> j\<close>.\<close>

definition slice :: "string \<Rightarrow> nat \<Rightarrow> nat \<Rightarrow> string" where
  "slice s i j = take (j - i) (drop i s)"

subsection \<open>Column layouts: the classes \<open>MeatBagCSVSettings*\<close>\<close>

text \<open>\<open>col_layer\<close> is the one column a layout sets to a negative number (no layer
  column); the other columns are list indices and non-negative in every layout.\<close>

record MeatBagCSVSettings =
  col_layer :: int
  col_x :: nat
  col_y :: nat
  col_pn :: nat
  col_des :: nat
  col_com :: nat
  row_start :: nat

definition MeatBagCSVSettingsAltium :: MeatBagCSVSettings where
  "MeatBagCSVSettingsAltium =
     \<lparr>col_layer = 2, col_x = 4, col_y = 5, col_pn = 8, col_des = 0, col_com = 1,
      row_start = 1\<rparr>"

definition MeatBagCSVSettingsKicadSingleLayer :: MeatBagCSVSettings where
  "MeatBagCSVSettingsKicadSingleLayer =
     \<lparr>col_layer = - 1, col_x = 3, col_y = 4, col_pn = 1, col_des = 0, col_com = 1,
      row_start = 1\<rparr>"

definition MeatBagCSVSettingsKicadMultiLayer :: MeatBagCSVSettings where
  "MeatBagCSVSettingsKicadMultiLayer = MeatBagCSVSettingsKicadSingleLayer\<lparr>col_layer := 6\<rparr>"

subsection \<open>Floats\<close>

text \<open>A Python float: a finite double, an infinity (\<open>True\<close> for the positive one) or
  not-a-number. The sign of a zero is not kept; no operation below depends on it.\<close>

datatype pyfloat = Finite real | Infinity bool | NaN

text \<open>The nearest integer to a real, the even one of the two when the value lies
  half-way: Python's \<open>round\<close> on a finite float, and the rounding of a significand.\<close>

definition py_round :: "real \<Rightarrow> int" where
  "py_round x =
     (let f = \<lfloor>x\<rfloor>; d = x - of_int f
      in if d < 1 / 2 then f
         else if 1 / 2 < d then f + 1
         else if even f then f else f + 1)"

text \<open>The exponent of the binade of a non-zero real, not below that of the subnormal
  doubles.\<close>

definition expo :: "real \<Rightarrow> int" where
  "expo r = max \<lfloor>log 2 \<bar>r\<bar>\<rfloor> (- 1022)"

text \<open>Rounding to the nearest double (53 bits of significand, ties to even); a result
  of \<open>2 ^ 1024\<close> or more in size is beyond the largest double and gives an infinity.\<close>

definition round_to_double :: "real \<Rightarrow> pyfloat" where
  "round_to_double r =
     (if r = 0 then Finite 0
      else
        (let ulp = 2 powi (expo r - 52);
             v = real_of_int (py_round (r / ulp)) * ulp
         in if 2 ^ 1024 \<le> \<bar>v\<bar> then Infinity (0 < r) else Finite v))"

text \<open>\<open>a * b\<close> and \<open>a - b\<close> on floats.\<close>

fun fmul :: "pyfloat \<Rightarrow> pyfloat \<Rightarrow> pyfloat" where
  "fmul (Finite a) (Finite b) = round_to_double (a * b)"
| "fmul (Finite a) (Infinity s) = (if a = 0 then NaN else Infinity (s = (0 < a)))"
| "fmul (Infinity s) (Finite b) = (if b = 0 then NaN else Infinity (s = (0 < b)))"
| "fmul (Infinity s) (Infinity t) = Infinity (s = t)"
| "fmul NaN b = NaN"
| "fmul a NaN = NaN"

fun fsub :: "pyfloat \<Rightarrow> pyfloat \<Rightarrow> pyfloat" where
  "fsub (Finite a) (Finite b) = round_to_double (a - b)"
| "fsub (Finite a) (Infinity s) = Infinity (\<not> s)"
| "fsub (Infinity s) (Finite b) = Infinity s"
| "fsub (Infinity s) (Infinity t) = (if s = t then NaN else Infinity s)"
| "fsub NaN b = NaN"
| "fsub a NaN = NaN"

text \<open>\<open>float(a) / float(b)\<close> for two finite numbers: Python raises
  \<open>ZeroDivisionError\<close> when the divisor is zero.\<close>

definition fdiv :: "real \<Rightarrow> real \<Rightarrow> error + pyfloat" where
  "fdiv a b = (if b = 0 then Inl ZeroDivisionError else Inr (round_to_double (a / b)))"

text \<open>\<open>int(round(x))\<close>: \<open>round\<close> raises \<open>OverflowError\<close> on an infinity and
  \<open>ValueError\<close> on not-a-number.\<close>

fun int_round :: "pyfloat \<Rightarrow> error + int" where
  "int_round (Finite r) = Inr (py_round r)"
| "int_round (Infinity s) = Inl OverflowError"
| "int_round NaN = Inl ValueError"

subsection \<open>The environment\<close>

text \<open>What the program takes from outside: the layout chosen on the command line,
  Python's \<open>float()\<close> and \<open>int()\<close> on a string (\<open>None\<close> where they raise \<open>ValueError\<close>;
  \<open>float()\<close> also reads \<open>inf\<close>, \<open>nan\<close> and numbers too large for a double, which give
  an infinity), and \<open>urlopen\<close> followed by \<open>read\<close> (the exception it ends with, if
  any).\<close>

record env =
  csv_settings :: MeatBagCSVSettings
  float_of :: "string \<Rightarrow> pyfloat option"
  int_of :: "string \<Rightarrow> int option"
  urlopen :: "string \<Rightarrow> error option"

subsection \<open>The state of the two windows\<close>

text \<open>
  A row of the \<open>QTableWidget\<close> is the texts of its items in the columns
  \<open>0 .. columnCount - 2\<close> and the check state of the item in the last column.
  \<open>pdb\<close>, \<open>pdc\<close>, \<open>topDesList\<close> and \<open>botDesList\<close> are attributes the constructor does not
  set: they are \<open>None\<close> until a method assigns them, and reading them before that raises
  \<open>AttributeError\<close>. \<open>pcbwidth\<close> and \<open>pcbheight\<close> are the values of the two spin boxes,
  finite doubles; \<open>img_width\<close> and \<open>img_height\<close> are the size of the board image, C
  integers, which \<open>float()\<close> converts without rounding. \<open>markers\<close> lists the pixel
  positions handed to the painter for the working copy of the board image since it
  was last reloaded; \<open>web_loads\<close> lists the scans handed to
  the web view. \<open>matcher_calls\<close> is not an attribute of the program: it records
  the argument of every call of \<open>process_new_pn\<close> and \<open>process_new_com\<close>, in order.
\<close>

record window =
  marker_diameter :: int
  pcbwidth :: real
  pcbheight :: real
  img_width :: int
  img_height :: int
  markers :: "(int \<times> int) list"
  build_side :: nat
  all_components_data :: "string list list"
  tbl :: "(string list \<times> bool) list"
  pdb :: "string list option"
  pdc :: "string list option"
  topDesList :: "nat list option"
  botDesList :: "nat list option"
  cur_placement :: "nat option"
  drawing_all_same_value :: bool
  place :: string
  topDes :: string
  botDes :: string
  scanLine :: string
  last_keys :: string
  web_loads :: "string list"
  matcher_calls :: "string list"

text \<open>\<open>self.table.item(r, c).text()\<close>: \<open>item\<close> returns \<open>None\<close> outside the table, and
  \<open>.text()\<close> on \<open>None\<close> raises \<open>AttributeError\<close>. The item of the last column is the check
  box, whose text is empty.\<close>

definition item_text :: "window \<Rightarrow> nat \<Rightarrow> nat \<Rightarrow> error + string" where
  "item_text w r c =
     (if r < length (tbl w) then
        (let texts = fst (tbl w ! r)
         in if c < length texts then Inr (texts ! c)
            else if c = length texts then Inr []
            else Inl AttributeError)
      else Inl AttributeError)"

text \<open>\<open>self.table.item(r, columnCount - 1).checkState() == Checked\<close>, \<open>None\<close> where
  the table has no row \<open>r\<close>.\<close>

definition check_state :: "window \<Rightarrow> nat \<Rightarrow> bool option" where
  "check_state w r = (if r < length (tbl w) then Some (snd (tbl w ! r)) else None)"

definition isTopLayer :: "MeatBagCSVSettings \<Rightarrow> window \<Rightarrow> nat \<Rightarrow> error + bool" where
  "isTopLayer cs w row =
     (if col_layer cs < 0 then Inr True
      else (case item_text w row (nat (col_layer cs)) of
              Inl e \<Rightarrow> Inl e
            | Inr tb \<Rightarrow>
                if prefix ''top'' (lower tb) then Inr True
                else if prefix ''bot'' (lower tb) then Inr False
                else Inl ValueError))"

subsection \<open>The matcher: \<open>process_new_pn\<close> and \<open>process_new_com\<close>\<close>

text \<open>The first loop of the two methods: the indices of the pool whose entry matches.
  \<open>n\<close> is the length an entry must exceed to be looked for inside the scanned text
  (4 in \<open>process_new_pn\<close>, 3 in \<open>process_new_com\<close>).\<close>

definition field_matches :: "nat \<Rightarrow> string \<Rightarrow> string \<Rightarrow> bool" where
  "field_matches n field tok = ((length field > n \<and> str_in field tok) \<or> str_in tok field)"

definition matchlist_of :: "nat \<Rightarrow> string list \<Rightarrow> string \<Rightarrow> nat list" where
  "matchlist_of n pool tok = filter (\<lambda>i. field_matches n (pool ! i) tok) [0..<length pool]"


text \<open>The second loop of the two methods: it sorts the matched rows into
  \<open>topDesList\<close> and \<open>botDesList\<close> and collects the designators to display. A row is
  appended to its list before its designator is read, so an exception of the latter
  leaves the row in the list.\<close>

fun des_loop ::
  "MeatBagCSVSettings \<Rightarrow> window \<Rightarrow> nat list \<Rightarrow> nat list \<times> nat list \<times> string \<times> string \<Rightarrow>
     error option \<times> nat list \<times> nat list \<times> string \<times> string" where
  "des_loop cs w [] acc = (None, acc)"
| "des_loop cs w (r # rs) (tops, bots, ts, bs) =
     (case isTopLayer cs w r of
        Inl e \<Rightarrow> (Some e, tops, bots, ts, bs)
      | Inr True \<Rightarrow>
          (case item_text w r (col_des cs) of
             Inl e \<Rightarrow> (Some e, tops @ [r], bots, ts, bs)
           | Inr d \<Rightarrow> des_loop cs w rs (tops @ [r], bots, ts @ d @ '', '', bs))
      | Inr False \<Rightarrow>
          (case item_text w r (col_des cs) of
             Inl e \<Rightarrow> (Some e, tops, bots @ [r], ts, bs)
           | Inr d \<Rightarrow> des_loop cs w rs (tops, bots @ [r], ts, bs @ d @ '', '')))"

subsection \<open>\<open>PCBPainter\<close>\<close>

text \<open>The arithmetic of \<open>draw_marker\<close>, up to \<open>x_int\<close> and \<open>y_int\<close>.\<close>

definition draw_marker_xy ::
  "window \<Rightarrow> pyfloat \<Rightarrow> pyfloat \<Rightarrow> bool \<Rightarrow> error + int \<times> int" where
  "draw_marker_xy w x y mirror =
     (let boardwidth = pcbwidth w; boardheight = pcbheight w
      in case fdiv (real_of_int (img_width w)) boardwidth of
           Inl e \<Rightarrow> Inl e
         | Inr scale_x \<Rightarrow>
             (case fdiv (real_of_int (img_height w)) boardheight of
                Inl e \<Rightarrow> Inl e
              | Inr scale_y \<Rightarrow>
                  (let x1 = fmul x scale_x;
                       y1 = fmul y scale_y;
                       y2 = fsub (Finite (real_of_int (img_height w))) y1;
                       x2 = (if mirror then fsub (Finite (real_of_int (img_width w))) x1
                             else x1)
                   in case int_round x2 of
                        Inl e \<Rightarrow> Inl e
                      | Inr x_int \<Rightarrow>
                          (case int_round y2 of
                             Inl e \<Rightarrow> Inl e
                           | Inr y_int \<Rightarrow> Inr (x_int, y_int)))))"

text \<open>The rest of \<open>draw_marker\<close> hands \<open>x_int\<close> and \<open>y_int\<close> to the painter of Qt;
  \<open>markers\<close> records that position, and what the painter makes of it is not
  modelled.\<close>

definition draw_marker ::
  "window \<Rightarrow> pyfloat \<Rightarrow> pyfloat \<Rightarrow> bool \<Rightarrow> error option \<times> window" where
  "draw_marker w x y mirror =
     (case draw_marker_xy w x y mirror of
        Inl e \<Rightarrow> (Some e, w)
      | Inr p \<Rightarrow> (None, w\<lparr>markers := markers w @ [p]\<rparr>))"

text \<open>\<open>reload_base\<close> takes a fresh copy of the board image, without markers, and then
  divides the display size by the width and the height of the image.\<close>

definition reload_base :: "window \<Rightarrow> error option \<times> window" where
  "reload_base w =
     (if img_width w = 0 \<or> img_height w = 0 then Some ZeroDivisionError else None,
      w\<lparr>markers := []\<rparr>)"

definition xy_to_draw ::
  "window \<Rightarrow> pyfloat \<Rightarrow> pyfloat \<Rightarrow> bool \<Rightarrow> error option \<times> window" where
  "xy_to_draw w x y mirror =
     (case reload_base w of
        (Some e, w1) \<Rightarrow> (Some e, w1)
      | (None, w1) \<Rightarrow> draw_marker w1 x y mirror)"

definition marker_diameter_increment :: "window \<Rightarrow> bool \<times> window" where
  "marker_diameter_increment w = (True, w\<lparr>marker_diameter := marker_diameter w + 10\<rparr>)"

definition marker_diameter_decrement :: "window \<Rightarrow> bool \<times> window" where
  "marker_diameter_decrement w =
     (if marker_diameter w < 10 then (False, w)
      else (True, w\<lparr>marker_diameter := marker_diameter w - 10\<rparr>))"

subsection \<open>Loading: \<open>group_components_by_value\<close>, \<open>parseCSVFile\<close>\<close>

text \<open>The dictionary \<open>value_groups\<close>, as the list of its items in insertion order.\<close>

fun add_group ::
  "string \<Rightarrow> string list \<Rightarrow> (string \<times> string list list) list \<Rightarrow>
     (string \<times> string list list) list" where
  "add_group k row [] = [(k, [row])]"
| "add_group k row ((k', rs) # g) =
     (if k = k' then (k', rs @ [row]) # g else (k', rs) # add_group k row g)"

definition group_key :: "MeatBagCSVSettings \<Rightarrow> string list \<Rightarrow> error + string" where
  "group_key cs row =
     (if 0 \<le> col_layer cs then
        (if nat (col_layer cs) < length row
         then Inr (row ! col_com cs @ ''_'' @ row ! nat (col_layer cs))
         else Inl IndexError)
      else Inr (row ! col_com cs @ ''_'' @ ''top''))"

fun group_rows ::
  "MeatBagCSVSettings \<Rightarrow> string list list \<Rightarrow> (string \<times> string list list) list \<Rightarrow>
     error + (string \<times> string list list) list" where
  "group_rows cs [] g = Inr g"
| "group_rows cs (row # rows) g =
     (if length row \<le> col_com cs then group_rows cs rows g
      else (case group_key cs row of
              Inl e \<Rightarrow> Inl e
            | Inr k \<Rightarrow> group_rows cs rows (add_group k row g)))"

definition designator_key :: "MeatBagCSVSettings \<Rightarrow> string list \<Rightarrow> string" where
  "designator_key cs x = (if col_des cs < length x then x ! col_des cs else [])"

text \<open>\<open>sorted(value_groups.items())\<close> compares (key, rows) pairs; the keys of a
  dictionary differ, so the order of the keys decides. \<open>list.sort\<close> is stable, as
  \<^const>\<open>sort_key\<close> is.\<close>

definition group_components_by_value ::
  "MeatBagCSVSettings \<Rightarrow> string list list \<Rightarrow> error + string list list" where
  "group_components_by_value cs ppdata =
     (if ppdata = [] then Inr ppdata
      else
        (let header_row = hd ppdata; data_rows = tl ppdata
         in case group_rows cs data_rows [] of
              Inl e \<Rightarrow> Inl e
            | Inr value_groups \<Rightarrow>
                Inr (header_row #
                     concat (map (\<lambda>(group_key, components).
                                    sort_key (designator_key cs) components)
                                 (sort_key fst value_groups)))))"

subsection \<open>\<open>update_table_for_selected_side\<close> and \<open>recolourTable\<close>\<close>

text \<open>The test of the filter loop on one row; \<open>target_side\<close> is \<open>''top''\<close> or
  \<open>''bottom''\<close>.\<close>

definition keep_row :: "MeatBagCSVSettings \<Rightarrow> string \<Rightarrow> string list \<Rightarrow> bool" where
  "keep_row cs target_side row =
     (if col_layer cs < int (length row) \<and> 0 \<le> col_layer cs
      then prefix (take 3 target_side) (lower (row ! nat (col_layer cs)))
      else if col_layer cs < 0 then target_side = ''top''
      else False)"

definition target_side_of :: "nat \<Rightarrow> string" where
  "target_side_of side = (if side = 0 then ''top'' else ''bottom'')"

definition filtered_data_of ::
  "MeatBagCSVSettings \<Rightarrow> nat \<Rightarrow> string list list \<Rightarrow> string list list" where
  "filtered_data_of cs side data =
     hd data # filter (keep_row cs (target_side_of side)) (tl data)"

datatype colour = Red nat | Blue nat | LightGray

definition row_colour :: "MeatBagCSVSettings \<Rightarrow> window \<Rightarrow> nat \<Rightarrow> error + colour" where
  "row_colour cs w r =
     (let alpha = (if check_state w r = Some True then 5 else 120)
      in case isTopLayer cs w r of
           Inr True \<Rightarrow> Inr (Red alpha)
         | Inr False \<Rightarrow> Inr (Blue alpha)
         | Inl ValueError \<Rightarrow> Inr LightGray
         | Inl e \<Rightarrow> Inl e)"

fun recolour_rows :: "MeatBagCSVSettings \<Rightarrow> window \<Rightarrow> nat list \<Rightarrow> error option" where
  "recolour_rows cs w [] = None"
| "recolour_rows cs w (r # rs) =
     (case row_colour cs w r of Inl e \<Rightarrow> Some e | Inr c \<Rightarrow> recolour_rows cs w rs)"

text \<open>The colours themselves are not kept in the state: \<open>recolourTable\<close> is the
  exception the loop ends with, if any.\<close>

definition recolourTable :: "MeatBagCSVSettings \<Rightarrow> window \<Rightarrow> error option" where
  "recolourTable cs w = recolour_rows cs w [row_start cs ..< length (tbl w)]"

definition update_table_for_selected_side :: "env \<Rightarrow> window \<Rightarrow> error option \<times> window" where
  "update_table_for_selected_side env w =
     (if all_components_data w = [] then (None, w)
      else
        (let cs = csv_settings env;
             header_row = hd (all_components_data w);
             filtered_data = filtered_data_of cs (build_side w) (all_components_data w);
             numCols = length header_row + 1;
             w1 = w\<lparr>tbl := map (\<lambda>row. (map (\<lambda>c. if c < length row then row ! c else ''???'')
                                               [0..<numCols - 1], False))
                                filtered_data,
                     pdb := Some (map (\<lambda>row. if col_pn cs < length row then row ! col_pn cs
                                              else [])
                                      filtered_data),
                     pdc := Some (map (\<lambda>row. if col_com cs < length row then row ! col_com cs
                                              else [])
                                      filtered_data)\<rparr>
         in (recolourTable cs w1, w1)))"

definition parseCSVFile :: "env \<Rightarrow> string list list \<Rightarrow> window \<Rightarrow> error option \<times> window" where
  "parseCSVFile env rows w =
     (let ppdata = filter (\<lambda>row. \<not> length row < 4) rows
      in case group_components_by_value (csv_settings env) ppdata of
           Inl e \<Rightarrow> (Some e, w)
         | Inr grouped \<Rightarrow>
             update_table_for_selected_side env (w\<lparr>all_components_data := grouped\<rparr>))"

definition sideSelectionChanged :: "env \<Rightarrow> nat \<Rightarrow> window \<Rightarrow> error option \<times> window" where
  "sideSelectionChanged env indx w =
     update_table_for_selected_side env (w\<lparr>build_side := indx\<rparr>)"

subsection \<open>The placement cursor: \<open>update_placement\<close>, \<open>find_next_placement\<close>\<close>

text \<open>\<open>float(self.table.item(r, c).text())\<close>.\<close>

definition item_float :: "env \<Rightarrow> window \<Rightarrow> nat \<Rightarrow> nat \<Rightarrow> error + pyfloat" where
  "item_float env w r c =
     (case item_text w r c of
        Inl e \<Rightarrow> Inl e
      | Inr s \<Rightarrow> (case float_of env s of None \<Rightarrow> Inl ValueError | Some v \<Rightarrow> Inr v))"

definition update_placement :: "env \<Rightarrow> window \<Rightarrow> error option \<times> window" where
  "update_placement env w0 =
     (let cs = csv_settings env; w = w0\<lparr>drawing_all_same_value := False\<rparr>
      in case cur_placement w of
           Some cur \<Rightarrow>
             (case item_text w cur (col_des cs) of
                Inl e \<Rightarrow> (Some e, w)
              | Inr d \<Rightarrow>
                  (let w1 = w\<lparr>place := d\<rparr>
                   in case item_float env w1 cur (col_x cs) of
                        Inl e \<Rightarrow> (Some e, w1)
                      | Inr x \<Rightarrow>
                          (case item_float env w1 cur (col_y cs) of
                             Inl e \<Rightarrow> (Some e, w1)
                           | Inr y \<Rightarrow>
                               (case isTopLayer cs w1 cur of
                                  Inl e \<Rightarrow> (Some e, w1)
                                | Inr is_top \<Rightarrow> xy_to_draw w1 x y (\<not> is_top)))))
         | None \<Rightarrow>
             (case topDesList w of
                None \<Rightarrow> (Some AttributeError, w)
              | Some tops \<Rightarrow>
                  if length tops = 0 then
                    (case botDesList w of
                       None \<Rightarrow> (Some AttributeError, w)
                     | Some bots \<Rightarrow>
                         if length bots = 0 then (None, w\<lparr>place := ''Not Found''\<rparr>)
                         else (None, w\<lparr>place := ''Done''\<rparr>))
                  else (None, w\<lparr>place := ''Done''\<rparr>)))"

text \<open>The loop of \<open>find_next_placement\<close>: the first row of \<open>parts\<close> whose check box is
  unchecked; a row outside the table has no check box.\<close>

fun first_unplaced :: "window \<Rightarrow> nat list \<Rightarrow> error + nat option" where
  "first_unplaced w [] = Inr None"
| "first_unplaced w (p # ps) =
     (case check_state w p of
        None \<Rightarrow> Inl AttributeError
      | Some checked \<Rightarrow> if \<not> checked then Inr (Some p) else first_unplaced w ps)"

definition active_parts :: "window \<Rightarrow> nat list option" where
  "active_parts w = (if build_side w = 0 then topDesList w else botDesList w)"

definition find_next_placement :: "env \<Rightarrow> window \<Rightarrow> error option \<times> window" where
  "find_next_placement env w0 =
     (let w = w0\<lparr>cur_placement := None\<rparr>
      in case active_parts w of
           None \<Rightarrow> (Some AttributeError, w)
         | Some parts \<Rightarrow>
             (case first_unplaced w parts of
                Inl e \<Rightarrow> (Some e, w)
              | Inr c \<Rightarrow> update_placement env (w\<lparr>cur_placement := c\<rparr>)))"

subsection \<open>\<open>process_new_pn\<close> and \<open>process_new_com\<close>\<close>

text \<open>The two methods differ in the pool they search and in the length bound.\<close>

definition process_match ::
  "nat \<Rightarrow> string list option \<Rightarrow> env \<Rightarrow> window \<Rightarrow> string \<Rightarrow> bool \<Rightarrow> error option \<times> window" where
  "process_match n pool env w0 tok update =
     (let w = w0\<lparr>matcher_calls := matcher_calls w0 @ [tok]\<rparr>
      in case pool of
           None \<Rightarrow> (Some AttributeError, w)
         | Some db \<Rightarrow>
             (case des_loop (csv_settings env) w (matchlist_of n db tok) ([], [], [], []) of
                (Some e, tops, bots, ts, bs) \<Rightarrow>
                  (Some e, w\<lparr>topDesList := Some tops, botDesList := Some bots\<rparr>)
              | (None, tops, bots, ts, bs) \<Rightarrow>
                  (let w1 = w\<lparr>topDesList := Some tops, botDesList := Some bots,
                               topDes := ts, botDes := bs\<rparr>
                   in if update then find_next_placement env w1 else (None, w1))))"

definition process_new_pn :: "env \<Rightarrow> window \<Rightarrow> string \<Rightarrow> bool \<Rightarrow> error option \<times> window" where
  "process_new_pn env w pn update = process_match 4 (pdb w) env w pn update"

definition process_new_com :: "env \<Rightarrow> window \<Rightarrow> string \<Rightarrow> bool \<Rightarrow> error option \<times> window" where
  "process_new_com env w com update = process_match 3 (pdc w) env w com update"

subsection \<open>Clicking a row: \<open>highlight_component_at_row\<close>, \<open>table_cellClicked\<close>\<close>

text \<open>The body of the \<open>try\<close> statement of \<open>highlight_component_at_row\<close>. The label
  \<open>place\<close> is set after the side of the row has been derived.\<close>

definition highlight_try :: "env \<Rightarrow> window \<Rightarrow> nat \<Rightarrow> error option \<times> window" where
  "highlight_try env w row =
     (let cs = csv_settings env
      in case item_text w row (col_des cs) of
           Inl e \<Rightarrow> (Some e, w)
         | Inr ref \<Rightarrow>
             (case item_float env w row (col_x cs) of
                Inl e \<Rightarrow> (Some e, w)
              | Inr x \<Rightarrow>
                  (case item_float env w row (col_y cs) of
                     Inl e \<Rightarrow> (Some e, w)
                   | Inr y \<Rightarrow>
                       (case isTopLayer cs w row of
                          Inl e \<Rightarrow> (Some e, w)
                        | Inr is_top \<Rightarrow> xy_to_draw (w\<lparr>place := ref\<rparr>) x y (\<not> is_top)))))"

text \<open>\<open>except (ValueError, AttributeError)\<close>: the two exceptions are printed and not
  raised again; any other exception leaves the method.\<close>

definition highlight_component_at_row :: "env \<Rightarrow> window \<Rightarrow> nat \<Rightarrow> error option \<times> window" where
  "highlight_component_at_row env w row =
     (case highlight_try env w row of
        (Some ValueError, w1) \<Rightarrow> (None, w1)
      | (Some AttributeError, w1) \<Rightarrow> (None, w1)
      | (r, w1) \<Rightarrow> (r, w1))"

text \<open>\<open>table_cellClicked\<close>: Qt calls it with the row and the column of a cell of the
  table. The text of an item is never \<open>None\<close>.\<close>

definition table_cellClicked :: "env \<Rightarrow> window \<Rightarrow> nat \<Rightarrow> nat \<Rightarrow> error option \<times> window" where
  "table_cellClicked env w row col =
     (let cs = csv_settings env
      in if row < row_start cs then (None, w)
         else
           (case highlight_component_at_row env w row of
              (Some e, w1) \<Rightarrow> (Some e, w1)
            | (None, w1) \<Rightarrow>
                (case item_text w1 row (col_pn cs) of
                   Inl e \<Rightarrow> (Some e, w1)
                 | Inr pn \<Rightarrow>
                     (case item_text w1 row (col_com cs) of
                        Inl e \<Rightarrow> (Some e, w1)
                      | Inr com \<Rightarrow>
                          if pn = [] then process_new_com env w1 com True
                          else process_new_pn env w1 pn True))))"

subsection \<open>Keystrokes\<close>

text \<open>The loop of \<open>toggle_draw_all_of_current_value\<close> over \<open>parts\<close>.\<close>

fun same_value_positions ::
  "env \<Rightarrow> window \<Rightarrow> nat \<Rightarrow> string \<Rightarrow> nat list \<Rightarrow> error + (pyfloat \<times> pyfloat) list" where
  "same_value_positions env w cur txt [] = Inr []"
| "same_value_positions env w cur txt (p # ps) =
     (if p \<noteq> cur then
        (case item_text w p (col_pn (csv_settings env)) of
           Inl e \<Rightarrow> Inl e
         | Inr t \<Rightarrow>
             if t = txt then
               (case item_float env w p (col_x (csv_settings env)) of
                  Inl e \<Rightarrow> Inl e
                | Inr x \<Rightarrow>
                    (case item_float env w p (col_y (csv_settings env)) of
                       Inl e \<Rightarrow> Inl e
                     | Inr y \<Rightarrow>
                         (case same_value_positions env w cur txt ps of
                            Inl e \<Rightarrow> Inl e
                          | Inr rest \<Rightarrow> Inr ((x, y) # rest))))
             else same_value_positions env w cur txt ps)
      else same_value_positions env w cur txt ps)"

fun draw_markers :: "window \<Rightarrow> (pyfloat \<times> pyfloat) list \<Rightarrow> error option \<times> window" where
  "draw_markers w [] = (None, w)"
| "draw_markers w ((x, y) # ps) =
     (case draw_marker w x y False of
        (Some e, w1) \<Rightarrow> (Some e, w1)
      | (None, w1) \<Rightarrow> draw_markers w1 ps)"

text \<open>A \<open>return\<close> without a value gives \<open>None\<close>, which the caller tests like \<open>False\<close>.\<close>

definition toggle_draw_all_of_current_value :: "env \<Rightarrow> window \<Rightarrow> (error + bool) \<times> window" where
  "toggle_draw_all_of_current_value env w =
     (case cur_placement w of
        None \<Rightarrow> (Inr False, w)
      | Some cur \<Rightarrow>
          if cur = 0 then (Inr False, w)
          else if drawing_all_same_value w then
            (case update_placement env (w\<lparr>drawing_all_same_value := False\<rparr>) of
               (Some e, w1) \<Rightarrow> (Inl e, w1)
             | (None, w1) \<Rightarrow> (Inr False, w1))
          else
            (case active_parts w of
               None \<Rightarrow> (Inl AttributeError, w)
             | Some parts \<Rightarrow>
                 (case item_text w cur (col_pn (csv_settings env)) of
                    Inl e \<Rightarrow> (Inl e, w)
                  | Inr cur_part_num_txt \<Rightarrow>
                      (case same_value_positions env w cur cur_part_num_txt parts of
                         Inl e \<Rightarrow> (Inl e, w)
                       | Inr matchingPartsPos \<Rightarrow>
                           if length matchingPartsPos = 0 then (Inr False, w)
                           else
                             (case update_placement env w of
                                (Some e, w1) \<Rightarrow> (Inl e, w1)
                              | (None, w1) \<Rightarrow>
                                  (case draw_markers w1 matchingPartsPos of
                                     (Some e, w2) \<Rightarrow> (Inl e, w2)
                                   | (None, w2) \<Rightarrow>
                                       (Inr False,
                                        w2\<lparr>drawing_all_same_value := True\<rparr>)))))))"

datatype callback = Marker_increment | Marker_decrement | Toggle_draw_all

definition trigger :: "env \<Rightarrow> callback \<Rightarrow> window \<Rightarrow> (error + bool) \<times> window" where
  "trigger env cb w =
     (case cb of
        Marker_increment \<Rightarrow> (case marker_diameter_increment w of (b, w1) \<Rightarrow> (Inr b, w1))
      | Marker_decrement \<Rightarrow> (case marker_diameter_decrement w of (b, w1) \<Rightarrow> (Inr b, w1))
      | Toggle_draw_all \<Rightarrow> toggle_draw_all_of_current_value env w)"

text \<open>\<open>KeyAction.matches\<close>: the key, lower-cased by the constructor, against the
  lower-cased text.\<close>

definition matches :: "string \<Rightarrow> string \<Rightarrow> bool" where
  "matches key txt = (lower key = lower txt)"

definition action_map :: "(string \<times> callback) list" where
  "action_map = [(''+'', Marker_increment), (''-'', Marker_decrement), (''a'', Toggle_draw_all)]"

fun key_loop ::
  "env \<Rightarrow> string \<Rightarrow> (string \<times> callback) list \<Rightarrow> bool \<Rightarrow> window \<Rightarrow> (error + bool) \<times> window" where
  "key_loop env txt [] refresh w = (Inr refresh, w)"
| "key_loop env txt ((key, cb) # ks) refresh w =
     (if matches key txt then
        (case trigger env cb w of
           (Inl e, w1) \<Rightarrow> (Inl e, w1)
         | (Inr b, w1) \<Rightarrow> key_loop env txt ks (if b then True else refresh) w1)
      else key_loop env txt ks refresh w)"

definition process_keystroke :: "env \<Rightarrow> window \<Rightarrow> string \<Rightarrow> error option \<times> window" where
  "process_keystroke env w txt =
     (case key_loop env txt action_map False w of
        (Inl e, w1) \<Rightarrow> (Some e, w1)
      | (Inr refresh_placement, w1) \<Rightarrow>
          if refresh_placement then update_placement env w1 else (None, w1))"

subsection \<open>Scans: \<open>process_new_scan\<close> and \<open>timesUp\<close>\<close>

text \<open>The branch for a scan that starts with \<open>[)\<close>. Its second half cannot end
  normally: \<open>int\<close> or \<open>urlopen\<close> raises, or \<open>NotImplementedError\<close> is raised.\<close>

definition digikey_lookup :: "env \<Rightarrow> window \<Rightarrow> string \<Rightarrow> error option \<times> window" where
  "digikey_lookup env w scan =
     (if 30 < length scan then
        (case split_1 ''1P'' scan of
           Inl e \<Rightarrow> (Some e, w)
         | Inr pn_start \<Rightarrow> process_new_pn env w (split_0 ''K1K5'' pn_start) True)
      else
        (let internal_pn = slice scan 0 7
         in case int_of env (slice scan 10 16) of
              None \<Rightarrow> (Some ValueError, w)
            | Some qty \<Rightarrow>
                (case urlopen env internal_pn of
                   Some e \<Rightarrow> (Some e, w)
                 | None \<Rightarrow> (Some NotImplementedError, w))))"

definition process_new_scan :: "env \<Rightarrow> window \<Rightarrow> string \<Rightarrow> error option \<times> window" where
  "process_new_scan env w0 scan =
     (if length scan < 5 then process_keystroke env w0 scan
      else
        (case process_new_pn env (w0\<lparr>topDes := [], botDes := []\<rparr>) scan False of
           (Some e, w) \<Rightarrow> (Some e, w)
         | (None, w) \<Rightarrow>
             (case (topDesList w, botDesList w) of
                (Some tops, Some bots) \<Rightarrow>
                  if 0 < length tops \<or> 0 < length bots then find_next_placement env w
                  else if scan ! 0 = CHR ''['' \<and> scan ! 1 = CHR '')''
                  then digikey_lookup env w scan
                  else (None, w\<lparr>web_loads := web_loads w @ [scan]\<rparr>)
              | _ \<Rightarrow> (Some AttributeError, w))))"

text \<open>\<open>str.strip()\<close>, for the white space of ASCII.\<close>

definition is_space :: "char \<Rightarrow> bool" where
  "is_space c = (let n = (of_char c :: nat) in (9 \<le> n \<and> n \<le> 13) \<or> (28 \<le> n \<and> n \<le> 32))"

definition strip :: "string \<Rightarrow> string" where
  "strip s = rev (dropWhile is_space (rev (dropWhile is_space s)))"

text \<open>Marking the current row placed: \<open>item(None, ...)\<close> raises the \<open>TypeError\<close> that
  \<open>timesUp\<close> swallows; a row outside the table has no item, and \<open>setCheckState\<close> on
  \<open>None\<close> raises \<open>AttributeError\<close>.\<close>

definition mark_placed :: "window \<Rightarrow> error option \<times> window" where
  "mark_placed w =
     (case cur_placement w of
        None \<Rightarrow> (None, w)
      | Some last_place \<Rightarrow>
          if last_place < length (tbl w)
          then (None, w\<lparr>tbl := (tbl w)[last_place := (fst (tbl w ! last_place), True)]\<rparr>)
          else (Some AttributeError, w))"

text \<open>The text a \<open>QPlainTextEdit\<close> gives back after \<open>setPlainText\<close>: a carriage
  return, alone or followed by a line feed, has become one line feed.\<close>

fun to_plain_text :: "string \<Rightarrow> string" where
  "to_plain_text [] = []"
| "to_plain_text [c] = [if c = CHR 0x0D then CHR 0x0A else c]"
| "to_plain_text (c # d # cs) =
     (if c = CHR 0x0D \<and> d = CHR 0x0A then CHR 0x0A # to_plain_text cs
      else if c = CHR 0x0D then CHR 0x0A # to_plain_text (d # cs)
      else c # to_plain_text (d # cs))"

text \<open>\<open>timesUp\<close>: a single space moves on to the next part; any other text is put,
  stripped, into the scan line, whose change starts \<open>process_new_scan\<close> later.
  \<open>scanLine\<close> is the text \<open>toPlainText\<close> then returns.\<close>

definition timesUp :: "env \<Rightarrow> window \<Rightarrow> error option \<times> window" where
  "timesUp env w0 =
     (let scan = last_keys w0; w = w0\<lparr>last_keys := []\<rparr>
      in if scan = '' '' then
           (case mark_placed w of
              (Some e, w1) \<Rightarrow> (Some e, w1)
            | (None, w1) \<Rightarrow>
                (case find_next_placement env w1 of
                   (Some e, w2) \<Rightarrow> (Some e, w2)
                 | (None, w2) \<Rightarrow> (recolourTable (csv_settings env) w2, w2)))
         else (None, w\<lparr>scanLine := to_plain_text (strip scan)\<rparr>))"

definition key_pressed :: "string \<Rightarrow> window \<Rightarrow> window" where
  "key_pressed key w = w\<lparr>last_keys := last_keys w @ key\<rparr>"

definition scanline_changed_dly :: "env \<Rightarrow> window \<Rightarrow> error option \<times> window" where
  "scanline_changed_dly env w = process_new_scan env w (scanLine w)"

text \<open>The attributes the constructor of \<open>MeatBagWindow\<close> sets, for a board image of the
  given size and board dimensions not yet entered.\<close>

definition init_window :: "int \<Rightarrow> int \<Rightarrow> window" where
  "init_window iw ih =
     \<lparr>marker_diameter = 20, pcbwidth = 0, pcbheight = 0, img_width = iw, img_height = ih,
      markers = [], build_side = 0, all_components_data = [], tbl = [],
      pdb = None, pdc = None, topDesList = None, botDesList = None, cur_placement = None,
      drawing_all_same_value = False, place = [], topDes = [], botDes = [],
      scanLine = [], last_keys = [], web_loads = [], matcher_calls = []\<rparr>"

subsection \<open>A small board, used to run the definitions\<close>

definition example_rows :: "string list list" where
  "example_rows =
     [[''Ref'', ''Val'', ''Package'', ''PosX'', ''PosY'', ''Rot'', ''Side''],
      [''R2'', ''10k'', ''R_0805'', ''3.0'', ''4.0'', ''0.0'', ''bottom''],
      [''C2'', ''100nF'', ''C_0805'', ''7.0'', ''8.0'', ''90.0'', ''top''],
      [''R1'', ''10k'', ''R_0805'', ''1.0'', ''2.0'', ''0.0'', ''top''],
      [''C1'', ''100nF'', ''C_0805'', ''5.0'', ''6.0'', ''90.0'', ''Top''],
      [''bad'', ''row'']]"

definition example_float :: "string \<Rightarrow> pyfloat option" where
  "example_float =
     map_of [(''1.0'', Finite 1), (''2.0'', Finite 2), (''3.0'', Finite 3),
             (''4.0'', Finite 4), (''5.0'', Finite 5), (''6.0'', Finite 6),
             (''7.0'', Finite 7), (''8.0'', Finite 8), (''inf'', Infinity True)]"

definition example_env :: env where
  "example_env =
     \<lparr>csv_settings = MeatBagCSVSettingsKicadMultiLayer, float_of = example_float,
      int_of = (\<lambda>s. None), urlopen = (\<lambda>u. Some URLError)\<rparr>"

definition example_window :: window where
  "example_window = (init_window 800 600)\<lparr>pcbwidth := 100, pcbheight := 50\<rparr>"

text \<open>The state after \<open>example_rows\<close> has been loaded into \<open>example_window\<close>
  (lemma \<open>example_parse\<close> below).\<close>

definition example_loaded :: window where
  "example_loaded =
     example_window\<lparr>
       all_components_data :=
         [[''Ref'', ''Val'', ''Package'', ''PosX'', ''PosY'', ''Rot'', ''Side''],
          [''C1'', ''100nF'', ''C_0805'', ''5.0'', ''6.0'', ''90.0'', ''Top''],
          [''C2'', ''100nF'', ''C_0805'', ''7.0'', ''8.0'', ''90.0'', ''top''],
          [''R2'', ''10k'', ''R_0805'', ''3.0'', ''4.0'', ''0.0'', ''bottom''],
          [''R1'', ''10k'', ''R_0805'', ''1.0'', ''2.0'', ''0.0'', ''top'']],
       tbl :=
         [([''Ref'', ''Val'', ''Package'', ''PosX'', ''PosY'', ''Rot'', ''Side''], False),
          ([''C1'', ''100nF'', ''C_0805'', ''5.0'', ''6.0'', ''90.0'', ''Top''], False),
          ([''C2'', ''100nF'', ''C_0805'', ''7.0'', ''8.0'', ''90.0'', ''top''], False),
          ([''R1'', ''10k'', ''R_0805'', ''1.0'', ''2.0'', ''0.0'', ''top''], False)],
       pdb := Some [''Val'', ''100nF'', ''100nF'', ''10k''],
       pdc := Some [''Val'', ''100nF'', ''100nF'', ''10k'']\<rparr>"

text \<open>A file with one component on a layer that is neither top nor bottom, and the
  state after it has been loaded (lemma \<open>middle_parse\<close> below).\<close>

definition middle_rows :: "string list list" where
  "middle_rows =
     [[''Ref'', ''Val'', ''Package'', ''PosX'', ''PosY'', ''Rot'', ''Side''],
      [''U1'', ''MCU'', ''QFP48'', ''9.0'', ''9.0'', ''0.0'', ''middle'']]"

definition middle_loaded :: window where
  "middle_loaded =
     example_window\<lparr>
       all_components_data := middle_rows,
       tbl := [([''Ref'', ''Val'', ''Package'', ''PosX'', ''PosY'', ''Rot'', ''Side''], False)],
       pdb := Some [''Val''],
       pdc := Some [''Val'']\<rparr>"

text \<open>The rows of \<open>all_components_data\<close> that \<open>update_table_for_selected_side\<close> puts
  into the table of a side, as indices into \<open>all_components_data\<close>: the header row and
  the rows the filter loop keeps (lemma \<open>side_view_rows\<close> below).\<close>

definition side_view :: "MeatBagCSVSettings \<Rightarrow> nat \<Rightarrow> string list list \<Rightarrow> nat list" where
  "side_view cs side data =
     0 # filter (\<lambda>i. keep_row cs (target_side_of side) (data ! i)) [1..<length data]"

text \<open>Two notions for the proofs about grouping: the key \<open>group_key\<close> computes for a
  row it does not fail on, and the rows in the order grouping puts them: by key, and
  inside one key by designator, rows with equal designators in their former order
  (lemma \<open>group_rows_output\<close> below).\<close>

definition key_of :: "MeatBagCSVSettings \<Rightarrow> string list \<Rightarrow> string" where
  "key_of cs row =
     row ! col_com cs @ ''_'' @ (if 0 \<le> col_layer cs then row ! nat (col_layer cs) else ''top'')"

definition in_key_order :: "MeatBagCSVSettings \<Rightarrow> string list list \<Rightarrow> string list list" where
  "in_key_order cs rows =
     concat (map (\<lambda>k. sort_key (designator_key cs) (filter (\<lambda>r. key_of cs r = k) rows))
                 (sorted_list_of_set (key_of cs ` set rows)))"

text \<open>The state after the value \<open>100nF\<close> has been scanned on the example board
  (lemma \<open>example_scan\<close> below): rows 1 and 2 match, the cursor is on row 1.\<close>

definition example_scanned :: window where
  "example_scanned =
     example_loaded\<lparr>matcher_calls := [''100nF''], topDesList := Some [1, 2],
       botDesList := Some [], topDes := ''C1, C2, '', botDes := [],
       cur_placement := Some 1, place := ''C1'', markers := [(40, 528)]\<rparr>"

text \<open>Three more states of the example board: after a space has been typed and its
  timer has run out (the cursor moves from row 1 to row 2); after the side \<open>Top\<close> has
  then been chosen again in the combo box; and after another space.\<close>

definition example_advanced :: window where
  "example_advanced = snd (timesUp example_env (key_pressed '' '' example_scanned))"

definition example_reselected :: window where
  "example_reselected = snd (sideSelectionChanged example_env 0 example_advanced)"

definition example_readvanced :: window where
  "example_readvanced = snd (timesUp example_env (key_pressed '' '' example_reselected))"

text \<open>A file without a header line, whose first row is a component of the bottom
  side, loaded with the top side selected.\<close>

definition headerless_rows :: "string list list" where
  "headerless_rows =
     [[''R9'', ''4k7-1%'', ''R_0805'', ''1.0'', ''2.0'', ''0.0'', ''bottom''],
      [''R1'', ''10k'', ''R_0805'', ''3.0'', ''4.0'', ''0.0'', ''top'']]"

definition headerless_loaded :: window where
  "headerless_loaded = snd (parseCSVFile example_env headerless_rows example_window)"

section \<open>Properties\<close>

subsection \<open>Rounding\<close>

lemma py_round_of_int: "py_round (of_int n) = n"
  by (simp add: py_round_def)

lemma py_round_nearest: "\<bar>real_of_int (py_round r) - r\<bar> \<le> 1 / 2"
proof -
  have "real_of_int \<lfloor>r\<rfloor> \<le> r" "r < real_of_int \<lfloor>r\<rfloor> + 1"
    by linarith+
  then show ?thesis
    by (auto simp: py_round_def Let_def)
qed

lemma floor_log2_eq:
  assumes "2 powi k \<le> x" "x < 2 powi (k + 1)"
  shows "\<lfloor>log 2 x\<rfloor> = k"
proof -
  have pos: "0 < x"
    using assms(1) by (smt (verit) zero_less_power_int)
  have 1: "(2::real) powr real_of_int k = 2 powi k"
    by (simp add: powr_real_of_int')
  have 2: "(2::real) powr real_of_int (k + 1) = 2 powi (k + 1)"
    by (rule powr_real_of_int') simp_all
  show ?thesis
    unfolding floor_log_eq_powr_iff[OF pos, of 2 k, simplified] 
    using assms 1 2 by (metis of_int_1 of_int_add)
qed

lemma floor_log2_bounds:
  assumes "0 < x"
  shows "2 powi \<lfloor>log 2 x\<rfloor> \<le> x" "x < 2 powi (\<lfloor>log 2 x\<rfloor> + 1)"
proof -
  let ?k = "\<lfloor>log 2 x\<rfloor>"
  have 1: "(2::real) powr real_of_int ?k = 2 powi ?k"
    by (simp add: powr_real_of_int')
  have 2: "(2::real) powr real_of_int (?k + 1) = 2 powi (?k + 1)"
    by (rule powr_real_of_int') simp_all
  have "2 powr real_of_int ?k \<le> x \<and> x < 2 powr real_of_int (?k + 1)"
    using floor_log_eq_powr_iff[of x 2 ?k] assms by simp
  then show "2 powi ?k \<le> x" "x < 2 powi (?k + 1)"
    unfolding 1 2 by simp_all
qed

lemma expo_eq:
  assumes "2 powi k \<le> \<bar>r\<bar>" "\<bar>r\<bar> < 2 powi (k + 1)"
  shows "expo r = max k (- 1022)"
  using floor_log2_eq[OF assms] by (simp add: expo_def)

lemma round_to_double_eval:
  assumes "2 powi k \<le> \<bar>r\<bar>" "\<bar>r\<bar> < 2 powi (k + 1)"
  shows "round_to_double r =
     (let ulp = 2 powi (max k (- 1022) - 52);
          v = real_of_int (py_round (r / ulp)) * ulp
      in if 2 ^ 1024 \<le> \<bar>v\<bar> then Infinity (0 < r) else Finite v)"
proof -
  have "0 < \<bar>r\<bar>"
    using assms(1) by (smt (verit) zero_less_power_int)
  then have "r \<noteq> 0" by simp
  then show ?thesis
    by (simp add: round_to_double_def expo_eq[OF assms])
qed

lemma round_to_double_of_int:
  assumes "\<bar>n\<bar> < 2 ^ 53"
  shows "round_to_double (real_of_int n) = Finite (real_of_int n)"
proof (cases "n = 0")
  case True
  then show ?thesis by (simp add: round_to_double_def)
next
  case False
  let ?x = "\<bar>real_of_int n\<bar>"
  let ?k = "\<lfloor>log 2 ?x\<rfloor>"
  from False have "1 \<le> \<bar>n\<bar>" by simp
  then have one: "1 \<le> ?x" by (metis of_int_1_le_iff of_int_abs)
  then have pos: "0 < ?x" by linarith
  note b = floor_log2_bounds[OF pos]
  have k0: "0 \<le> ?k"
  proof (rule ccontr)
    assume "\<not> 0 \<le> ?k"
    then have "?k + 1 \<le> 0" by linarith
    then have "(2::real) powi (?k + 1) \<le> 2 powi 0"
      by (intro power_int_increasing) simp_all
    with b(2) one show False by simp
  qed
  have "?x < 2 ^ 53"
    using assms by (metis of_int_abs of_int_less_numeral_power_cancel_iff)
  with b(1) have "(2::real) powi ?k < 2 powi 53" by simp
  then have "?k < 53"
    by (rule power_int_le_imp_less_exp[rotated]) simp_all
  then have k52: "?k \<le> 52" by simp
  have e: "expo (real_of_int n) = ?k"
    using k0 by (simp add: expo_def)
  define j where "j = nat (52 - ?k)"
  have "?k - 52 = - int j"
    using k52 by (simp add: j_def)
  then have ulp: "(2::real) powi (?k - 52) = 1 / 2 ^ j"
    by (simp only: power_int_minus_divide power_int_of_nat)
  have q: "real_of_int n / (1 / 2 ^ j) = real_of_int (n * 2 ^ j)"
    by simp
  have v: "real_of_int (py_round (real_of_int n / (1 / 2 ^ j))) * (1 / 2 ^ j) = real_of_int n"
    unfolding q py_round_of_int by simp
  have small: "\<not> (2::real) ^ 1024 \<le> \<bar>real_of_int n\<bar>"
  proof -
    have "(2::real) ^ 53 \<le> 2 ^ 1024"
      by (rule power_increasing) simp_all
    with \<open>?x < 2 ^ 53\<close> show ?thesis by linarith
  qed
  have nz: "real_of_int n \<noteq> 0"
    using False by simp
  show ?thesis
    unfolding round_to_double_def Let_def e ulp v
    using nz small by (simp only: if_False)
qed

lemma round_to_double_finite:
  assumes "\<bar>r\<bar> < 2 ^ 1023"
  shows "\<exists>v. round_to_double r = Finite v"
proof (cases "r = 0")
  case True
  then show ?thesis by (simp add: round_to_double_def)
next
  case False
  then have pos: "0 < \<bar>r\<bar>" by simp
  let ?k = "\<lfloor>log 2 \<bar>r\<bar>\<rfloor>"
  note b = floor_log2_bounds[OF pos]
  from b(1) assms have "(2::real) powi ?k < 2 powi 1023" by simp
  then have "?k < 1023"
    by (rule power_int_le_imp_less_exp[rotated]) simp_all
  then have "expo r - 52 \<le> 970"
    by (simp add: expo_def)
  then have "(2::real) powi (expo r - 52) \<le> 2 powi 970"
    by (intro power_int_increasing) simp_all
  then have ulp: "(2::real) powi (expo r - 52) \<le> 2 ^ 970" by simp
  let ?u = "(2::real) powi (expo r - 52)"
  have upos: "0 < ?u" by simp
  have "\<bar>real_of_int (py_round (r / ?u)) - r / ?u\<bar> \<le> 1 / 2"
    by (rule py_round_nearest)
  then have "\<bar>real_of_int (py_round (r / ?u)) - r / ?u\<bar> * ?u \<le> 1 / 2 * ?u"
    using upos by (intro mult_right_mono) simp_all
  moreover have "\<bar>real_of_int (py_round (r / ?u)) - r / ?u\<bar> * ?u
      = \<bar>real_of_int (py_round (r / ?u)) * ?u - r\<bar>"
  proof -
    have "\<bar>real_of_int (py_round (r / ?u)) - r / ?u\<bar> * ?u
        = \<bar>(real_of_int (py_round (r / ?u)) - r / ?u) * ?u\<bar>"
      using upos by (simp add: abs_mult)
    also have "(real_of_int (py_round (r / ?u)) - r / ?u) * ?u
        = real_of_int (py_round (r / ?u)) * ?u - r"
      using upos by (simp add: left_diff_distrib)
    finally show ?thesis .
  qed
  ultimately have "\<bar>real_of_int (py_round (r / ?u)) * ?u - r\<bar> \<le> 2 ^ 969"
    using ulp by simp
  with assms have "\<bar>real_of_int (py_round (r / ?u)) * ?u\<bar> < 2 ^ 1023 + 2 ^ 969"
    by linarith
  then have "\<not> 2 ^ 1024 \<le> \<bar>real_of_int (py_round (r / ?u)) * ?u\<bar>"
    by simp
  with False show ?thesis
    by (simp add: round_to_double_def Let_def)
qed

text \<open>Integers below \<open>2 ^ 53\<close> are doubles; this runs the arithmetic on the example
  board.\<close>

lemma round_to_double_numeral:
  "numeral n < (2::int) ^ 53 \<Longrightarrow> round_to_double (numeral n) = Finite (numeral n)"
  using round_to_double_of_int[of "numeral n"] by simp

lemma round_to_double_small:
  "round_to_double 0 = Finite 0" "round_to_double 1 = Finite 1"
  using round_to_double_of_int[of 0] round_to_double_of_int[of 1] by simp_all

lemmas float_evals = fdiv_def round_to_double_numeral round_to_double_small

subsection \<open>Frame lemmas: what drawing and the cursor leave alone\<close>

lemma xy_to_draw_frame:
  "topDesList (snd (xy_to_draw w x y m)) = topDesList w"
  "botDesList (snd (xy_to_draw w x y m)) = botDesList w"
  "tbl (snd (xy_to_draw w x y m)) = tbl w"
  "pdb (snd (xy_to_draw w x y m)) = pdb w"
  "pdc (snd (xy_to_draw w x y m)) = pdc w"
  "build_side (snd (xy_to_draw w x y m)) = build_side w"
  "cur_placement (snd (xy_to_draw w x y m)) = cur_placement w"
  "matcher_calls (snd (xy_to_draw w x y m)) = matcher_calls w"
  "marker_diameter (snd (xy_to_draw w x y m)) = marker_diameter w"
  "all_components_data (snd (xy_to_draw w x y m)) = all_components_data w"
  "place (snd (xy_to_draw w x y m)) = place w"
  by (simp_all add: xy_to_draw_def reload_base_def draw_marker_def split: sum.splits)

lemma update_placement_frame:
  "topDesList (snd (update_placement env w)) = topDesList w"
  "botDesList (snd (update_placement env w)) = botDesList w"
  "tbl (snd (update_placement env w)) = tbl w"
  "pdb (snd (update_placement env w)) = pdb w"
  "pdc (snd (update_placement env w)) = pdc w"
  "build_side (snd (update_placement env w)) = build_side w"
  "cur_placement (snd (update_placement env w)) = cur_placement w"
  "matcher_calls (snd (update_placement env w)) = matcher_calls w"
  "marker_diameter (snd (update_placement env w)) = marker_diameter w"
  "all_components_data (snd (update_placement env w)) = all_components_data w"
  by (simp_all add: update_placement_def Let_def xy_to_draw_frame
      split: sum.splits option.splits)

lemma find_next_placement_frame:
  "topDesList (snd (find_next_placement env w)) = topDesList w"
  "botDesList (snd (find_next_placement env w)) = botDesList w"
  "tbl (snd (find_next_placement env w)) = tbl w"
  "pdb (snd (find_next_placement env w)) = pdb w"
  "pdc (snd (find_next_placement env w)) = pdc w"
  "build_side (snd (find_next_placement env w)) = build_side w"
  "matcher_calls (snd (find_next_placement env w)) = matcher_calls w"
  "marker_diameter (snd (find_next_placement env w)) = marker_diameter w"
  "all_components_data (snd (find_next_placement env w)) = all_components_data w"
  by (simp_all add: find_next_placement_def Let_def update_placement_frame
      split: sum.splits option.splits)

subsection \<open>The example board\<close>

lemmas example_defs = example_rows_def example_env_def example_window_def init_window_def
  example_float_def MeatBagCSVSettingsKicadMultiLayer_def MeatBagCSVSettingsKicadSingleLayer_def

lemmas eval_defs = process_new_pn_def process_new_com_def process_match_def matchlist_of_def
  field_matches_def isTopLayer_def item_text_def check_state_def lower_def lower_char_def
  Let_def find_next_placement_def update_placement_def active_parts_def item_float_def
  xy_to_draw_def reload_base_def draw_marker_def draw_marker_xy_def py_round_def
  float_evals

lemma example_group:
  "group_components_by_value MeatBagCSVSettingsKicadMultiLayer
     (filter (\<lambda>row. \<not> length row < 4) example_rows) =
   Inr (all_components_data example_loaded)"
  by (simp add: group_components_by_value_def example_defs example_loaded_def
      group_key_def designator_key_def)

lemma example_isTop:
  "isTopLayer MeatBagCSVSettingsKicadMultiLayer example_loaded (Suc 0) = Inr True"
  "isTopLayer MeatBagCSVSettingsKicadMultiLayer example_loaded 2 = Inr True"
  "isTopLayer MeatBagCSVSettingsKicadMultiLayer example_loaded 3 = Inr True"
  by (simp_all add: isTopLayer_def item_text_def example_loaded_def example_defs
      lower_def lower_char_def)

lemma example_recolour:
  "recolourTable MeatBagCSVSettingsKicadMultiLayer example_loaded = None"
proof -
  have "row_start MeatBagCSVSettingsKicadMultiLayer = 1"
    by (simp add: MeatBagCSVSettingsKicadMultiLayer_def MeatBagCSVSettingsKicadSingleLayer_def)
  moreover have "[1..<4] = [1, 2, 3::nat]"
    by (simp add: upt_conv_Cons del: upt_Suc)
  moreover have "length (tbl example_loaded) = 4"
    by (simp add: example_loaded_def)
  ultimately show ?thesis
    by (simp add: recolourTable_def row_colour_def example_isTop)
qed

lemma example_parse:
  "parseCSVFile example_env example_rows example_window = (None, example_loaded)"
proof -
  have "update_table_for_selected_side example_env
          (example_window\<lparr>all_components_data := all_components_data example_loaded\<rparr>)
        = (recolourTable MeatBagCSVSettingsKicadMultiLayer example_loaded, example_loaded)"
    by (simp add: update_table_for_selected_side_def Let_def example_loaded_def example_defs
        filtered_data_of_def keep_row_def target_side_of_def lower_def lower_char_def)
  then show ?thesis
    unfolding parseCSVFile_def Let_def
    by (simp only: example_env_def env.simps example_group sum.case example_recolour)
qed

subsection \<open>The matching rule\<close>

lemma str_in_sublist: "str_in x y = sublist x y"
  by (induction y) (auto simp: sublist_Cons_right)

lemma field_matches_sublist:
  "field_matches n field tok \<longleftrightarrow> (n < length field \<and> sublist field tok) \<or> sublist tok field"
  by (simp add: field_matches_def str_in_sublist)

lemma set_matchlist_of:
  "i \<in> set (matchlist_of n pool tok) \<longleftrightarrow> i < length pool \<and> field_matches n (pool ! i) tok"
  by (auto simp: matchlist_of_def)

lemma des_loop_sets:
  "des_loop cs w rs (tops, bots, ts, bs) = (None, tops', bots', ts', bs') \<Longrightarrow>
     set tops' \<union> set bots' = set tops \<union> set bots \<union> set rs"
proof (induction rs arbitrary: tops bots ts bs)
  case Nil
  then show ?case by simp
next
  case (Cons r rs)
  then show ?case
    by (auto split: sum.splits bool.splits if_splits)
qed

lemma process_match_lists:
  assumes "fst (process_match n (Some db) env w tok upd) = None"
  shows "\<exists>tops bots. topDesList (snd (process_match n (Some db) env w tok upd)) = Some tops
           \<and> botDesList (snd (process_match n (Some db) env w tok upd)) = Some bots
           \<and> set tops \<union> set bots = set (matchlist_of n db tok)"
proof -
  let ?w = "w\<lparr>matcher_calls := matcher_calls w @ [tok]\<rparr>"
  obtain e tops bots ts bs where
    d: "des_loop (csv_settings env) ?w (matchlist_of n db tok) ([], [], [], [])
          = (e, tops, bots, ts, bs)"
    by (metis prod_cases5)
  with assms have e: "e = None"
    by (cases e) (simp_all add: process_match_def Let_def)
  from d e have "set tops \<union> set bots = set (matchlist_of n db tok)"
    using des_loop_sets by fastforce
  with d e show ?thesis
    by (simp add: process_match_def Let_def find_next_placement_frame)
qed

lemma example_pn:
  "process_new_pn example_env example_loaded ''100nF-X7R'' False =
     (None, example_loaded\<lparr>matcher_calls := [''100nF-X7R''], topDesList := Some [1, 2],
        botDesList := Some [], topDes := ''C1, C2, '', botDes := []\<rparr>)"
  by (simp add: eval_defs example_loaded_def example_defs)

lemma example_com:
  "process_new_com example_env example_loaded ''10k'' False =
     (None, example_loaded\<lparr>matcher_calls := [''10k''], topDesList := Some [3],
        botDesList := Some [], topDes := ''R1, '', botDes := []\<rparr>)"
  by (simp add: eval_defs example_loaded_def example_defs)

text \<open>
  \<^bold>\<open>C1\<close> (as amended). A row of the pool is in the match list exactly when its field is
  longer than 4 characters (part numbers; longer than 3 for values/comments), that is,
  has at least 5 (at least 4) characters, and occurs in the scanned token as a
  contiguous substring, or the token occurs in the field as a contiguous substring.
  Characters are compared as they are, so the match is case-sensitive. When the method
  ends without an exception, the rows of \<open>topDesList\<close> and \<open>botDesList\<close> together are
  the rows of the match list.
\<close>

theorem matcher_rule:
  "(i \<in> set (matchlist_of 4 db tok) \<longleftrightarrow>
      i < length db \<and> ((4 < length (db ! i) \<and> sublist (db ! i) tok) \<or> sublist tok (db ! i)))
   \<and> (i \<in> set (matchlist_of 3 dc tok) \<longleftrightarrow>
      i < length dc \<and> ((3 < length (dc ! i) \<and> sublist (dc ! i) tok) \<or> sublist tok (dc ! i)))
   \<and> (pdb w = Some db \<longrightarrow> fst (process_new_pn env w tok upd) = None \<longrightarrow>
        (\<exists>tops bots. topDesList (snd (process_new_pn env w tok upd)) = Some tops
           \<and> botDesList (snd (process_new_pn env w tok upd)) = Some bots
           \<and> set tops \<union> set bots = set (matchlist_of 4 db tok)))
   \<and> (pdc w = Some dc \<longrightarrow> fst (process_new_com env w tok upd) = None \<longrightarrow>
        (\<exists>tops bots. topDesList (snd (process_new_com env w tok upd)) = Some tops
           \<and> botDesList (snd (process_new_com env w tok upd)) = Some bots
           \<and> set tops \<union> set bots = set (matchlist_of 3 dc tok)))"
  using process_match_lists[of 4 db env w tok upd] process_match_lists[of 3 dc env w tok upd]
  by (simp add: set_matchlist_of field_matches_sublist process_new_pn_def process_new_com_def)

text \<open>The theorem at the example board: the scan \<open>100nF-X7R\<close> contains the
  five-character part number of rows 1 and 2; the value \<open>10K\<close> differs from \<open>10k\<close> in
  case and matches no row.\<close>

theorem matcher_rule_witness:
  "pdb example_loaded = Some [''Val'', ''100nF'', ''100nF'', ''10k'']
   \<and> pdc example_loaded = Some [''Val'', ''100nF'', ''100nF'', ''10k'']
   \<and> fst (process_new_pn example_env example_loaded ''100nF-X7R'' False) = None
   \<and> fst (process_new_com example_env example_loaded ''10k'' False) = None
   \<and> set (matchlist_of 4 [''Val'', ''100nF'', ''100nF'', ''10k''] ''100nF-X7R'') = {1, 2}
   \<and> topDesList (snd (process_new_pn example_env example_loaded ''100nF-X7R'' False))
        = Some [1, 2]
   \<and> botDesList (snd (process_new_pn example_env example_loaded ''100nF-X7R'' False))
        = Some []
   \<and> 1 \<in> set (matchlist_of 4 [''Val'', ''100nF'', ''100nF'', ''10k''] ''100nF-X7R'')
   \<and> matchlist_of 3 [''Val'', ''100nF'', ''100nF'', ''10k''] ''10K'' = []"
  using matcher_rule[of 1 "[''Val'', ''100nF'', ''100nF'', ''10k'']" "''100nF-X7R''"
      "[''Val'', ''100nF'', ''100nF'', ''10k'']" example_loaded example_env False]
  by (simp add: example_pn example_com)
    (simp add: example_loaded_def matchlist_of_def field_matches_def)

text \<open>The claim as the spec words it asks the field to be longer than 5 characters.
  The five-character part number \<open>ABCDE\<close> matches the scan \<open>ABCDEF\<close>.\<close>

theorem matcher_rule_counterexample:
  "0 \<in> set (matchlist_of 4 [''ABCDE''] ''ABCDEF'')
   \<and> \<not> (0 < length [''ABCDE'']
        \<and> ((5 < length ([''ABCDE''] ! 0) \<and> sublist ([''ABCDE''] ! 0) ''ABCDEF'')
           \<or> sublist ''ABCDEF'' ([''ABCDE''] ! 0)))"
  by (simp add: matchlist_of_def field_matches_def sublist_code)

subsection \<open>Deriving the side of a row\<close>

lemma lower_char_cases:
  "lower_char c = CHR ''t'' \<longleftrightarrow> c = CHR ''t'' \<or> c = CHR ''T''"
  "lower_char c = CHR ''o'' \<longleftrightarrow> c = CHR ''o'' \<or> c = CHR ''O''"
  "lower_char c = CHR ''p'' \<longleftrightarrow> c = CHR ''p'' \<or> c = CHR ''P''"
  "lower_char c = CHR ''b'' \<longleftrightarrow> c = CHR ''b'' \<or> c = CHR ''B''"
  by (auto simp: lower_char_def)

lemma prefix3_lower:
  "prefix [x, y, z] (lower s) \<longleftrightarrow>
     (\<exists>a b c rest. s = a # b # c # rest \<and> lower_char a = x \<and> lower_char b = y \<and> lower_char c = z)"
proof (cases s)
  case Nil
  then show ?thesis by (simp add: lower_def)
next
  case (Cons a s1)
  show ?thesis
  proof (cases s1)
    case Nil
    with Cons show ?thesis by (simp add: lower_def)
  next
    case (Cons b s2)
    with \<open>s = a # s1\<close> show ?thesis
      by (cases s2) (auto simp: lower_def)
  qed
qed

lemma isTopLayer_matcher_calls [simp]:
  "isTopLayer cs (w\<lparr>matcher_calls := m\<rparr>) r = isTopLayer cs w r"
  "item_text (w\<lparr>matcher_calls := m\<rparr>) r c = item_text w r c"
  by (simp_all add: isTopLayer_def item_text_def)

lemma des_loop_error:
  "r \<in> set rs \<Longrightarrow> isTopLayer cs w r = Inl e \<Longrightarrow> fst (des_loop cs w rs acc) \<noteq> None"
proof (induction rs arbitrary: acc)
  case Nil
  then show ?case by simp
next
  case (Cons a rs)
  obtain tops bots ts bs where acc: "acc = (tops, bots, ts, bs)"
    by (cases acc) auto
  show ?case
  proof (cases "a = r")
    case True
    with Cons.prems acc show ?thesis by simp
  next
    case False
    with Cons.prems have "r \<in> set rs" by simp
    from Cons.IH[OF this Cons.prems(2)] acc show ?thesis
      by (auto split: sum.splits bool.splits)
  qed
qed

lemma des_loop_members:
  "des_loop cs w rs (tops, bots, ts, bs) = (e, tops', bots', ts', bs') \<Longrightarrow>
     set tops' \<subseteq> set tops \<union> {r \<in> set rs. isTopLayer cs w r = Inr True}
     \<and> set bots' \<subseteq> set bots \<union> {r \<in> set rs. isTopLayer cs w r = Inr False}"
proof (induction rs arbitrary: tops bots ts bs)
  case Nil
  then show ?case by simp
next
  case (Cons a rs)
  show ?case
  proof (cases "isTopLayer cs w a")
    case (Inl x)
    with Cons.prems show ?thesis by auto
  next
    case (Inr t)
    show ?thesis
    proof (cases "item_text w a (col_des cs)")
      case (Inl x)
      with Inr Cons.prems show ?thesis by (cases t) auto
    next
      case d: (Inr d)
      show ?thesis
      proof (cases t)
        case True
        with Inr d Cons.prems
        have "des_loop cs w rs (tops @ [a], bots, ts @ d @ '', '', bs) = (e, tops', bots', ts', bs')"
          by simp
        from Cons.IH[OF this] True Inr show ?thesis by auto
      next
        case False
        with Inr d Cons.prems
        have "des_loop cs w rs (tops, bots @ [a], ts, bs @ d @ '', '') = (e, tops', bots', ts', bs')"
          by simp
        from Cons.IH[OF this] False Inr show ?thesis by auto
      qed
    qed
  qed
qed

lemma isTopLayer_display [simp]:
  "isTopLayer cs (w\<lparr>drawing_all_same_value := d\<rparr>) r = isTopLayer cs w r"
  "isTopLayer cs (w\<lparr>place := p\<rparr>) r = isTopLayer cs w r"
  by (simp_all add: isTopLayer_def item_text_def)

lemma process_match_error:
  assumes "r \<in> set (matchlist_of n db tok)" and "isTopLayer (csv_settings env) w r = Inl e"
  shows "fst (process_match n (Some db) env w tok upd) \<noteq> None"
    and "topDesList (snd (process_match n (Some db) env w tok upd)) = Some tops \<Longrightarrow> r \<notin> set tops"
    and "botDesList (snd (process_match n (Some db) env w tok upd)) = Some bots \<Longrightarrow> r \<notin> set bots"
proof -
  let ?w = "w\<lparr>matcher_calls := matcher_calls w @ [tok]\<rparr>"
  obtain x tops' bots' ts bs where
    d: "des_loop (csv_settings env) ?w (matchlist_of n db tok) ([], [], [], [])
          = (x, tops', bots', ts, bs)"
    by (metis prod_cases5)
  from assms have "fst (des_loop (csv_settings env) ?w (matchlist_of n db tok) ([], [], [], [])) \<noteq> None"
    by (intro des_loop_error[of r]) simp_all
  with d obtain e' where x: "x = Some e'" by auto
  from des_loop_members[OF d] assms(2)
  have mem: "r \<notin> set tops'" "r \<notin> set bots'" by auto
  from d x show "fst (process_match n (Some db) env w tok upd) \<noteq> None"
    by (simp add: process_match_def Let_def)
  from d x mem show "topDesList (snd (process_match n (Some db) env w tok upd)) = Some tops \<Longrightarrow> r \<notin> set tops"
    by (auto simp add: process_match_def Let_def)
  from d x mem show "botDesList (snd (process_match n (Some db) env w tok upd)) = Some bots \<Longrightarrow> r \<notin> set bots"
    by (auto simp add: process_match_def Let_def)
qed

lemma item_text_error: "item_text w r c = Inl e \<Longrightarrow> e = AttributeError"
  by (auto simp: item_text_def Let_def split: if_splits)

lemma isTopLayer_error:
  "isTopLayer cs w r = Inl e \<Longrightarrow>
     (e = AttributeError \<and> item_text w r (nat (col_layer cs)) = Inl AttributeError)
     \<or> (e = ValueError \<and> item_text w r (nat (col_layer cs)) \<noteq> Inl AttributeError)"
  by (auto simp: isTopLayer_def split: if_splits sum.splits dest: item_text_error)

lemma des_loop_error_kind:
  "fst (des_loop cs w rs acc) = Some e \<Longrightarrow>
     e = ValueError \<and> (\<exists>r \<in> set rs. isTopLayer cs w r = Inl ValueError)
     \<or> e = AttributeError
        \<and> (\<exists>r \<in> set rs. item_text w r (nat (col_layer cs)) = Inl AttributeError
              \<or> item_text w r (col_des cs) = Inl AttributeError)"
proof (induction rs arbitrary: acc)
  case Nil
  then show ?case by simp
next
  case (Cons a rs)
  obtain tops bots ts bs where acc: "acc = (tops, bots, ts, bs)"
    by (cases acc) auto
  show ?case
  proof (cases "isTopLayer cs w a")
    case (Inl x)
    with Cons.prems acc have "x = e" by simp
    with Inl isTopLayer_error[of cs w a e] show ?thesis by auto
  next
    case (Inr t)
    show ?thesis
    proof (cases "item_text w a (col_des cs)")
      case (Inl x)
      with Inr Cons.prems acc have "x = e" by (cases t) simp_all
      with Inl item_text_error[of w a "col_des cs" e] show ?thesis by auto
    next
      case d: (Inr d)
      from Inr d Cons.prems acc
      have "\<exists>acc'. fst (des_loop cs w rs acc') = Some e"
        by (cases t) auto
      then obtain acc' where "fst (des_loop cs w rs acc') = Some e" ..
      from Cons.IH[OF this] show ?thesis by auto
    qed
  qed
qed

lemma process_match_error_kind:
  assumes "r \<in> set (matchlist_of n db tok)"
    and "isTopLayer (csv_settings env) w r = Inl ValueError"
  shows "fst (process_match n (Some db) env w tok upd) = Some ValueError
         \<or> fst (process_match n (Some db) env w tok upd) = Some AttributeError"
    and "(\<forall>r' \<in> set (matchlist_of n db tok).
            item_text w r' (nat (col_layer (csv_settings env))) \<noteq> Inl AttributeError
            \<and> item_text w r' (col_des (csv_settings env)) \<noteq> Inl AttributeError) \<Longrightarrow>
         fst (process_match n (Some db) env w tok upd) = Some ValueError"
proof -
  let ?w = "w\<lparr>matcher_calls := matcher_calls w @ [tok]\<rparr>"
  let ?d = "des_loop (csv_settings env) ?w (matchlist_of n db tok) ([], [], [], [])"
  from assms have "fst ?d \<noteq> None"
    by (intro des_loop_error[of r]) simp_all
  then obtain e where e: "fst ?d = Some e" by auto
  then have p: "fst (process_match n (Some db) env w tok upd) = Some e"
    by (cases ?d) (simp add: process_match_def Let_def)
  from des_loop_error_kind[OF e]
  have k: "e = ValueError
     \<or> e = AttributeError
        \<and> (\<exists>r \<in> set (matchlist_of n db tok).
              item_text w r (nat (col_layer (csv_settings env))) = Inl AttributeError
              \<or> item_text w r (col_des (csv_settings env)) = Inl AttributeError)"
    by auto
  from k p show "fst (process_match n (Some db) env w tok upd) = Some ValueError
         \<or> fst (process_match n (Some db) env w tok upd) = Some AttributeError"
    by auto
  from k p show "fst (process_match n (Some db) env w tok upd) = Some ValueError"
    if "\<forall>r' \<in> set (matchlist_of n db tok).
            item_text w r' (nat (col_layer (csv_settings env))) \<noteq> Inl AttributeError
            \<and> item_text w r' (col_des (csv_settings env)) \<noteq> Inl AttributeError"
    using that by auto
qed

lemma item_float_error:
  "item_float env w r c = Inl e \<Longrightarrow>
     e = AttributeError \<and> item_text w r c = Inl AttributeError
     \<or> e = ValueError \<and> item_text w r c \<noteq> Inl AttributeError"
  by (auto simp: item_float_def split: sum.splits option.splits dest: item_text_error)

lemma item_float_place [simp]:
  "item_float env (w\<lparr>place := p\<rparr>) r c = item_float env w r c"
  "item_float env (w\<lparr>drawing_all_same_value := d\<rparr>) r c = item_float env w r c"
  "item_text (w\<lparr>place := p\<rparr>) r c = item_text w r c"
  "item_text (w\<lparr>drawing_all_same_value := d\<rparr>) r c = item_text w r c"
  by (simp_all add: item_float_def item_text_def)

lemma update_placement_unknown_layer:
  assumes "cur_placement w = Some r" and "isTopLayer (csv_settings env) w r = Inl ValueError"
  shows "fst (update_placement env w) = Some ValueError
         \<or> fst (update_placement env w) = Some AttributeError"
    and "markers (snd (update_placement env w)) = markers w"
    and "item_text w r (col_des (csv_settings env)) \<noteq> Inl AttributeError \<Longrightarrow>
         item_text w r (col_x (csv_settings env)) \<noteq> Inl AttributeError \<Longrightarrow>
         item_text w r (col_y (csv_settings env)) \<noteq> Inl AttributeError \<Longrightarrow>
         fst (update_placement env w) = Some ValueError"
  using assms
  by (auto simp: update_placement_def Let_def split: sum.splits
      dest: item_text_error item_float_error)

lemma highlight_unknown_layer:
  assumes "isTopLayer (csv_settings env) w r = Inl ValueError"
  shows "highlight_component_at_row env w r = (None, w)"
proof -
  have "highlight_try env w r = (Some ValueError, w)
        \<or> highlight_try env w r = (Some AttributeError, w)"
    using assms
    by (auto simp: highlight_try_def Let_def split: sum.splits
        dest: item_text_error item_float_error)
  then show ?thesis
    by (auto simp: highlight_component_at_row_def)
qed

lemma middle_group:
  "group_components_by_value MeatBagCSVSettingsKicadMultiLayer
     (filter (\<lambda>row. \<not> length row < 4) middle_rows) = Inr middle_rows"
  by (simp add: group_components_by_value_def middle_rows_def example_defs
      group_key_def designator_key_def)

lemma middle_update:
  "update_table_for_selected_side example_env (middle_loaded\<lparr>build_side := s\<rparr>)
     = (None, middle_loaded\<lparr>build_side := s\<rparr>)"
  by (simp add: update_table_for_selected_side_def Let_def middle_loaded_def middle_rows_def
      example_defs filtered_data_of_def keep_row_def target_side_of_def lower_def lower_char_def
      recolourTable_def)

lemma middle_parse:
  "parseCSVFile example_env middle_rows example_window = (None, middle_loaded)"
proof -
  have "update_table_for_selected_side example_env
          (example_window\<lparr>all_components_data := middle_rows\<rparr>) = (None, middle_loaded)"
    by (simp add: update_table_for_selected_side_def Let_def middle_loaded_def middle_rows_def
      example_defs filtered_data_of_def keep_row_def target_side_of_def lower_def lower_char_def
      recolourTable_def)
  then show ?thesis
    unfolding parseCSVFile_def Let_def
    by (simp only: example_env_def env.simps middle_group sum.case)
qed


lemma example_header:
  "item_text example_loaded 0 (nat (col_layer MeatBagCSVSettingsKicadMultiLayer)) = Inr ''Side''"
  "\<not> prefix ''top'' (lower ''Side'')" "\<not> prefix ''bot'' (lower ''Side'')"
  "pdb example_loaded = Some [''Val'', ''100nF'', ''100nF'', ''10k'']"
  "0 \<in> set (matchlist_of 4 [''Val'', ''100nF'', ''100nF'', ''10k''] ''Val'')"
  "csv_settings example_env = MeatBagCSVSettingsKicadMultiLayer"
  "0 \<le> col_layer MeatBagCSVSettingsKicadMultiLayer"
  by (simp_all add: example_defs example_loaded_def item_text_def lower_def lower_char_def
      matchlist_of_def field_matches_def)


lemma example_header_items:
  "matchlist_of 4 [''Val'', ''100nF'', ''100nF'', ''10k''] ''Val'' = [0]"
  "item_text example_loaded 0 (col_des MeatBagCSVSettingsKicadMultiLayer) = Inr ''Ref''"
  "item_text (example_loaded\<lparr>cur_placement := Some 0\<rparr>) 0
     (nat (col_layer MeatBagCSVSettingsKicadMultiLayer)) = Inr ''Side''"
  "item_text (example_loaded\<lparr>cur_placement := Some 0\<rparr>) 0
     (col_des MeatBagCSVSettingsKicadMultiLayer) = Inr ''Ref''"
  "item_text (example_loaded\<lparr>cur_placement := Some 0\<rparr>) 0
     (col_x MeatBagCSVSettingsKicadMultiLayer) = Inr ''PosX''"
  "item_text (example_loaded\<lparr>cur_placement := Some 0\<rparr>) 0
     (col_y MeatBagCSVSettingsKicadMultiLayer) = Inr ''PosY''"
  by (simp_all add: example_defs example_loaded_def item_text_def matchlist_of_def
      field_matches_def)

text \<open>
  \<^bold>\<open>C2\<close> (as amended). \<open>isTopLayer\<close> answers top when no layer column is configured
  (\<open>col_layer\<close> negative). Otherwise it lower-cases the text of the layer item and
  looks at its first three characters: \<open>top\<close> in any mix of cases gives top, \<open>bot\<close>
  gives bottom. For any other text it raises \<open>ValueError\<close>. Its callers treat such a
  row each in its own way. \<open>recolourTable\<close> catches the exception and paints the row
  light gray. \<open>highlight_component_at_row\<close> catches it too, and returns with the
  display as it was. \<open>update_placement\<close> with the cursor on the row ends with an
  exception and draws no marker: with \<open>ValueError\<close> when the row has its designator and
  coordinate items, with \<open>AttributeError\<close> or \<open>ValueError\<close> otherwise. \<open>process_new_pn\<close>
  and \<open>process_new_com\<close>, when the row is among the matches, end with an exception and
  leave the row in neither list: with \<open>ValueError\<close> when every matched row has its
  layer and designator items, with \<open>AttributeError\<close> or \<open>ValueError\<close> otherwise.
\<close>

theorem side_derivation:
  "(col_layer cs < 0 \<longrightarrow> isTopLayer cs w r = Inr True)
   \<and> (0 \<le> col_layer cs \<longrightarrow> item_text w r (nat (col_layer cs)) = Inr tb \<longrightarrow>
        isTopLayer cs w r =
          (if prefix ''top'' (lower tb) then Inr True
           else if prefix ''bot'' (lower tb) then Inr False
           else Inl ValueError))
   \<and> (prefix ''top'' (lower tb) \<longleftrightarrow>
        (\<exists>a b c rest. tb = a # b # c # rest \<and> a \<in> {CHR ''t'', CHR ''T''}
           \<and> b \<in> {CHR ''o'', CHR ''O''} \<and> c \<in> {CHR ''p'', CHR ''P''}))
   \<and> (prefix ''bot'' (lower tb) \<longleftrightarrow>
        (\<exists>a b c rest. tb = a # b # c # rest \<and> a \<in> {CHR ''b'', CHR ''B''}
           \<and> b \<in> {CHR ''o'', CHR ''O''} \<and> c \<in> {CHR ''t'', CHR ''T''}))
   \<and> (0 \<le> col_layer cs \<longrightarrow> item_text w r (nat (col_layer cs)) = Inr tb \<longrightarrow>
        \<not> prefix ''top'' (lower tb) \<longrightarrow> \<not> prefix ''bot'' (lower tb) \<longrightarrow>
          isTopLayer cs w r = Inl ValueError
          \<and> row_colour cs w r = Inr LightGray
          \<and> (csv_settings env = cs \<longrightarrow> highlight_component_at_row env w r = (None, w))
          \<and> (csv_settings env = cs \<longrightarrow> cur_placement w = Some r \<longrightarrow>
                (fst (update_placement env w) = Some ValueError
                   \<or> fst (update_placement env w) = Some AttributeError)
                \<and> markers (snd (update_placement env w)) = markers w
                \<and> (item_text w r (col_des cs) \<noteq> Inl AttributeError
                     \<and> item_text w r (col_x cs) \<noteq> Inl AttributeError
                     \<and> item_text w r (col_y cs) \<noteq> Inl AttributeError \<longrightarrow>
                     fst (update_placement env w) = Some ValueError))
          \<and> (csv_settings env = cs \<longrightarrow> pdb w = Some db \<longrightarrow> r \<in> set (matchlist_of 4 db tok) \<longrightarrow>
                (fst (process_new_pn env w tok upd) = Some ValueError
                   \<or> fst (process_new_pn env w tok upd) = Some AttributeError)
                \<and> (\<forall>l. topDesList (snd (process_new_pn env w tok upd)) = Some l \<longrightarrow> r \<notin> set l)
                \<and> (\<forall>l. botDesList (snd (process_new_pn env w tok upd)) = Some l \<longrightarrow> r \<notin> set l)
                \<and> ((\<forall>r' \<in> set (matchlist_of 4 db tok).
                        item_text w r' (nat (col_layer cs)) \<noteq> Inl AttributeError
                        \<and> item_text w r' (col_des cs) \<noteq> Inl AttributeError) \<longrightarrow>
                     fst (process_new_pn env w tok upd) = Some ValueError))
          \<and> (csv_settings env = cs \<longrightarrow> pdc w = Some dc \<longrightarrow> r \<in> set (matchlist_of 3 dc tok) \<longrightarrow>
                (fst (process_new_com env w tok upd) = Some ValueError
                   \<or> fst (process_new_com env w tok upd) = Some AttributeError)
                \<and> (\<forall>l. topDesList (snd (process_new_com env w tok upd)) = Some l \<longrightarrow> r \<notin> set l)
                \<and> (\<forall>l. botDesList (snd (process_new_com env w tok upd)) = Some l \<longrightarrow> r \<notin> set l)
                \<and> ((\<forall>r' \<in> set (matchlist_of 3 dc tok).
                        item_text w r' (nat (col_layer cs)) \<noteq> Inl AttributeError
                        \<and> item_text w r' (col_des cs) \<noteq> Inl AttributeError) \<longrightarrow>
                     fst (process_new_com env w tok upd) = Some ValueError)))"
proof -
  have a: "col_layer cs < 0 \<longrightarrow> isTopLayer cs w r = Inr True"
    by (simp add: isTopLayer_def)
  have b: "0 \<le> col_layer cs \<longrightarrow> item_text w r (nat (col_layer cs)) = Inr tb \<longrightarrow>
        isTopLayer cs w r =
          (if prefix ''top'' (lower tb) then Inr True
           else if prefix ''bot'' (lower tb) then Inr False
           else Inl ValueError)"
    by (simp add: isTopLayer_def)
  have c: "prefix ''top'' (lower tb) \<longleftrightarrow>
        (\<exists>a b c rest. tb = a # b # c # rest \<and> a \<in> {CHR ''t'', CHR ''T''}
           \<and> b \<in> {CHR ''o'', CHR ''O''} \<and> c \<in> {CHR ''p'', CHR ''P''})"
    by (simp add: prefix3_lower lower_char_cases)
  have d: "prefix ''bot'' (lower tb) \<longleftrightarrow>
        (\<exists>a b c rest. tb = a # b # c # rest \<and> a \<in> {CHR ''b'', CHR ''B''}
           \<and> b \<in> {CHR ''o'', CHR ''O''} \<and> c \<in> {CHR ''t'', CHR ''T''})"
    by (simp add: prefix3_lower lower_char_cases)
  have e: "isTopLayer cs w r = Inl ValueError
          \<and> row_colour cs w r = Inr LightGray
          \<and> (csv_settings env = cs \<longrightarrow> highlight_component_at_row env w r = (None, w))
          \<and> (csv_settings env = cs \<longrightarrow> cur_placement w = Some r \<longrightarrow>
                (fst (update_placement env w) = Some ValueError
                   \<or> fst (update_placement env w) = Some AttributeError)
                \<and> markers (snd (update_placement env w)) = markers w
                \<and> (item_text w r (col_des cs) \<noteq> Inl AttributeError
                     \<and> item_text w r (col_x cs) \<noteq> Inl AttributeError
                     \<and> item_text w r (col_y cs) \<noteq> Inl AttributeError \<longrightarrow>
                     fst (update_placement env w) = Some ValueError))
          \<and> (csv_settings env = cs \<longrightarrow> pdb w = Some db \<longrightarrow> r \<in> set (matchlist_of 4 db tok) \<longrightarrow>
                (fst (process_new_pn env w tok upd) = Some ValueError
                   \<or> fst (process_new_pn env w tok upd) = Some AttributeError)
                \<and> (\<forall>l. topDesList (snd (process_new_pn env w tok upd)) = Some l \<longrightarrow> r \<notin> set l)
                \<and> (\<forall>l. botDesList (snd (process_new_pn env w tok upd)) = Some l \<longrightarrow> r \<notin> set l)
                \<and> ((\<forall>r' \<in> set (matchlist_of 4 db tok).
                        item_text w r' (nat (col_layer cs)) \<noteq> Inl AttributeError
                        \<and> item_text w r' (col_des cs) \<noteq> Inl AttributeError) \<longrightarrow>
                     fst (process_new_pn env w tok upd) = Some ValueError))
          \<and> (csv_settings env = cs \<longrightarrow> pdc w = Some dc \<longrightarrow> r \<in> set (matchlist_of 3 dc tok) \<longrightarrow>
                (fst (process_new_com env w tok upd) = Some ValueError
                   \<or> fst (process_new_com env w tok upd) = Some AttributeError)
                \<and> (\<forall>l. topDesList (snd (process_new_com env w tok upd)) = Some l \<longrightarrow> r \<notin> set l)
                \<and> (\<forall>l. botDesList (snd (process_new_com env w tok upd)) = Some l \<longrightarrow> r \<notin> set l)
                \<and> ((\<forall>r' \<in> set (matchlist_of 3 dc tok).
                        item_text w r' (nat (col_layer cs)) \<noteq> Inl AttributeError
                        \<and> item_text w r' (col_des cs) \<noteq> Inl AttributeError) \<longrightarrow>
                     fst (process_new_com env w tok upd) = Some ValueError))"
    if h: "0 \<le> col_layer cs" "item_text w r (nat (col_layer cs)) = Inr tb"
       "\<not> prefix ''top'' (lower tb)" "\<not> prefix ''bot'' (lower tb)"
  proof -
    from h have v: "isTopLayer cs w r = Inl ValueError"
      by (simp add: isTopLayer_def)
    then have col: "row_colour cs w r = Inr LightGray"
      by (simp add: row_colour_def)
    have hl: "csv_settings env = cs \<longrightarrow> highlight_component_at_row env w r = (None, w)"
      using v highlight_unknown_layer[of env w r] by blast
    have up: "csv_settings env = cs \<longrightarrow> cur_placement w = Some r \<longrightarrow>
                (fst (update_placement env w) = Some ValueError
                   \<or> fst (update_placement env w) = Some AttributeError)
                \<and> markers (snd (update_placement env w)) = markers w
                \<and> (item_text w r (col_des cs) \<noteq> Inl AttributeError
                     \<and> item_text w r (col_x cs) \<noteq> Inl AttributeError
                     \<and> item_text w r (col_y cs) \<noteq> Inl AttributeError \<longrightarrow>
                     fst (update_placement env w) = Some ValueError)"
    proof (intro impI)
      assume cs: "csv_settings env = cs" and cur: "cur_placement w = Some r"
      from v cs have v': "isTopLayer (csv_settings env) w r = Inl ValueError" by simp
      note u = update_placement_unknown_layer[OF cur v']
      from u(1) u(2) u(3) show "(fst (update_placement env w) = Some ValueError
                   \<or> fst (update_placement env w) = Some AttributeError)
                \<and> markers (snd (update_placement env w)) = markers w
                \<and> (item_text w r (col_des cs) \<noteq> Inl AttributeError
                     \<and> item_text w r (col_x cs) \<noteq> Inl AttributeError
                     \<and> item_text w r (col_y cs) \<noteq> Inl AttributeError \<longrightarrow>
                     fst (update_placement env w) = Some ValueError)"
        unfolding cs by blast
    qed
    have pn: "csv_settings env = cs \<longrightarrow> pdb w = Some db \<longrightarrow> r \<in> set (matchlist_of 4 db tok) \<longrightarrow>
                (fst (process_new_pn env w tok upd) = Some ValueError
                   \<or> fst (process_new_pn env w tok upd) = Some AttributeError)
                \<and> (\<forall>l. topDesList (snd (process_new_pn env w tok upd)) = Some l \<longrightarrow> r \<notin> set l)
                \<and> (\<forall>l. botDesList (snd (process_new_pn env w tok upd)) = Some l \<longrightarrow> r \<notin> set l)
                \<and> ((\<forall>r' \<in> set (matchlist_of 4 db tok).
                        item_text w r' (nat (col_layer cs)) \<noteq> Inl AttributeError
                        \<and> item_text w r' (col_des cs) \<noteq> Inl AttributeError) \<longrightarrow>
                     fst (process_new_pn env w tok upd) = Some ValueError)"
    proof (intro impI)
      assume cs: "csv_settings env = cs" and pool: "pdb w = Some db"
        and r: "r \<in> set (matchlist_of 4 db tok)"
      from v cs have v': "isTopLayer (csv_settings env) w r = Inl ValueError" by simp
      note k = process_match_error_kind[OF r v', of upd]
      note m = process_match_error(2,3)[OF r v', of upd]
      from k(1) k(2) m show "(fst (process_new_pn env w tok upd) = Some ValueError
                   \<or> fst (process_new_pn env w tok upd) = Some AttributeError)
                \<and> (\<forall>l. topDesList (snd (process_new_pn env w tok upd)) = Some l \<longrightarrow> r \<notin> set l)
                \<and> (\<forall>l. botDesList (snd (process_new_pn env w tok upd)) = Some l \<longrightarrow> r \<notin> set l)
                \<and> ((\<forall>r' \<in> set (matchlist_of 4 db tok).
                        item_text w r' (nat (col_layer cs)) \<noteq> Inl AttributeError
                        \<and> item_text w r' (col_des cs) \<noteq> Inl AttributeError) \<longrightarrow>
                     fst (process_new_pn env w tok upd) = Some ValueError)"
        unfolding process_new_pn_def pool cs by blast
    qed
    have com: "csv_settings env = cs \<longrightarrow> pdc w = Some dc \<longrightarrow> r \<in> set (matchlist_of 3 dc tok) \<longrightarrow>
                (fst (process_new_com env w tok upd) = Some ValueError
                   \<or> fst (process_new_com env w tok upd) = Some AttributeError)
                \<and> (\<forall>l. topDesList (snd (process_new_com env w tok upd)) = Some l \<longrightarrow> r \<notin> set l)
                \<and> (\<forall>l. botDesList (snd (process_new_com env w tok upd)) = Some l \<longrightarrow> r \<notin> set l)
                \<and> ((\<forall>r' \<in> set (matchlist_of 3 dc tok).
                        item_text w r' (nat (col_layer cs)) \<noteq> Inl AttributeError
                        \<and> item_text w r' (col_des cs) \<noteq> Inl AttributeError) \<longrightarrow>
                     fst (process_new_com env w tok upd) = Some ValueError)"
    proof (intro impI)
      assume cs: "csv_settings env = cs" and pool: "pdc w = Some dc"
        and r: "r \<in> set (matchlist_of 3 dc tok)"
      from v cs have v': "isTopLayer (csv_settings env) w r = Inl ValueError" by simp
      note k = process_match_error_kind[OF r v', of upd]
      note m = process_match_error(2,3)[OF r v', of upd]
      from k(1) k(2) m show "(fst (process_new_com env w tok upd) = Some ValueError
                   \<or> fst (process_new_com env w tok upd) = Some AttributeError)
                \<and> (\<forall>l. topDesList (snd (process_new_com env w tok upd)) = Some l \<longrightarrow> r \<notin> set l)
                \<and> (\<forall>l. botDesList (snd (process_new_com env w tok upd)) = Some l \<longrightarrow> r \<notin> set l)
                \<and> ((\<forall>r' \<in> set (matchlist_of 3 dc tok).
                        item_text w r' (nat (col_layer cs)) \<noteq> Inl AttributeError
                        \<and> item_text w r' (col_des cs) \<noteq> Inl AttributeError) \<longrightarrow>
                     fst (process_new_com env w tok upd) = Some ValueError)"
        unfolding process_new_com_def pool cs by blast
    qed
    from v col hl up pn com show ?thesis by (intro conjI)
  qed
  from a b c d e show ?thesis by (intro conjI impI) (assumption | simp)+
qed

text \<open>The theorem at the header row of the example board, whose layer text is
  \<open>Side\<close>: scanned as \<open>Val\<close>, clicked, and under the cursor.\<close>

theorem side_derivation_witness:
  "0 \<le> col_layer MeatBagCSVSettingsKicadMultiLayer
   \<and> item_text example_loaded 0 (nat (col_layer MeatBagCSVSettingsKicadMultiLayer)) = Inr ''Side''
   \<and> \<not> prefix ''top'' (lower ''Side'') \<and> \<not> prefix ''bot'' (lower ''Side'')
   \<and> pdb example_loaded = Some [''Val'', ''100nF'', ''100nF'', ''10k'']
   \<and> 0 \<in> set (matchlist_of 4 [''Val'', ''100nF'', ''100nF'', ''10k''] ''Val'')
   \<and> isTopLayer MeatBagCSVSettingsKicadMultiLayer example_loaded 0 = Inl ValueError
   \<and> row_colour MeatBagCSVSettingsKicadMultiLayer example_loaded 0 = Inr LightGray
   \<and> highlight_component_at_row example_env example_loaded 0 = (None, example_loaded)
   \<and> fst (process_new_pn example_env example_loaded ''Val'' False) = Some ValueError
   \<and> fst (update_placement example_env (example_loaded\<lparr>cur_placement := Some 0\<rparr>))
        = Some ValueError
   \<and> markers (snd (update_placement example_env (example_loaded\<lparr>cur_placement := Some 0\<rparr>)))
        = markers (example_loaded\<lparr>cur_placement := Some 0\<rparr>)"
proof -
  have 1: "isTopLayer MeatBagCSVSettingsKicadMultiLayer example_loaded 0 = Inl ValueError
     \<and> row_colour MeatBagCSVSettingsKicadMultiLayer example_loaded 0 = Inr LightGray
     \<and> highlight_component_at_row example_env example_loaded 0 = (None, example_loaded)
     \<and> fst (process_new_pn example_env example_loaded ''Val'' False) = Some ValueError"
    using side_derivation[of MeatBagCSVSettingsKicadMultiLayer example_loaded 0 "''Side''"
        example_env "[''Val'', ''100nF'', ''100nF'', ''10k'']" "''Val''" False "[]"]
    by (simp only: example_header simp_thms) (simp add: example_header_items example_header)
  have 2: "fst (update_placement example_env (example_loaded\<lparr>cur_placement := Some 0\<rparr>))
        = Some ValueError
     \<and> markers (snd (update_placement example_env (example_loaded\<lparr>cur_placement := Some 0\<rparr>)))
        = markers (example_loaded\<lparr>cur_placement := Some 0\<rparr>)"
    using side_derivation[of MeatBagCSVSettingsKicadMultiLayer
        "example_loaded\<lparr>cur_placement := Some 0\<rparr>" 0 "''Side''"
        example_env "[]" "[]" False "[]"]
    by (simp only: example_header example_header_items simp_thms) simp
  from example_header(1-5,7) 1 2 show ?thesis by (intro conjI) simp_all
qed

text \<open>The claim speaks of every operation that needs the side of a row. The filter
  of \<open>update_table_for_selected_side\<close> raises nothing for a row on the layer
  \<open>middle\<close>: loading the file succeeds, and the table of either side holds the header
  alone.\<close>

theorem side_derivation_counterexample:
  "\<not> prefix ''top'' (lower ''middle'') \<and> \<not> prefix ''bot'' (lower ''middle'')
   \<and> fst (parseCSVFile example_env middle_rows example_window) = None
   \<and> map fst (tbl (snd (parseCSVFile example_env middle_rows example_window)))
       = [[''Ref'', ''Val'', ''Package'', ''PosX'', ''PosY'', ''Rot'', ''Side'']]
   \<and> fst (sideSelectionChanged example_env 1
            (snd (parseCSVFile example_env middle_rows example_window))) = None
   \<and> map fst (tbl (snd (sideSelectionChanged example_env 1
            (snd (parseCSVFile example_env middle_rows example_window)))))
       = [[''Ref'', ''Val'', ''Package'', ''PosX'', ''PosY'', ''Rot'', ''Side'']]"
  by (simp add: middle_parse sideSelectionChanged_def middle_update)
    (simp add: middle_loaded_def lower_def lower_char_def)

subsection \<open>The two side views\<close>

lemma tl_conv_nth: "tl xs = map ((!) xs) [1..<length xs]"
  by (rule nth_equalityI) (auto simp: nth_tl)

lemma side_view_rows:
  assumes "data \<noteq> []"
  shows "filtered_data_of cs side data = map ((!) data) (side_view cs side data)"
proof -
  have "filter (keep_row cs (target_side_of side)) (tl data) =
        map ((!) data) (filter (\<lambda>i. keep_row cs (target_side_of side) (data ! i)) [1..<length data])"
    by (subst tl_conv_nth) (simp add: filter_map comp_def)
  with assms show ?thesis
    by (simp add: filtered_data_of_def side_view_def hd_conv_nth)
qed

lemma not_top_and_bot: "prefix ''top'' s \<Longrightarrow> \<not> prefix ''bot'' s"
  by (auto simp: prefix_def)

lemma keep_row_top:
  "keep_row cs (target_side_of 0) row \<longleftrightarrow>
     col_layer cs < 0 \<or> (col_layer cs < int (length row) \<and> prefix ''top'' (lower (row ! nat (col_layer cs))))"
  by (auto simp: keep_row_def target_side_of_def)

lemma keep_row_bottom:
  "keep_row cs (target_side_of (Suc s)) row \<longleftrightarrow>
     0 \<le> col_layer cs \<and> col_layer cs < int (length row) \<and> prefix ''bot'' (lower (row ! nat (col_layer cs)))"
  by (auto simp: keep_row_def target_side_of_def)

lemma side_view_mem:
  "i \<in> set (side_view cs side data) \<longleftrightarrow>
     i = 0 \<or> (1 \<le> i \<and> i < length data \<and> keep_row cs (target_side_of side) (data ! i))"
  by (auto simp: side_view_def)

lemma side_view_sorted: "sorted (side_view cs side data) \<and> distinct (side_view cs side data)"
  by (auto simp: side_view_def sorted_wrt_filter)


text \<open>
  \<^bold>\<open>C3\<close> (as amended). For every layout and every non-empty list of loaded rows, the
  table of a side shows the rows of its side view, in the order of the loaded list. The
  first loaded row is the header and is in both views; it is the only row the two views
  share. Any other loaded row is in one of the views exactly when its layer is known:
  no layer column is configured, or the row has a layer field that, lower-cased, starts
  with \<open>top\<close> or with \<open>bot\<close>.
\<close>

theorem side_views_partition:
  "data \<noteq> [] \<Longrightarrow>
     filtered_data_of cs 0 data = map ((!) data) (side_view cs 0 data)
     \<and> filtered_data_of cs 1 data = map ((!) data) (side_view cs 1 data)
     \<and> sorted (side_view cs 0 data) \<and> distinct (side_view cs 0 data)
     \<and> sorted (side_view cs 1 data) \<and> distinct (side_view cs 1 data)
     \<and> set (side_view cs 0 data) \<inter> set (side_view cs 1 data) = {0}
     \<and> (i \<in> set (side_view cs 0 data) \<union> set (side_view cs 1 data) \<longleftrightarrow>
          i = 0 \<or>
          (i < length data \<and>
           (col_layer cs < 0 \<or>
            (col_layer cs < int (length (data ! i)) \<and>
             (prefix ''top'' (lower (data ! i ! nat (col_layer cs)))
              \<or> prefix ''bot'' (lower (data ! i ! nat (col_layer cs))))))))"
proof -
  assume ne: "data \<noteq> []"
  have inter: "set (side_view cs 0 data) \<inter> set (side_view cs 1 data) = {0}"
    using not_top_and_bot keep_row_bottom[of cs 0]
    by (auto simp: side_view_mem keep_row_top)
  have un: "i \<in> set (side_view cs 0 data) \<union> set (side_view cs 1 data) \<longleftrightarrow>
          i = 0 \<or>
          (i < length data \<and>
           (col_layer cs < 0 \<or>
            (col_layer cs < int (length (data ! i)) \<and>
             (prefix ''top'' (lower (data ! i ! nat (col_layer cs)))
              \<or> prefix ''bot'' (lower (data ! i ! nat (col_layer cs)))))))"
    using keep_row_bottom[of cs 0] ne
    by (cases "i = 0") (auto simp: side_view_mem keep_row_top)
  from side_view_rows[OF ne] side_view_sorted inter un show ?thesis
    by (intro conjI) (assumption | simp)+
qed


text \<open>The theorem at the example board: rows 1, 2 and 4 are on top, row 3 is on the
  bottom.\<close>

theorem side_views_partition_witness:
  "all_components_data example_loaded \<noteq> []
   \<and> side_view MeatBagCSVSettingsKicadMultiLayer 0 (all_components_data example_loaded) = [0, 1, 2, 4]
   \<and> side_view MeatBagCSVSettingsKicadMultiLayer 1 (all_components_data example_loaded) = [0, 3]
   \<and> set (side_view MeatBagCSVSettingsKicadMultiLayer 0 (all_components_data example_loaded))
       \<inter> set (side_view MeatBagCSVSettingsKicadMultiLayer 1 (all_components_data example_loaded)) = {0}
   \<and> map fst (tbl example_loaded)
       = map ((!) (all_components_data example_loaded))
           (side_view MeatBagCSVSettingsKicadMultiLayer 0 (all_components_data example_loaded))"
proof -
  have ne: "all_components_data example_loaded \<noteq> []"
    by (simp add: example_loaded_def)
  have v0: "side_view MeatBagCSVSettingsKicadMultiLayer 0 (all_components_data example_loaded) = [0, 1, 2, 4]"
    by (simp add: side_view_def example_loaded_def example_defs keep_row_def target_side_of_def
        lower_def lower_char_def upt_conv_Cons del: upt_Suc)
  have v1: "side_view MeatBagCSVSettingsKicadMultiLayer 1 (all_components_data example_loaded) = [0, 3]"
    by (simp add: side_view_def example_loaded_def example_defs keep_row_def target_side_of_def
        lower_def lower_char_def upt_conv_Cons del: upt_Suc)
  have t: "map fst (tbl example_loaded)
       = map ((!) (all_components_data example_loaded)) [0, 1, 2, 4]"
    by (simp add: example_loaded_def)
  from side_views_partition[OF ne, of MeatBagCSVSettingsKicadMultiLayer 1] ne v0 v1 t
  show ?thesis by simp
qed


text \<open>The claim asks the two views to be disjoint and to cover every accepted row.
  The file \<open>middle_rows\<close> is accepted as it is; its row 1 is in neither view, and its
  row 0 is in both.\<close>

theorem side_views_partition_counterexample:
  "fst (parseCSVFile example_env middle_rows example_window) = None
   \<and> all_components_data (snd (parseCSVFile example_env middle_rows example_window)) = middle_rows
   \<and> 1 < length middle_rows
   \<and> 1 \<notin> set (side_view MeatBagCSVSettingsKicadMultiLayer 0 middle_rows)
         \<union> set (side_view MeatBagCSVSettingsKicadMultiLayer 1 middle_rows)
   \<and> 0 \<in> set (side_view MeatBagCSVSettingsKicadMultiLayer 0 middle_rows)
         \<inter> set (side_view MeatBagCSVSettingsKicadMultiLayer 1 middle_rows)"
  by (simp add: middle_parse)
    (simp add: middle_loaded_def side_view_def middle_rows_def example_defs keep_row_def
      target_side_of_def lower_def lower_char_def)

subsection \<open>Grouping\<close>

lemma group_key_Inr: "group_key cs row = Inr k \<Longrightarrow> k = key_of cs row"
  by (auto simp: group_key_def key_of_def split: if_splits)

lemma add_group_keys:
  "map fst (add_group k row g) = (if k \<in> fst ` set g then map fst g else map fst g @ [k])"
  by (induction g) (force+)

lemma add_group_distinct: "distinct (map fst g) \<Longrightarrow> distinct (map fst (add_group k row g))"
  by (simp add: add_group_keys)

lemma add_group_map_of:
  "map_of (add_group k row g) =
     (map_of g)(k \<mapsto> (case map_of g k of None \<Rightarrow> [row] | Some rs \<Rightarrow> rs @ [row]))"
  by (induction g) (auto simp: fun_eq_iff)

text \<open>The dictionary after the rows \<open>seen\<close>: one entry per key, holding the rows of that
  key in the order they were seen.\<close>

lemma add_group_inv:
  assumes "distinct (map fst g)"
    and "\<And>k. map_of g k = (if k \<in> f ` set seen then Some (filter (\<lambda>r. f r = k) seen) else None)"
  shows "distinct (map fst (add_group (f row) row g))"
    and "map_of (add_group (f row) row g) k =
           (if k \<in> f ` set (seen @ [row]) then Some (filter (\<lambda>r. f r = k) (seen @ [row])) else None)"
proof -
  show "distinct (map fst (add_group (f row) row g))"
    using assms(1) by (rule add_group_distinct)
  show "map_of (add_group (f row) row g) k =
           (if k \<in> f ` set (seen @ [row]) then Some (filter (\<lambda>r. f r = k) (seen @ [row])) else None)"
  proof (cases "k = f row")
    case True
    then show ?thesis
      by (simp add: add_group_map_of assms(2)) (force simp: filter_empty_conv image_iff)
  next
    case False
    then show ?thesis
      by (auto simp add: add_group_map_of assms(2))
  qed
qed

lemma group_rows_inv:
  assumes "group_rows cs rows g = Inr g'"
    and "distinct (map fst g)"
    and "\<And>k. map_of g k = (if k \<in> key_of cs ` set seen
                             then Some (filter (\<lambda>r. key_of cs r = k) seen) else None)"
  shows "distinct (map fst g')
    \<and> (\<forall>k. map_of g' k =
          (if k \<in> key_of cs ` set (seen @ filter (\<lambda>r. col_com cs < length r) rows)
           then Some (filter (\<lambda>r. key_of cs r = k) (seen @ filter (\<lambda>r. col_com cs < length r) rows))
           else None))
    \<and> (\<forall>r \<in> set rows. col_com cs < length r \<longrightarrow> group_key cs r = Inr (key_of cs r))"
  using assms
proof (induction rows arbitrary: g seen)
  case Nil
  then show ?case by simp
next
  case (Cons row rows)
  show ?case
  proof (cases "length row \<le> col_com cs")
    case True
    with Cons.prems(1) have "group_rows cs rows g = Inr g'" by simp
    from Cons.IH[OF this Cons.prems(2) Cons.prems(3)] True show ?thesis by simp
  next
    case False
    with Cons.prems(1) obtain k where k: "group_key cs row = Inr k"
      and g: "group_rows cs rows (add_group k row g) = Inr g'"
      by (auto split: sum.splits)
    from group_key_Inr[OF k] have kk: "k = key_of cs row" .
    have d: "distinct (map fst (add_group k row g))"
      using Cons.prems(2) by (rule add_group_distinct)
    have m: "\<And>k'. map_of (add_group k row g) k' =
        (if k' \<in> key_of cs ` set (seen @ [row])
         then Some (filter (\<lambda>r. key_of cs r = k') (seen @ [row])) else None)"
      unfolding kk using add_group_inv(2)[of g "key_of cs" seen row, OF Cons.prems(2) Cons.prems(3)] .
    from Cons.IH[OF g d m] False k kk show ?thesis by simp
  qed
qed

lemma group_rows_succeeds:
  "(\<forall>r \<in> set rows. col_com cs < length r \<longrightarrow> group_key cs r = Inr (key_of cs r)) \<Longrightarrow>
     \<exists>g'. group_rows cs rows g = Inr g'"
  by (induction rows arbitrary: g) auto

lemma sort_groups:
  assumes d: "distinct (map fst g)"
    and m: "\<And>k. map_of g k = (if k \<in> K then Some (h k) else None)"
    and fin: "finite K"
  shows "sort_key fst g = map (\<lambda>k. (k, h k)) (sorted_list_of_set K)"
proof -
  have set_g: "set g = (\<lambda>k. (k, h k)) ` K"
  proof (rule set_eqI)
    fix p :: "'a \<times> 'b"
    obtain k v where p: "p = (k, v)" by (cases p)
    have "(k, v) \<in> set g \<longleftrightarrow> map_of g k = Some v"
      using d by simp
    also have "\<dots> \<longleftrightarrow> k \<in> K \<and> v = h k"
      by (auto simp: m)
    finally show "p \<in> set g \<longleftrightarrow> p \<in> (\<lambda>k. (k, h k)) ` K"
      unfolding p by auto
  qed
  let ?ys = "map (\<lambda>k. (k, h k)) (sorted_list_of_set K)"
  have fst_ys: "map fst ?ys = sorted_list_of_set K"
    by (simp add: comp_def)
  have set_ys: "set ?ys = (\<lambda>k. (k, h k)) ` K"
    using fin by simp
  show ?thesis
  proof (rule map_sorted_distinct_set_unique[where f = fst])
    show "inj_on fst (set (sort_key fst g) \<union> set ?ys)"
      unfolding set_sort set_g set_ys by (auto simp: inj_on_def)
    show "sorted (map fst (sort_key fst g))" by simp
    show "distinct (map fst (sort_key fst g))"
      using d by (simp add: distinct_map)
    show "sorted (map fst ?ys)" unfolding fst_ys by simp
    show "distinct (map fst ?ys)" unfolding fst_ys by simp
    show "set (sort_key fst g) = set ?ys"
      unfolding set_sort set_g set_ys ..
  qed
qed

lemma group_rows_output:
  assumes "group_rows cs rows [] = Inr g"
  shows "concat (map (\<lambda>(group_key, components). sort_key (designator_key cs) components)
                     (sort_key fst g))
         = in_key_order cs (filter (\<lambda>r. col_com cs < length r) rows)"
proof -
  let ?rows = "filter (\<lambda>r. col_com cs < length r) rows"
  from group_rows_inv[OF assms, of "[]"]
  have d: "distinct (map fst g)"
    and m: "\<And>k. map_of g k = (if k \<in> key_of cs ` set ?rows
                then Some (filter (\<lambda>r. key_of cs r = k) ?rows) else None)"
    by simp_all
  have "sort_key fst g =
        map (\<lambda>k. (k, filter (\<lambda>r. key_of cs r = k) ?rows))
            (sorted_list_of_set (key_of cs ` set ?rows))"
    by (rule sort_groups[OF d m]) simp
  then show ?thesis
    by (simp add: in_key_order_def comp_def)
qed

lemma concat_map_single:
  "distinct ks \<Longrightarrow> k \<in> set ks \<Longrightarrow> concat (map (\<lambda>k'. if k' = k then x else []) ks) = x"
  by (induction ks) auto

lemma concat_map_none:
  "k \<notin> set ks \<Longrightarrow> concat (map (\<lambda>k'. if k' = k then x else []) ks) = []"
  by (induction ks) auto

lemma set_in_key_order: "set (in_key_order cs rows) = set rows"
  by (auto simp: in_key_order_def)

lemma filter_in_key_order:
  "filter (\<lambda>r. key_of cs r = k) (in_key_order cs rows)
     = sort_key (designator_key cs) (filter (\<lambda>r. key_of cs r = k) rows)"
proof -
  let ?ks = "sorted_list_of_set (key_of cs ` set rows)"
  have piece: "filter (\<lambda>r. key_of cs r = k)
                 (sort_key (designator_key cs) (filter (\<lambda>r. key_of cs r = k') rows))
        = (if k' = k then sort_key (designator_key cs) (filter (\<lambda>r. key_of cs r = k) rows) else [])"
    for k'
    by (auto simp: filter_empty_conv)
  have "filter (\<lambda>r. key_of cs r = k) (in_key_order cs rows)
        = concat (map (\<lambda>k'. if k' = k
                             then sort_key (designator_key cs) (filter (\<lambda>r. key_of cs r = k) rows)
                             else []) ?ks)"
    by (simp add: in_key_order_def filter_concat comp_def piece)
  also have "\<dots> = sort_key (designator_key cs) (filter (\<lambda>r. key_of cs r = k) rows)"
  proof (cases "k \<in> key_of cs ` set rows")
    case True
    then show ?thesis by (intro concat_map_single) simp_all
  next
    case False
    then have "filter (\<lambda>r. key_of cs r = k) rows = []"
      by (auto simp: filter_empty_conv)
    with False show ?thesis by (simp add: concat_map_none)
  qed
  finally show ?thesis .
qed

lemma in_key_order_idem: "in_key_order cs (in_key_order cs rows) = in_key_order cs rows"
proof -
  have "sort_key (designator_key cs) (sort_key (designator_key cs) xs)
          = sort_key (designator_key cs) xs" for xs :: "string list list"
    by (rule sort_key_id_if_sorted) simp
  then show ?thesis
    unfolding in_key_order_def[of cs "in_key_order cs rows"] set_in_key_order filter_in_key_order
    by (simp add: in_key_order_def)
qed


text \<open>
  \<^bold>\<open>C4\<close>. Grouping is idempotent: when \<open>group_components_by_value\<close> returns a list
  of rows, grouping that list again returns the same list. The list it returns for a
  non-empty input is the header row followed by the rows that have a value column,
  grouped by the key made of value and layer, the groups in the order of their keys
  and the rows of a group in the order of their designators.
\<close>

theorem grouping_idempotent:
  "group_components_by_value cs ppdata = Inr out \<Longrightarrow>
     group_components_by_value cs out = Inr out
     \<and> (ppdata \<noteq> [] \<longrightarrow>
          out = hd ppdata # in_key_order cs (filter (\<lambda>r. col_com cs < length r) (tl ppdata)))"
proof (cases "ppdata = []")
  case True
  assume "group_components_by_value cs ppdata = Inr out"
  with True show ?thesis by (simp add: group_components_by_value_def)
next
  case False
  assume a: "group_components_by_value cs ppdata = Inr out"
  let ?rows = "filter (\<lambda>r. col_com cs < length r) (tl ppdata)"
  from a False obtain g where g: "group_rows cs (tl ppdata) [] = Inr g"
    and out: "out = hd ppdata #
        concat (map (\<lambda>(group_key, components). sort_key (designator_key cs) components)
                    (sort_key fst g))"
    by (auto simp: group_components_by_value_def Let_def split: sum.splits)
  from out group_rows_output[OF g] have out_eq: "out = hd ppdata # in_key_order cs ?rows"
    by simp
  from group_rows_inv[OF g, of "[]"]
  have keys: "\<forall>r \<in> set (tl ppdata). col_com cs < length r \<longrightarrow> group_key cs r = Inr (key_of cs r)"
    by simp
  have all_ok: "\<forall>r \<in> set (in_key_order cs ?rows). col_com cs < length r"
    by (simp add: set_in_key_order)
  have "\<forall>r \<in> set (in_key_order cs ?rows).
          col_com cs < length r \<longrightarrow> group_key cs r = Inr (key_of cs r)"
    using keys by (simp add: set_in_key_order)
  from group_rows_succeeds[OF this] obtain g2
    where g2: "group_rows cs (in_key_order cs ?rows) [] = Inr g2" by blast
  have same: "filter (\<lambda>r. col_com cs < length r) (in_key_order cs ?rows) = in_key_order cs ?rows"
    using all_ok by (intro filter_True)
  from group_rows_output[OF g2]
  have "concat (map (\<lambda>(group_key, components). sort_key (designator_key cs) components)
                    (sort_key fst g2)) = in_key_order cs ?rows"
    by (simp add: same in_key_order_idem)
  with g2 have "group_components_by_value cs out = Inr out"
    by (simp add: group_components_by_value_def out_eq)
  with out_eq False show ?thesis by simp
qed

text \<open>The theorem at the example file: its rows come out reordered, and grouping
  them once more changes nothing.\<close>

theorem grouping_idempotent_witness:
  "group_components_by_value MeatBagCSVSettingsKicadMultiLayer
     (filter (\<lambda>row. \<not> length row < 4) example_rows) =
     Inr [[''Ref'', ''Val'', ''Package'', ''PosX'', ''PosY'', ''Rot'', ''Side''],
          [''C1'', ''100nF'', ''C_0805'', ''5.0'', ''6.0'', ''90.0'', ''Top''],
          [''C2'', ''100nF'', ''C_0805'', ''7.0'', ''8.0'', ''90.0'', ''top''],
          [''R2'', ''10k'', ''R_0805'', ''3.0'', ''4.0'', ''0.0'', ''bottom''],
          [''R1'', ''10k'', ''R_0805'', ''1.0'', ''2.0'', ''0.0'', ''top'']]
   \<and> group_components_by_value MeatBagCSVSettingsKicadMultiLayer
       [[''Ref'', ''Val'', ''Package'', ''PosX'', ''PosY'', ''Rot'', ''Side''],
        [''C1'', ''100nF'', ''C_0805'', ''5.0'', ''6.0'', ''90.0'', ''Top''],
        [''C2'', ''100nF'', ''C_0805'', ''7.0'', ''8.0'', ''90.0'', ''top''],
        [''R2'', ''10k'', ''R_0805'', ''3.0'', ''4.0'', ''0.0'', ''bottom''],
        [''R1'', ''10k'', ''R_0805'', ''1.0'', ''2.0'', ''0.0'', ''top'']] =
     Inr [[''Ref'', ''Val'', ''Package'', ''PosX'', ''PosY'', ''Rot'', ''Side''],
          [''C1'', ''100nF'', ''C_0805'', ''5.0'', ''6.0'', ''90.0'', ''Top''],
          [''C2'', ''100nF'', ''C_0805'', ''7.0'', ''8.0'', ''90.0'', ''top''],
          [''R2'', ''10k'', ''R_0805'', ''3.0'', ''4.0'', ''0.0'', ''bottom''],
          [''R1'', ''10k'', ''R_0805'', ''1.0'', ''2.0'', ''0.0'', ''top'']]"
proof -
  have l: "all_components_data example_loaded =
      [[''Ref'', ''Val'', ''Package'', ''PosX'', ''PosY'', ''Rot'', ''Side''],
       [''C1'', ''100nF'', ''C_0805'', ''5.0'', ''6.0'', ''90.0'', ''Top''],
       [''C2'', ''100nF'', ''C_0805'', ''7.0'', ''8.0'', ''90.0'', ''top''],
       [''R2'', ''10k'', ''R_0805'', ''3.0'', ''4.0'', ''0.0'', ''bottom''],
       [''R1'', ''10k'', ''R_0805'', ''1.0'', ''2.0'', ''0.0'', ''top'']]"
    by (simp add: example_loaded_def)
  from grouping_idempotent[OF example_group] example_group show ?thesis
    unfolding l by simp
qed

subsection \<open>Scans and keystrokes\<close>

lemma draw_marker_frame:
  "topDesList (snd (draw_marker w x y m)) = topDesList w"
  "botDesList (snd (draw_marker w x y m)) = botDesList w"
  "matcher_calls (snd (draw_marker w x y m)) = matcher_calls w"
  "marker_diameter (snd (draw_marker w x y m)) = marker_diameter w"
  by (simp_all add: draw_marker_def split: sum.splits)

lemma draw_markers_frame:
  "topDesList (snd (draw_markers w ps)) = topDesList w
   \<and> botDesList (snd (draw_markers w ps)) = botDesList w
   \<and> matcher_calls (snd (draw_markers w ps)) = matcher_calls w
   \<and> marker_diameter (snd (draw_markers w ps)) = marker_diameter w"
proof (induction ps arbitrary: w)
  case Nil
  then show ?case by simp
next
  case (Cons p ps)
  obtain x y where p: "p = (x, y)" by (cases p)
  obtain e w1 where d: "draw_marker w x y False = (e, w1)" by (cases "draw_marker w x y False")
  from draw_marker_frame[of w x y False] d
  have f: "topDesList w1 = topDesList w" "botDesList w1 = botDesList w"
    "matcher_calls w1 = matcher_calls w" "marker_diameter w1 = marker_diameter w"
    by simp_all
  show ?case
  proof (cases e)
    case None
    with Cons.IH[of w1] d f p show ?thesis by simp
  next
    case (Some a)
    with d f p show ?thesis by simp
  qed
qed

lemma toggle_frame:
  "topDesList (snd (toggle_draw_all_of_current_value env w)) = topDesList w
   \<and> botDesList (snd (toggle_draw_all_of_current_value env w)) = botDesList w
   \<and> matcher_calls (snd (toggle_draw_all_of_current_value env w)) = matcher_calls w
   \<and> marker_diameter (snd (toggle_draw_all_of_current_value env w)) = marker_diameter w"
proof -
  have up: "topDesList w1 = topDesList w0 \<and> botDesList w1 = botDesList w0
      \<and> matcher_calls w1 = matcher_calls w0 \<and> marker_diameter w1 = marker_diameter w0"
    if "update_placement env w0 = (e, w1)" for w0 e w1
    using update_placement_frame[of env w0] that by simp
  have dm: "topDesList w2 = topDesList w1 \<and> botDesList w2 = botDesList w1
      \<and> matcher_calls w2 = matcher_calls w1 \<and> marker_diameter w2 = marker_diameter w1"
    if "draw_markers w1 ps = (e, w2)" for w1 ps e w2
    using draw_markers_frame[of w1 ps] that by simp
  show ?thesis
    unfolding toggle_draw_all_of_current_value_def
    by (auto split: option.splits sum.splits prod.splits dest!: up dm)
qed

lemma trigger_frame:
  "topDesList (snd (trigger env cb w)) = topDesList w
   \<and> botDesList (snd (trigger env cb w)) = botDesList w
   \<and> matcher_calls (snd (trigger env cb w)) = matcher_calls w"
  using toggle_frame[of env w]
  by (cases cb) (simp_all add: trigger_def marker_diameter_increment_def marker_diameter_decrement_def)

lemma key_loop_frame:
  "topDesList (snd (key_loop env scan ks refresh w)) = topDesList w
   \<and> botDesList (snd (key_loop env scan ks refresh w)) = botDesList w
   \<and> matcher_calls (snd (key_loop env scan ks refresh w)) = matcher_calls w"
proof (induction ks arbitrary: refresh w)
  case Nil
  then show ?case by simp
next
  case (Cons k ks)
  obtain key cb where k: "k = (key, cb)" by (cases k)
  obtain r w1 where t: "trigger env cb w = (r, w1)" by (cases "trigger env cb w")
  from trigger_frame[of env cb w] t
  have f: "topDesList w1 = topDesList w" "botDesList w1 = botDesList w"
    "matcher_calls w1 = matcher_calls w" by simp_all
  show ?case
  proof (cases "matches key scan")
    case True
    show ?thesis
    proof (cases r)
      case (Inl e)
      with True k t f show ?thesis by simp
    next
      case (Inr b)
      with True k t f Cons.IH[of "if b then True else refresh" w1] show ?thesis by simp
    qed
  next
    case False
    with k Cons.IH[of refresh w] show ?thesis by simp
  qed
qed

lemma process_keystroke_frame:
  "topDesList (snd (process_keystroke env w scan)) = topDesList w
   \<and> botDesList (snd (process_keystroke env w scan)) = botDesList w
   \<and> matcher_calls (snd (process_keystroke env w scan)) = matcher_calls w"
proof -
  obtain r w1 where t: "key_loop env scan action_map False w = (r, w1)"
    by (cases "key_loop env scan action_map False w")
  from key_loop_frame[of env scan action_map False w] t
  have f: "topDesList w1 = topDesList w" "botDesList w1 = botDesList w"
    "matcher_calls w1 = matcher_calls w" by simp_all
  show ?thesis
    by (cases r) (simp_all add: process_keystroke_def t f update_placement_frame)
qed

lemma plus_keystroke:
  "process_keystroke env w ''+'' = update_placement env (w\<lparr>marker_diameter := marker_diameter w + 10\<rparr>)"
  by (simp add: process_keystroke_def action_map_def matches_def lower_def lower_char_def
      trigger_def marker_diameter_increment_def)

lemma process_match_calls:
  "matcher_calls (snd (process_match n pool env w tok upd)) = matcher_calls w @ [tok]"
  by (simp add: process_match_def Let_def find_next_placement_frame split: option.splits prod.splits)

lemma digikey_calls:
  "prefix (matcher_calls w) (matcher_calls (snd (digikey_lookup env w scan)))"
  by (auto simp: digikey_lookup_def process_new_pn_def process_match_calls Let_def
      split: sum.splits option.splits)

lemma scan_calls:
  assumes "5 \<le> length scan"
  shows "prefix (matcher_calls w @ [scan]) (matcher_calls (snd (process_new_scan env w scan)))"
proof -
  let ?w = "w\<lparr>topDes := [], botDes := []\<rparr>"
  obtain e w1 where p: "process_new_pn env ?w scan False = (e, w1)"
    by (cases "process_new_pn env ?w scan False")
  from process_match_calls[of 4 "pdb ?w" env ?w scan False] p
  have c: "matcher_calls w1 = matcher_calls w @ [scan]"
    by (simp add: process_new_pn_def)
  show ?thesis
  proof (cases e)
    case (Some a)
    with assms p c show ?thesis by (simp add: process_new_scan_def)
  next
    case None
    from digikey_calls[of w1 env scan] c
    have "prefix (matcher_calls w @ [scan]) (matcher_calls (snd (digikey_lookup env w1 scan)))"
      by simp
    with None assms p c show ?thesis
      by (auto simp: process_new_scan_def find_next_placement_frame split: option.splits)
  qed
qed

lemma other_keystroke:
  "lower scan \<noteq> ''+'' \<Longrightarrow> lower scan \<noteq> ''-'' \<Longrightarrow> lower scan \<noteq> ''a'' \<Longrightarrow>
     process_keystroke env w scan = (None, w)"
  by (simp add: process_keystroke_def action_map_def matches_def lower_def lower_char_def)

lemma example_scan:
  "process_new_scan example_env example_loaded ''100nF'' = (None, example_scanned)"
  by (simp add: process_new_scan_def eval_defs example_scanned_def example_loaded_def example_defs)

lemma example_plus:
  "update_placement example_env (example_scanned\<lparr>marker_diameter := marker_diameter example_scanned + 10\<rparr>)
     = (None, example_scanned\<lparr>marker_diameter := 30\<rparr>)"
  by (simp add: eval_defs example_scanned_def example_loaded_def example_defs)


text \<open>
  \<^bold>\<open>C5\<close>. A scan of fewer than 5 characters is handed to \<open>process_keystroke\<close> and to
  nothing else: the matcher is not called, and the two match lists stay as they are;
  a text other than \<open>+\<close>, \<open>-\<close> and \<open>a\<close> (in either case) changes nothing at all. The
  scan \<open>+\<close> adds 10 to the marker diameter and redraws the placement with
  \<open>update_placement\<close>. A scan of 5 characters or more is looked up: the first call of
  the matcher that \<open>process_new_scan\<close> makes has the scan as its argument.
\<close>

theorem scan_dispatch:
  "(length scan < 5 \<longrightarrow>
      process_new_scan env w scan = process_keystroke env w scan
      \<and> matcher_calls (snd (process_new_scan env w scan)) = matcher_calls w
      \<and> topDesList (snd (process_new_scan env w scan)) = topDesList w
      \<and> botDesList (snd (process_new_scan env w scan)) = botDesList w
      \<and> (lower scan \<noteq> ''+'' \<longrightarrow> lower scan \<noteq> ''-'' \<longrightarrow> lower scan \<noteq> ''a'' \<longrightarrow>
            process_new_scan env w scan = (None, w)))
   \<and> process_new_scan env w ''+''
       = update_placement env (w\<lparr>marker_diameter := marker_diameter w + 10\<rparr>)
   \<and> marker_diameter (snd (process_new_scan env w ''+'')) = marker_diameter w + 10
   \<and> matcher_calls (snd (process_new_scan env w ''+'')) = matcher_calls w
   \<and> (5 \<le> length scan \<longrightarrow>
        prefix (matcher_calls w @ [scan]) (matcher_calls (snd (process_new_scan env w scan))))"
proof -
  have short: "process_new_scan env w s = process_keystroke env w s" if "length s < 5" for s
    using that by (simp add: process_new_scan_def)
  have plus: "process_new_scan env w ''+''
       = update_placement env (w\<lparr>marker_diameter := marker_diameter w + 10\<rparr>)"
    by (simp add: short plus_keystroke)
  have md: "marker_diameter (snd (process_new_scan env w ''+'')) = marker_diameter w + 10"
    unfolding plus by (simp add: update_placement_frame)
  have mc: "matcher_calls (snd (process_new_scan env w ''+'')) = matcher_calls w"
    unfolding plus by (simp add: update_placement_frame)
  from short[of scan] process_keystroke_frame[of env w scan] other_keystroke[of scan env w]
    plus md mc scan_calls[of scan w env]
  show ?thesis by simp
qed


text \<open>The theorem at the example board: \<open>100nF\<close> is looked up, after which \<open>+\<close>
  only enlarges the marker and \<open>x\<close> does nothing.\<close>

theorem scan_dispatch_witness:
  "length ''+'' < 5 \<and> length ''x'' < 5 \<and> 5 \<le> length ''100nF''
   \<and> process_new_scan example_env example_scanned ''+''
       = (None, example_scanned\<lparr>marker_diameter := 30\<rparr>)
   \<and> process_new_scan example_env example_scanned ''x'' = (None, example_scanned)
   \<and> process_new_scan example_env example_loaded ''100nF'' = (None, example_scanned)
   \<and> matcher_calls example_loaded = []
   \<and> matcher_calls example_scanned = [''100nF'']"
proof -
  have plus: "process_new_scan example_env example_scanned ''+''
       = (None, example_scanned\<lparr>marker_diameter := 30\<rparr>)"
    using scan_dispatch[of "''+''" example_env example_scanned, THEN conjunct2, THEN conjunct1]
      example_plus by simp
  have other: "process_new_scan example_env example_scanned ''x'' = (None, example_scanned)"
    using scan_dispatch[of "''x''" example_env example_scanned, THEN conjunct1]
    by (auto simp: lower_def lower_char_def)
  have calls: "matcher_calls example_loaded = []" "matcher_calls example_scanned = [''100nF'']"
    by (simp_all add: example_scanned_def example_loaded_def example_defs)
  have "prefix (matcher_calls example_loaded @ [''100nF''])
          (matcher_calls (snd (process_new_scan example_env example_loaded ''100nF'')))"
    using scan_dispatch[of "''100nF''" example_env example_loaded] by simp
  with plus other calls example_scan show ?thesis by simp
qed

subsection \<open>From board coordinates to pixels\<close>

lemma int_round_cases:
  "int_round p = Inl OverflowError \<longleftrightarrow> (\<exists>s. p = Infinity s)"
  "int_round p = Inl ValueError \<longleftrightarrow> p = NaN"
  "int_round p = Inl ZeroDivisionError \<longleftrightarrow> False"
  "int_round p = Inr n \<longleftrightarrow> (\<exists>a. p = Finite a \<and> n = py_round a)"
  by (cases p; auto)+

lemma draw_marker_xy_nonzero:
  assumes "pcbwidth w \<noteq> 0" "pcbheight w \<noteq> 0"
  shows "draw_marker_xy w x y mirror =
     (case int_round (if mirror
                      then fsub (Finite (real_of_int (img_width w)))
                             (fmul x (round_to_double (real_of_int (img_width w) / pcbwidth w)))
                      else fmul x (round_to_double (real_of_int (img_width w) / pcbwidth w))) of
        Inl e \<Rightarrow> Inl e
      | Inr x_int \<Rightarrow>
          (case int_round (fsub (Finite (real_of_int (img_height w)))
                   (fmul y (round_to_double (real_of_int (img_height w) / pcbheight w)))) of
             Inl e \<Rightarrow> Inl e
           | Inr y_int \<Rightarrow> Inr (x_int, y_int)))"
  using assms by (simp add: draw_marker_xy_def fdiv_def Let_def)

lemma example_dims:
  "pcbwidth example_window = 100" "pcbheight example_window = 50"
  "img_width example_window = 800" "img_height example_window = 600"
  "markers example_window = []"
  by (simp_all add: example_window_def init_window_def)

text \<open>The double nearest to \<open>0.15\<close>, which is a little below it, and ten times that
  double, \<open>27021597764222975 / 2 ^ 54\<close>, whose nearest double is \<open>1.5\<close>.\<close>

lemma double_15_100: "round_to_double (15 / 100) = Finite (5404319552844595 / 2 ^ 55)"
proof -
  have "round_to_double (15 / 100) =
     (let ulp = 2 powi (max (- 3) (- 1022) - 52);
          v = real_of_int (py_round (15 / 100 / ulp)) * ulp
      in if 2 ^ 1024 \<le> \<bar>v\<bar> then Infinity (0 < (15 / 100 :: real)) else Finite v)"
    by (rule round_to_double_eval) (simp_all add: power_int_minus_divide)
  also have "\<dots> = Finite (5404319552844595 / 2 ^ 55)"
    by (simp add: py_round_def Let_def power_int_minus_divide)
  finally show ?thesis .
qed

lemma double_15_100_times_10:
  "round_to_double (27021597764222975 / 18014398509481984) = Finite (3 / 2)"
proof -
  have "round_to_double (27021597764222975 / 18014398509481984) =
     (let ulp = 2 powi (max 0 (- 1022) - 52);
          v = real_of_int (py_round (27021597764222975 / 18014398509481984 / ulp)) * ulp
      in if 2 ^ 1024 \<le> \<bar>v\<bar>
         then Infinity (0 < (27021597764222975 / 18014398509481984 :: real))
         else Finite v)"
    by (rule round_to_double_eval) simp_all
  also have "\<dots> = Finite (3 / 2)"
    by (simp add: py_round_def Let_def power_int_minus_divide)
  finally show ?thesis .
qed

text \<open>On a board 3 units wide and an image 800 pixels wide the scale factor is the
  double nearest to \<open>800 / 3\<close>, a little above it; its product with \<open>15 / 64\<close>, in
  exact arithmetic \<open>62.5\<close>, comes out above \<open>62.5\<close> as well, and the marker is placed
  at 63, where \<open>62.5\<close> itself would have been rounded to the even 62.\<close>

lemma double_800_3: "round_to_double (800 / 3) = Finite (4691249611844267 / 17592186044416)"
proof -
  have "round_to_double (800 / 3) =
     (let ulp = 2 powi (max 8 (- 1022) - 52);
          v = real_of_int (py_round (800 / 3 / ulp)) * ulp
      in if 2 ^ 1024 \<le> \<bar>v\<bar> then Infinity (0 < (800 / 3 :: real)) else Finite v)"
    by (rule round_to_double_eval) simp_all
  also have "\<dots> = Finite (4691249611844267 / 17592186044416)"
    by (simp add: py_round_def Let_def power_int_minus_divide)
  finally show ?thesis .
qed

lemma double_15_64_times:
  "round_to_double (70368744177664005 / 1125899906842624) = Finite (8796093022208001 / 140737488355328)"
proof -
  have "round_to_double (70368744177664005 / 1125899906842624) =
     (let ulp = 2 powi (max 5 (- 1022) - 52);
          v = real_of_int (py_round (70368744177664005 / 1125899906842624 / ulp)) * ulp
      in if 2 ^ 1024 \<le> \<bar>v\<bar>
         then Infinity (0 < (70368744177664005 / 1125899906842624 :: real))
         else Finite v)"
    by (rule round_to_double_eval) simp_all
  also have "\<dots> = Finite (8796093022208001 / 140737488355328)"
    by (simp add: py_round_def Let_def power_int_minus_divide)
  finally show ?thesis .
qed

lemma example_third:
  "draw_marker_xy (example_window\<lparr>pcbwidth := 3\<rparr>) (Finite (15 / 64)) (Finite 6) False
     = Inr (63, 528)"
  "py_round (15 / 64 * (800 / 3)) = 62"
  by (simp_all add: draw_marker_xy_def example_dims float_evals double_800_3 double_15_64_times
      py_round_def)

text \<open>A coordinate that \<open>float()\<close> reads as an infinity is handed on to
  \<open>xy_to_draw\<close>: the image is reloaded, and \<open>draw_marker\<close> fails at the rounding.\<close>

lemma example_inf:
  "update_placement example_env
     (example_loaded\<lparr>tbl := (tbl example_loaded)
         [1 := ([''C1'', ''100nF'', ''C_0805'', ''inf'', ''6.0'', ''90.0'', ''Top''], False)],
        cur_placement := Some 1, markers := [(1, 1)]\<rparr>)
   = (Some OverflowError,
      example_loaded\<lparr>tbl := (tbl example_loaded)
         [1 := ([''C1'', ''100nF'', ''C_0805'', ''inf'', ''6.0'', ''90.0'', ''Top''], False)],
        cur_placement := Some 1, markers := [], place := ''C1''\<rparr>)"
  by (simp add: eval_defs example_loaded_def example_defs)

text \<open>
  \<^bold>\<open>C6\<close> (as amended). With both board dimensions non-zero, \<open>draw_marker\<close> computes in
  double arithmetic \<open>px = x * (image_width / board_width)\<close>, replaced by
  \<open>image_width - px\<close> when mirrored, and \<open>py = image_height - y * (image_height /
  board_height)\<close>; every operation gives the double nearest to its exact result. When
  \<open>px\<close> and \<open>py\<close> are finite, the marker is placed at the integers nearest to these
  two doubles (at most one half away, the even one on a tie). \<open>px\<close> is rounded first:
  the method raises \<open>OverflowError\<close> exactly when \<open>px\<close> is an infinity, or \<open>px\<close> is
  finite and \<open>py\<close> an infinity, and \<open>ValueError\<close> exactly when \<open>px\<close> is not-a-number,
  or \<open>px\<close> is finite and \<open>py\<close> not-a-number. When the two scale factors are finite
  doubles (as they are for the board dimensions a spin box can hold) and the image
  size is below \<open>2 ^ 53\<close>, the board origin goes to \<open>(0, image_height)\<close>, and to
  \<open>(image_width, image_height)\<close> when mirrored.
\<close>

theorem pixel_mapping:
  "pcbwidth w \<noteq> 0 \<Longrightarrow> pcbheight w \<noteq> 0 \<Longrightarrow>
   px = fmul x (round_to_double (real_of_int (img_width w) / pcbwidth w)) \<Longrightarrow>
   py = fsub (Finite (real_of_int (img_height w)))
          (fmul y (round_to_double (real_of_int (img_height w) / pcbheight w))) \<Longrightarrow>
   px' = (if mirror then fsub (Finite (real_of_int (img_width w))) px else px) \<Longrightarrow>
     (px' = Finite a \<and> py = Finite b \<longrightarrow>
        draw_marker_xy w x y mirror = Inr (py_round a, py_round b))
     \<and> (draw_marker_xy w x y mirror = Inl OverflowError \<longleftrightarrow>
          (\<exists>s. px' = Infinity s) \<or> ((\<exists>c. px' = Finite c) \<and> (\<exists>s. py = Infinity s)))
     \<and> (draw_marker_xy w x y mirror = Inl ValueError \<longleftrightarrow>
          px' = NaN \<or> ((\<exists>c. px' = Finite c) \<and> py = NaN))
     \<and> \<bar>real_of_int (py_round r) - r\<bar> \<le> 1 / 2
     \<and> (x = Finite 0 \<and> y = Finite 0
          \<and> \<bar>real_of_int (img_width w) / pcbwidth w\<bar> < 2 ^ 1023
          \<and> \<bar>real_of_int (img_height w) / pcbheight w\<bar> < 2 ^ 1023
          \<and> \<bar>img_width w\<bar> < 2 ^ 53 \<and> \<bar>img_height w\<bar> < 2 ^ 53 \<longrightarrow>
          draw_marker_xy w x y mirror = Inr (if mirror then img_width w else 0, img_height w))"
proof -
  assume nz: "pcbwidth w \<noteq> 0" "pcbheight w \<noteq> 0"
    and px: "px = fmul x (round_to_double (real_of_int (img_width w) / pcbwidth w))"
    and py: "py = fsub (Finite (real_of_int (img_height w)))
          (fmul y (round_to_double (real_of_int (img_height w) / pcbheight w)))"
    and px': "px' = (if mirror then fsub (Finite (real_of_int (img_width w))) px else px)"
  have eq: "draw_marker_xy w x y mirror =
     (case int_round px' of
        Inl e \<Rightarrow> Inl e
      | Inr x_int \<Rightarrow> (case int_round py of Inl e \<Rightarrow> Inl e | Inr y_int \<Rightarrow> Inr (x_int, y_int)))"
    unfolding draw_marker_xy_nonzero[OF nz] px px' py by simp
  have fin: "px' = Finite a \<and> py = Finite b \<longrightarrow>
        draw_marker_xy w x y mirror = Inr (py_round a, py_round b)"
    by (simp add: eq)
  have ovf: "draw_marker_xy w x y mirror = Inl OverflowError \<longleftrightarrow>
          (\<exists>s. px' = Infinity s) \<or> ((\<exists>c. px' = Finite c) \<and> (\<exists>s. py = Infinity s))"
    unfolding eq by (cases px'; cases py) simp_all
  have nan: "draw_marker_xy w x y mirror = Inl ValueError \<longleftrightarrow>
          px' = NaN \<or> ((\<exists>c. px' = Finite c) \<and> py = NaN)"
    unfolding eq by (cases px'; cases py) simp_all
  have near: "\<bar>real_of_int (py_round r) - r\<bar> \<le> 1 / 2"
    by (rule py_round_nearest)
  have origin: "draw_marker_xy w x y mirror = Inr (if mirror then img_width w else 0, img_height w)"
    if h: "x = Finite 0" "y = Finite 0"
      "\<bar>real_of_int (img_width w) / pcbwidth w\<bar> < 2 ^ 1023"
      "\<bar>real_of_int (img_height w) / pcbheight w\<bar> < 2 ^ 1023"
      "\<bar>img_width w\<bar> < 2 ^ 53" "\<bar>img_height w\<bar> < 2 ^ 53"
  proof -
    from round_to_double_finite[OF h(3)] obtain sx where
      sx: "round_to_double (real_of_int (img_width w) / pcbwidth w) = Finite sx" by blast
    from round_to_double_finite[OF h(4)] obtain sy where
      sy: "round_to_double (real_of_int (img_height w) / pcbheight w) = Finite sy" by blast
    have 1: "px = Finite 0"
      by (simp add: px sx h(1) round_to_double_small)
    have 2: "py = Finite (real_of_int (img_height w))"
      by (simp add: py sy h(2) round_to_double_small round_to_double_of_int[OF h(6)])
    have 3: "px' = Finite (real_of_int (if mirror then img_width w else 0))"
      by (simp add: px' 1 round_to_double_of_int[OF h(5)])
    show ?thesis
      unfolding eq 1 2 3 by (simp add: py_round_of_int)
  qed
  from fin ovf nan near origin show ?thesis
    by (intro conjI impI) (assumption | simp)+
qed

text \<open>The theorem for an image of 800 by 600 pixels and a board of 100 by 50
  units.\<close>

theorem pixel_mapping_witness:
  "pcbwidth example_window \<noteq> 0 \<and> pcbheight example_window \<noteq> 0
   \<and> draw_marker_xy example_window (Finite 5) (Finite 6) False = Inr (40, 528)
   \<and> draw_marker_xy example_window (Finite 5) (Finite 6) True = Inr (760, 528)
   \<and> draw_marker_xy example_window (Finite 0) (Finite 0) False = Inr (0, 600)
   \<and> draw_marker_xy example_window (Finite 0) (Finite 0) True = Inr (800, 600)"
proof -
  have nz: "pcbwidth example_window \<noteq> 0" "pcbheight example_window \<noteq> 0"
    by (simp_all add: example_dims)
  have r: "py_round 40 = 40" "py_round 528 = 528" "py_round 760 = 760"
    by (simp_all add: py_round_def)
  have small: "\<bar>(8::real)\<bar> < 2 ^ 1023" "\<bar>(12::real)\<bar> < 2 ^ 1023"
    by simp_all
  have 1: "draw_marker_xy example_window (Finite 5) (Finite 6) False = Inr (40, 528)"
    using pixel_mapping[where w = example_window and x = "Finite 5" and y = "Finite 6"
        and mirror = False and a = 40 and b = 528, OF nz refl refl refl, THEN conjunct1]
    by (simp add: example_dims float_evals r)
  have 2: "draw_marker_xy example_window (Finite 5) (Finite 6) True = Inr (760, 528)"
    using pixel_mapping[where w = example_window and x = "Finite 5" and y = "Finite 6"
        and mirror = True and a = 760 and b = 528, OF nz refl refl refl, THEN conjunct1]
    by (simp add: example_dims float_evals r)
  have 3: "draw_marker_xy example_window (Finite 0) (Finite 0) False = Inr (0, 600)"
    using pixel_mapping[where w = example_window and x = "Finite 0" and y = "Finite 0"
        and mirror = False, OF nz refl refl refl] small
    by (simp add: example_dims)
  have 4: "draw_marker_xy example_window (Finite 0) (Finite 0) True = Inr (800, 600)"
    using pixel_mapping[where w = example_window and x = "Finite 0" and y = "Finite 0"
        and mirror = True, OF nz refl refl refl] small
    by (simp add: example_dims)
  from nz 1 2 3 4 show ?thesis by (intro conjI)
qed

text \<open>The claim as the spec words it has every point with non-zero board dimensions
  mapped to the integers nearest to \<open>x * (image_width / board_width)\<close> and to \<open>py\<close>. On a
  board 80 units wide and an image 800 pixels wide, the coordinate \<open>0.15\<close> is read as the
  double below it, whose tenfold is below \<open>1.5\<close> and nearest to 1; the product
  computed in doubles is \<open>1.5\<close>, and the marker is placed at 2, more than one half away.
  A coordinate read as an infinity (\<open>inf\<close>, \<open>1e400\<close>) is mapped to no pixel at all.\<close>

theorem pixel_mapping_counterexample:
  "pcbwidth (example_window\<lparr>pcbwidth := 80\<rparr>) \<noteq> 0
   \<and> pcbheight (example_window\<lparr>pcbwidth := 80\<rparr>) \<noteq> 0
   \<and> round_to_double (15 / 100) = Finite (5404319552844595 / 2 ^ 55)
   \<and> draw_marker_xy (example_window\<lparr>pcbwidth := 80\<rparr>)
         (Finite (5404319552844595 / 2 ^ 55)) (Finite 6) False = Inr (2, 528)
   \<and> py_round (5404319552844595 / 2 ^ 55 * (800 / 80)) = 1
   \<and> 1 / 2 < \<bar>real_of_int 2 - 5404319552844595 / 2 ^ 55 * (800 / 80)\<bar>
   \<and> draw_marker_xy example_window (Infinity True) (Finite 6) False = Inl OverflowError"
proof -
  have 1: "draw_marker_xy (example_window\<lparr>pcbwidth := 80\<rparr>)
         (Finite (5404319552844595 / 2 ^ 55)) (Finite 6) False = Inr (2, 528)"
    by (simp add: draw_marker_xy_def example_dims float_evals double_15_100_times_10 py_round_def)
  have 2: "py_round (5404319552844595 / 2 ^ 55 * (800 / 80)) = 1"
    by (simp add: py_round_def Let_def)
  have 3: "1 / 2 < \<bar>real_of_int 2 - 5404319552844595 / 2 ^ 55 * (800 / 80)\<bar>"
    by simp
  have 4: "draw_marker_xy example_window (Infinity True) (Finite 6) False = Inl OverflowError"
    by (simp add: draw_marker_xy_def example_dims float_evals)
  have 5: "pcbwidth (example_window\<lparr>pcbwidth := 80\<rparr>) \<noteq> 0"
    "pcbheight (example_window\<lparr>pcbwidth := 80\<rparr>) \<noteq> 0"
    by (simp_all add: example_dims)
  from 5 double_15_100 1 2 3 4 show ?thesis by (intro conjI)
qed

text \<open>
  \<^bold>\<open>C7\<close>. For every board point, the mapping of \<open>draw_marker\<close> raises
  \<open>ZeroDivisionError\<close> exactly when the board width or the board height is zero. The
  exception leaves \<open>draw_marker\<close> before any pixel coordinate is computed: no marker is
  recorded, and \<open>xy_to_draw\<close> ends with the same exception and the bare image. With
  both dimensions non-zero the mapping gives a pixel or raises one of the two
  exceptions of rounding, \<open>OverflowError\<close> and \<open>ValueError\<close>.
\<close>

theorem zero_board_dimension:
  "(draw_marker_xy w x y mirror = Inl ZeroDivisionError \<longleftrightarrow> pcbwidth w = 0 \<or> pcbheight w = 0)
   \<and> (pcbwidth w = 0 \<or> pcbheight w = 0 \<longrightarrow>
         draw_marker w x y mirror = (Some ZeroDivisionError, w)
         \<and> fst (xy_to_draw w x y mirror) = Some ZeroDivisionError
         \<and> markers (snd (xy_to_draw w x y mirror)) = [])
   \<and> (pcbwidth w \<noteq> 0 \<and> pcbheight w \<noteq> 0 \<longrightarrow>
         (\<exists>p. draw_marker_xy w x y mirror = Inr p)
         \<or> draw_marker_xy w x y mirror = Inl OverflowError
         \<or> draw_marker_xy w x y mirror = Inl ValueError)"
proof -
  have a: "draw_marker_xy w x y mirror = Inl ZeroDivisionError \<longleftrightarrow> pcbwidth w = 0 \<or> pcbheight w = 0"
  proof (cases "pcbwidth w = 0 \<or> pcbheight w = 0")
    case True
    then show ?thesis by (auto simp: draw_marker_xy_def fdiv_def Let_def)
  next
    case False
    then have nz: "pcbwidth w \<noteq> 0" "pcbheight w \<noteq> 0" by simp_all
    show ?thesis
      unfolding draw_marker_xy_nonzero[OF nz] using nz
      by (auto simp: int_round_cases split: sum.splits)
  qed
  have b: "draw_marker w x y mirror = (Some ZeroDivisionError, w)
         \<and> fst (xy_to_draw w x y mirror) = Some ZeroDivisionError
         \<and> markers (snd (xy_to_draw w x y mirror)) = []"
    if "pcbwidth w = 0 \<or> pcbheight w = 0"
  proof -
    have "draw_marker_xy w1 x y mirror = Inl ZeroDivisionError"
      if "pcbwidth w1 = 0 \<or> pcbheight w1 = 0" for w1
      using that by (auto simp: draw_marker_xy_def fdiv_def Let_def)
    with that show ?thesis
      by (auto simp: draw_marker_def xy_to_draw_def reload_base_def)
  qed
  have c: "(\<exists>p. draw_marker_xy w x y mirror = Inr p)
         \<or> draw_marker_xy w x y mirror = Inl OverflowError
         \<or> draw_marker_xy w x y mirror = Inl ValueError"
    if "pcbwidth w \<noteq> 0 \<and> pcbheight w \<noteq> 0"
  proof -
    from that have nz: "pcbwidth w \<noteq> 0" "pcbheight w \<noteq> 0" by simp_all
    have e: "e = OverflowError \<or> e = ValueError" if "int_round p = Inl e" for p e
      using that by (cases p) auto
    show ?thesis
      unfolding draw_marker_xy_nonzero[OF nz]
      by (auto split: sum.splits dest: e)
  qed
  from a b c show ?thesis by (intro conjI impI) (assumption | simp)+
qed

text \<open>The theorem before the board dimensions are entered, and after.\<close>

theorem zero_board_dimension_witness:
  "pcbwidth (init_window 800 600) = 0
   \<and> draw_marker (init_window 800 600) (Finite 5) (Finite 6) False
        = (Some ZeroDivisionError, init_window 800 600)
   \<and> fst (xy_to_draw (init_window 800 600) (Finite 5) (Finite 6) False) = Some ZeroDivisionError
   \<and> pcbwidth example_window \<noteq> 0 \<and> pcbheight example_window \<noteq> 0
   \<and> draw_marker_xy example_window (Finite 5) (Finite 6) False = Inr (40, 528)
   \<and> draw_marker_xy example_window (Finite 5) (Finite 6) False \<noteq> Inl ZeroDivisionError"
proof -
  have z: "pcbwidth (init_window 800 600) = 0"
    by (simp add: init_window_def)
  have r: "draw_marker_xy example_window (Finite 5) (Finite 6) False = Inr (40, 528)"
    by (simp add: draw_marker_xy_def example_dims float_evals py_round_def)
  from zero_board_dimension[of "init_window 800 600" "Finite 5" "Finite 6" False]
    zero_board_dimension[of example_window "Finite 5" "Finite 6" False]
  show ?thesis
    by (simp add: z r example_dims)
qed

subsection \<open>Moving on to the next part\<close>

lemma first_unplaced_tbl:
  "tbl w1 = tbl w2 \<Longrightarrow> first_unplaced w1 ps = first_unplaced w2 ps"
  by (induction ps) (simp_all add: check_state_def)

lemma find_next_cursor:
  "cur_placement (snd (find_next_placement env w)) =
     (case active_parts w of
        None \<Rightarrow> None
      | Some parts \<Rightarrow> (case first_unplaced w parts of Inl e \<Rightarrow> None | Inr c \<Rightarrow> c))"
proof -
  have a: "active_parts (w\<lparr>cur_placement := None\<rparr>) = active_parts w"
    by (simp add: active_parts_def)
  have f: "first_unplaced (w\<lparr>cur_placement := None\<rparr>) ps = first_unplaced w ps" for ps
    by (rule first_unplaced_tbl) simp
  show ?thesis
    by (simp add: find_next_placement_def Let_def a f update_placement_frame
        split: option.splits sum.splits)
qed

lemma first_unplaced_skip:
  "\<forall>p \<in> set pre. check_state w p = Some True \<Longrightarrow>
     first_unplaced w (pre @ ps) = first_unplaced w ps"
  by (induction pre) simp_all

lemma first_unplaced_Some:
  "first_unplaced w ps = Inr (Some c) \<Longrightarrow>
     \<exists>mid rest. ps = mid @ c # rest \<and> check_state w c = Some False
        \<and> (\<forall>p \<in> set mid. check_state w p = Some True)"
proof (induction ps)
  case Nil
  then show ?case by simp
next
  case (Cons p ps)
  show ?case
  proof (cases "check_state w p")
    case None
    with Cons.prems show ?thesis by simp
  next
    case (Some b)
    show ?thesis
    proof (cases b)
      case True
      with Some Cons.prems have "first_unplaced w ps = Inr (Some c)" by simp
      from Cons.IH[OF this] obtain mid rest where
        "ps = mid @ c # rest" "check_state w c = Some False"
        "\<forall>p \<in> set mid. check_state w p = Some True" by blast
      with Some True have "p # ps = (p # mid) @ c # rest \<and> check_state w c = Some False
        \<and> (\<forall>q \<in> set (p # mid). check_state w q = Some True)" by simp
      then show ?thesis by blast
    next
      case False
      with Some Cons.prems have "c = p" by simp
      with Some False have "p # ps = [] @ c # ps \<and> check_state w c = Some False
        \<and> (\<forall>q \<in> set []. check_state w q = Some True)" by simp
      then show ?thesis by blast
    qed
  qed
qed

lemma first_unplaced_all_placed:
  "\<forall>p \<in> set ps. check_state w p = Some True \<Longrightarrow> first_unplaced w ps = Inr None"
  by (induction ps) simp_all

lemma timesUp_space:
  assumes "last_keys w = '' ''" "cur_placement w = Some r" "r < length (tbl w)"
  shows "tbl (snd (timesUp env w)) = (tbl w)[r := (fst (tbl w ! r), True)]"
    and "active_parts (snd (timesUp env w)) = active_parts w"
    and "cur_placement (snd (timesUp env w)) =
           cur_placement (snd (find_next_placement env
              (w\<lparr>last_keys := [], tbl := (tbl w)[r := (fst (tbl w ! r), True)]\<rparr>)))"
proof -
  let ?w1 = "w\<lparr>last_keys := [], tbl := (tbl w)[r := (fst (tbl w ! r), True)]\<rparr>"
  have m: "mark_placed (w\<lparr>last_keys := []\<rparr>) = (None, ?w1)"
    using assms by (simp add: mark_placed_def)
  obtain e w2 where f: "find_next_placement env ?w1 = (e, w2)"
    by (cases "find_next_placement env ?w1")
  from find_next_placement_frame[of env ?w1] f
  have fr: "tbl w2 = tbl ?w1" "topDesList w2 = topDesList w" "botDesList w2 = botDesList w"
    "build_side w2 = build_side w" by simp_all
  have t: "snd (timesUp env w) = w2"
    using assms(1) m f by (cases e) (simp_all add: timesUp_def Let_def)
  show "tbl (snd (timesUp env w)) = (tbl w)[r := (fst (tbl w ! r), True)]"
    unfolding t using fr by simp
  show "active_parts (snd (timesUp env w)) = active_parts w"
    unfolding t using fr by (simp add: active_parts_def)
  show "cur_placement (snd (timesUp env w)) = cur_placement (snd (find_next_placement env ?w1))"
    unfolding t using f by simp
qed

lemmas seq_defs = timesUp_def key_pressed_def mark_placed_def recolourTable_def row_colour_def
  sideSelectionChanged_def update_table_for_selected_side_def filtered_data_of_def keep_row_def
  target_side_of_def

lemma example_advanced_eq:
  "example_advanced = example_scanned\<lparr>
     tbl := [([''Ref'', ''Val'', ''Package'', ''PosX'', ''PosY'', ''Rot'', ''Side''], False),
          ([''C1'', ''100nF'', ''C_0805'', ''5.0'', ''6.0'', ''90.0'', ''Top''], True),
          ([''C2'', ''100nF'', ''C_0805'', ''7.0'', ''8.0'', ''90.0'', ''top''], False),
          ([''R1'', ''10k'', ''R_0805'', ''1.0'', ''2.0'', ''0.0'', ''top''], False)],
     cur_placement := Some 2, place := ''C2'', markers := [(56, 504)]\<rparr>"
  by (simp add: example_advanced_def seq_defs eval_defs example_scanned_def example_loaded_def example_defs)

lemma example_reselected_eq:
  "example_reselected = example_scanned\<lparr>
     cur_placement := Some 2, place := ''C2'', markers := [(56, 504)]\<rparr>"
  by (simp add: example_reselected_def example_advanced_eq seq_defs eval_defs example_scanned_def example_loaded_def example_defs)

lemma example_readvanced_eq:
  "example_readvanced = example_scanned\<lparr>
     tbl := [([''Ref'', ''Val'', ''Package'', ''PosX'', ''PosY'', ''Rot'', ''Side''], False),
          ([''C1'', ''100nF'', ''C_0805'', ''5.0'', ''6.0'', ''90.0'', ''Top''], False),
          ([''C2'', ''100nF'', ''C_0805'', ''7.0'', ''8.0'', ''90.0'', ''top''], True),
          ([''R1'', ''10k'', ''R_0805'', ''1.0'', ''2.0'', ''0.0'', ''top''], False)],
     cur_placement := Some 1, place := ''C1'', markers := [(40, 528)]\<rparr>"
  by (simp add: example_readvanced_def example_reselected_eq seq_defs eval_defs example_scanned_def example_loaded_def example_defs)

text \<open>
  \<^bold>\<open>C8\<close> (as amended). Let the cursor be on a row \<open>r\<close> of the table that occurs in the
  match list of the active side, with every row before that occurrence placed: the
  state \<open>find_next_placement\<close> leaves behind. Then a space (\<open>timesUp\<close>) checks the box
  of \<open>r\<close> and runs \<open>find_next_placement\<close> on the same list: the new cursor is the first
  unplaced row of the list. If there is one, it stands in the list after \<open>r\<close>, and the
  rows between the two are placed; if every row after \<open>r\<close> was placed, there is no
  cursor any more.
\<close>

theorem advance_moves_forward:
  assumes keys: "last_keys w = '' ''"
    and cur: "cur_placement w = Some r"
    and row: "r < length (tbl w)"
    and parts: "active_parts w = Some (pre @ r # post)"
    and placed: "\<forall>p \<in> set pre. check_state w p = Some True"
    and w': "w' = snd (timesUp env w)"
  shows "tbl w' = (tbl w)[r := (fst (tbl w ! r), True)]
    \<and> check_state w' r = Some True
    \<and> cur_placement w' =
         (case first_unplaced w' (pre @ r # post) of Inl e \<Rightarrow> None | Inr c \<Rightarrow> c)
    \<and> (\<forall>c. cur_placement w' = Some c \<longrightarrow>
          (\<exists>mid rest. post = mid @ c # rest \<and> c \<noteq> r \<and> check_state w' c = Some False
             \<and> (\<forall>p \<in> set mid. check_state w' p = Some True)))
    \<and> ((\<forall>p \<in> set post. check_state w p = Some True) \<longrightarrow> cur_placement w' = None)"
proof -
  let ?t = "(tbl w)[r := (fst (tbl w ! r), True)]"
  let ?w1 = "w\<lparr>last_keys := [], tbl := ?t\<rparr>"
  from timesUp_space[OF keys cur row, of env]
  have t: "tbl w' = ?t"
    and c: "cur_placement w' = cur_placement (snd (find_next_placement env ?w1))"
    unfolding w' by simp_all
  have cs1: "check_state ?w1 p = check_state w' p" for p
    by (simp add: check_state_def t)
  have fu: "first_unplaced ?w1 ps = first_unplaced w' ps" for ps
    by (rule first_unplaced_tbl) (simp add: t)
  have cs: "check_state w' p = (if p = r then Some True else check_state w p)" for p
    using row by (auto simp: check_state_def t nth_list_update)
  have a1: "active_parts ?w1 = Some (pre @ r # post)"
    using parts by (auto simp: active_parts_def split: if_splits)
  have cur': "cur_placement w' =
         (case first_unplaced w' (pre @ r # post) of Inl e \<Rightarrow> None | Inr c \<Rightarrow> c)"
    unfolding c find_next_cursor a1 by (simp add: fu)
  have pre': "\<forall>p \<in> set pre. check_state w' p = Some True"
    using placed by (simp add: cs)
  have skip: "first_unplaced w' (pre @ r # post) = first_unplaced w' post"
    using first_unplaced_skip[OF pre', of "r # post"] by (simp add: cs)
  have later: "\<exists>mid rest. post = mid @ c # rest \<and> c \<noteq> r \<and> check_state w' c = Some False
             \<and> (\<forall>p \<in> set mid. check_state w' p = Some True)"
    if "cur_placement w' = Some c" for c
  proof -
    from that cur' skip have "first_unplaced w' post = Inr (Some c)"
      by (auto split: sum.splits)
    from first_unplaced_Some[OF this] obtain mid rest where
      m: "post = mid @ c # rest" "check_state w' c = Some False"
      "\<forall>p \<in> set mid. check_state w' p = Some True" by blast
    from m(2) have "c \<noteq> r" by (auto simp: cs)
    with m show ?thesis by blast
  qed
  have fin: "cur_placement w' = None" if "\<forall>p \<in> set post. check_state w p = Some True"
  proof -
    from that have "\<forall>p \<in> set post. check_state w' p = Some True"
      by (simp add: cs)
    from first_unplaced_all_placed[OF this] cur' skip show ?thesis by simp
  qed
  have r': "check_state w' r = Some True"
    by (simp add: cs)
  from t r' cur' later fin show ?thesis
    by (intro conjI allI impI) (assumption | simp)+
qed


text \<open>The theorem at the example board: from row 1 the cursor moves to row 2.\<close>

theorem advance_moves_forward_witness:
  "last_keys (key_pressed '' '' example_scanned) = '' ''
   \<and> cur_placement (key_pressed '' '' example_scanned) = Some 1
   \<and> 1 < length (tbl (key_pressed '' '' example_scanned))
   \<and> active_parts (key_pressed '' '' example_scanned) = Some ([] @ 1 # [2])
   \<and> example_advanced = snd (timesUp example_env (key_pressed '' '' example_scanned))
   \<and> check_state example_advanced 1 = Some True
   \<and> cur_placement example_advanced = Some 2"
proof -
  have h: "last_keys (key_pressed '' '' example_scanned) = '' ''"
    "cur_placement (key_pressed '' '' example_scanned) = Some 1"
    "1 < length (tbl (key_pressed '' '' example_scanned))"
    "active_parts (key_pressed '' '' example_scanned) = Some ([] @ 1 # [2])"
    "\<forall>p \<in> set []. check_state (key_pressed '' '' example_scanned) p = Some True"
    by (simp_all add: key_pressed_def example_scanned_def example_loaded_def example_defs
        active_parts_def)
  have c: "cur_placement example_advanced = Some 2"
    by (simp add: example_advanced_eq)
  from advance_moves_forward[OF h example_advanced_def] h c show ?thesis
    by (simp add: example_advanced_def)
qed


text \<open>Without the condition on the rows before \<open>r\<close> the cursor can move backwards.
  Choosing a side rebuilds the table with every box unchecked, and keeps the cursor and
  the match lists. In \<open>example_reselected\<close> the cursor is on row 2, the second row of
  the list, and row 1 is unplaced again: a space moves the cursor to row 1.\<close>

theorem advance_moves_forward_counterexample:
  "cur_placement (key_pressed '' '' example_reselected) = Some ([1, 2] ! 1)
   \<and> active_parts (key_pressed '' '' example_reselected) = Some [1, 2]
   \<and> check_state (key_pressed '' '' example_reselected) ([1, 2] ! 1) = Some False
   \<and> example_readvanced = snd (timesUp example_env (key_pressed '' '' example_reselected))
   \<and> check_state example_readvanced ([1, 2] ! 1) = Some True
   \<and> cur_placement example_readvanced = Some ([1, 2] ! 0)"
proof -
  have before: "cur_placement (key_pressed '' '' example_reselected) = Some ([1, 2] ! 1)"
    "active_parts (key_pressed '' '' example_reselected) = Some [1, 2]"
    "check_state (key_pressed '' '' example_reselected) ([1, 2] ! 1) = Some False"
    by (simp_all add: example_reselected_eq key_pressed_def example_scanned_def
        example_loaded_def example_defs active_parts_def check_state_def)
  have after: "check_state example_readvanced ([1, 2] ! 1) = Some True"
    "cur_placement example_readvanced = Some ([1, 2] ! 0)"
    by (simp_all add: example_readvanced_eq example_scanned_def example_loaded_def
        example_defs check_state_def)
  from before after example_readvanced_def show ?thesis by simp
qed

subsection \<open>The report without a cursor\<close>

lemma update_placement_no_cursor:
  assumes "cur_placement w = None" "topDesList w = Some tops" "botDesList w = Some bots"
  shows "update_placement env w =
     (None, w\<lparr>drawing_all_same_value := False,
               place := (if tops = [] \<and> bots = [] then ''Not Found'' else ''Done'')\<rparr>)"
  using assms by (simp add: update_placement_def Let_def)

lemma headerless_loaded_eq:
  "headerless_loaded =
     example_window\<lparr>
       all_components_data := headerless_rows,
       tbl := [([''R9'', ''4k7-1%'', ''R_0805'', ''1.0'', ''2.0'', ''0.0'', ''bottom''], False),
               ([''R1'', ''10k'', ''R_0805'', ''3.0'', ''4.0'', ''0.0'', ''top''], False)],
       pdb := Some [''4k7-1%'', ''10k''],
       pdc := Some [''4k7-1%'', ''10k'']\<rparr>"
proof -
  have g: "group_components_by_value MeatBagCSVSettingsKicadMultiLayer
     (filter (\<lambda>row. \<not> length row < 4) headerless_rows) = Inr headerless_rows"
    by (simp add: group_components_by_value_def headerless_rows_def example_defs
        group_key_def designator_key_def)
  have u: "update_table_for_selected_side example_env
          (example_window\<lparr>all_components_data := headerless_rows\<rparr>)
        = (None, example_window\<lparr>
       all_components_data := headerless_rows,
       tbl := [([''R9'', ''4k7-1%'', ''R_0805'', ''1.0'', ''2.0'', ''0.0'', ''bottom''], False),
               ([''R1'', ''10k'', ''R_0805'', ''3.0'', ''4.0'', ''0.0'', ''top''], False)],
       pdb := Some [''4k7-1%'', ''10k''],
       pdc := Some [''4k7-1%'', ''10k'']\<rparr>)"
    by (simp add: update_table_for_selected_side_def Let_def headerless_rows_def
        example_defs filtered_data_of_def keep_row_def target_side_of_def lower_def lower_char_def
        recolourTable_def row_colour_def isTopLayer_def item_text_def)
  have cs: "csv_settings example_env = MeatBagCSVSettingsKicadMultiLayer"
    by (simp add: example_env_def)
  show ?thesis
    unfolding headerless_loaded_def parseCSVFile_def Let_def
    by (simp only: cs g sum.case u snd_conv)
qed

lemma headerless_scan:
  "process_new_scan example_env headerless_loaded ''4k7-1%'' =
     (None, headerless_loaded\<lparr>matcher_calls := [''4k7-1%''], topDesList := Some [],
        botDesList := Some [0], topDes := [], botDes := ''R9, '', cur_placement := None,
        place := ''Done''\<rparr>)"
  by (simp add: headerless_loaded_eq process_new_scan_def eval_defs example_defs headerless_rows_def)

lemma example_not_found:
  "process_new_pn example_env example_loaded ''zzzzz'' False =
     (None, example_loaded\<lparr>matcher_calls := [''zzzzz''], topDesList := Some [],
        botDesList := Some [], topDes := [], botDes := []\<rparr>)"
  by (simp add: eval_defs example_loaded_def example_defs)

lemma example_all_placed:
  "mark_placed example_advanced =
     (None, example_advanced\<lparr>
        tbl := [([''Ref'', ''Val'', ''Package'', ''PosX'', ''PosY'', ''Rot'', ''Side''], False),
          ([''C1'', ''100nF'', ''C_0805'', ''5.0'', ''6.0'', ''90.0'', ''Top''], True),
          ([''C2'', ''100nF'', ''C_0805'', ''7.0'', ''8.0'', ''90.0'', ''top''], True),
          ([''R1'', ''10k'', ''R_0805'', ''1.0'', ''2.0'', ''0.0'', ''top''], False)]\<rparr>)"
  by (simp add: example_advanced_eq mark_placed_def example_scanned_def example_loaded_def)


text \<open>
  \<^bold>\<open>C9\<close> (as amended). Without a cursor, \<open>update_placement\<close> reports \<open>Not Found\<close>
  exactly when both match lists, top and bottom, are empty, and \<open>Done\<close> exactly when
  one of them is not. So \<open>find_next_placement\<close> on a list of the active side whose rows
  are all placed leaves no cursor and reports \<open>Done\<close> whenever that list is not empty.
  The two texts differ.
\<close>

theorem terminal_report:
  "(cur_placement w = None \<longrightarrow> topDesList w = Some tops \<longrightarrow> botDesList w = Some bots \<longrightarrow>
      fst (update_placement env w) = None
      \<and> (place (snd (update_placement env w)) = ''Not Found'' \<longleftrightarrow> tops = [] \<and> bots = [])
      \<and> (place (snd (update_placement env w)) = ''Done'' \<longleftrightarrow> tops \<noteq> [] \<or> bots \<noteq> []))
   \<and> (active_parts w = Some parts \<longrightarrow> (\<forall>p \<in> set parts. check_state w p = Some True) \<longrightarrow>
        topDesList w = Some tops \<longrightarrow> botDesList w = Some bots \<longrightarrow>
          fst (find_next_placement env w) = None
          \<and> cur_placement (snd (find_next_placement env w)) = None
          \<and> place (snd (find_next_placement env w)) =
               (if tops = [] \<and> bots = [] then ''Not Found'' else ''Done'')
          \<and> (parts \<noteq> [] \<longrightarrow> place (snd (find_next_placement env w)) = ''Done''))
   \<and> ''Not Found'' \<noteq> ''Done''"
proof -
  have a: "fst (update_placement env w) = None
      \<and> (place (snd (update_placement env w)) = ''Not Found'' \<longleftrightarrow> tops = [] \<and> bots = [])
      \<and> (place (snd (update_placement env w)) = ''Done'' \<longleftrightarrow> tops \<noteq> [] \<or> bots \<noteq> [])"
    if "cur_placement w = None" "topDesList w = Some tops" "botDesList w = Some bots"
    using update_placement_no_cursor[OF that, of env] by simp
  have b: "fst (find_next_placement env w) = None
          \<and> cur_placement (snd (find_next_placement env w)) = None
          \<and> place (snd (find_next_placement env w)) =
               (if tops = [] \<and> bots = [] then ''Not Found'' else ''Done'')
          \<and> (parts \<noteq> [] \<longrightarrow> place (snd (find_next_placement env w)) = ''Done'')"
    if h: "active_parts w = Some parts" "\<forall>p \<in> set parts. check_state w p = Some True"
      "topDesList w = Some tops" "botDesList w = Some bots"
  proof -
    let ?w = "w\<lparr>cur_placement := None\<rparr>"
    have ap: "active_parts ?w = Some parts"
      using h(1) by (auto simp: active_parts_def split: if_splits)
    have "first_unplaced ?w parts = first_unplaced w parts"
      by (rule first_unplaced_tbl) simp
    with first_unplaced_all_placed[OF h(2)] have fu: "first_unplaced ?w parts = Inr None"
      by simp
    have f: "find_next_placement env w = update_placement env ?w"
      by (simp add: find_next_placement_def Let_def ap fu)
    have u: "update_placement env ?w =
       (None, ?w\<lparr>drawing_all_same_value := False,
               place := (if tops = [] \<and> bots = [] then ''Not Found'' else ''Done'')\<rparr>)"
      by (rule update_placement_no_cursor) (simp_all add: h)
    have ne: "parts \<noteq> [] \<longrightarrow> \<not> (tops = [] \<and> bots = [])"
      using h(1,3,4) by (auto simp: active_parts_def split: if_splits)
    show ?thesis
      unfolding f u using ne by auto
  qed
  have c: "''Not Found'' \<noteq> ''Done''" by simp
  from a b c show ?thesis
    by (intro conjI impI) (assumption | blast)+
qed



text \<open>The theorem at the example board: a part number that matches nothing is
  reported as \<open>Not Found\<close>; with rows 1 and 2 both placed, the report is \<open>Done\<close>.\<close>

theorem terminal_report_witness:
  "cur_placement (snd (process_new_pn example_env example_loaded ''zzzzz'' False)) = None
   \<and> topDesList (snd (process_new_pn example_env example_loaded ''zzzzz'' False)) = Some []
   \<and> botDesList (snd (process_new_pn example_env example_loaded ''zzzzz'' False)) = Some []
   \<and> place (snd (update_placement example_env
         (snd (process_new_pn example_env example_loaded ''zzzzz'' False)))) = ''Not Found''
   \<and> active_parts (snd (mark_placed example_advanced)) = Some [1, 2]
   \<and> check_state (snd (mark_placed example_advanced)) 1 = Some True
   \<and> check_state (snd (mark_placed example_advanced)) 2 = Some True
   \<and> topDesList (snd (mark_placed example_advanced)) = Some [1, 2]
   \<and> botDesList (snd (mark_placed example_advanced)) = Some []
   \<and> cur_placement (snd (find_next_placement example_env (snd (mark_placed example_advanced))))
       = None
   \<and> place (snd (find_next_placement example_env (snd (mark_placed example_advanced))))
       = ''Done''"
proof -
  let ?n = "snd (process_new_pn example_env example_loaded ''zzzzz'' False)"
  let ?d = "snd (mark_placed example_advanced)"
  have n: "cur_placement ?n = None" "topDesList ?n = Some []" "botDesList ?n = Some []"
    unfolding example_not_found snd_conv
    by (simp_all add: example_loaded_def example_defs)
  have d: "active_parts ?d = Some [1, 2]" "\<forall>p \<in> set [1, 2]. check_state ?d p = Some True"
    "topDesList ?d = Some [1, 2]" "botDesList ?d = Some []"
    unfolding example_all_placed snd_conv
    by (simp_all add: example_advanced_eq example_scanned_def
        example_loaded_def example_defs active_parts_def check_state_def)
  from terminal_report[of ?n "[]" "[]" example_env "[]"] n
  have 1: "place (snd (update_placement example_env ?n)) = ''Not Found''"
    by simp
  from terminal_report[of ?d "[1, 2]" "[]" example_env "[1, 2]"] d
  have 2: "cur_placement (snd (find_next_placement example_env ?d)) = None"
    "place (snd (find_next_placement example_env ?d)) = ''Done''"
    by simp_all
  from n d 1 2 show ?thesis by simp
qed

text \<open>The claim decides between the two reports by the list of the active side alone.
  After the scan \<open>4k7-1%\<close> on the file without header, with the top side selected,
  the list of the top side is empty and the one of the bottom side is not: the report
  is \<open>Done\<close>.\<close>

theorem terminal_report_counterexample:
  "build_side (snd (process_new_scan example_env headerless_loaded ''4k7-1%'')) = 0
   \<and> cur_placement (snd (process_new_scan example_env headerless_loaded ''4k7-1%'')) = None
   \<and> active_parts (snd (process_new_scan example_env headerless_loaded ''4k7-1%'')) = Some []
   \<and> place (snd (process_new_scan example_env headerless_loaded ''4k7-1%'')) = ''Done''"
  by (simp add: headerless_scan active_parts_def)
    (simp add: headerless_loaded_eq example_defs)

subsection \<open>The pools of the selected side\<close>

lemma item_text_cong:
  "map fst (tbl w) = map fst (tbl w') \<Longrightarrow> item_text w r c = item_text w' r c"
proof -
  assume a: "map fst (tbl w) = map fst (tbl w')"
  then have l: "length (tbl w) = length (tbl w')"
    by (rule map_eq_imp_length_eq)
  have "fst (tbl w ! r) = fst (tbl w' ! r)" if "r < length (tbl w)"
    using a that l by (metis nth_map)
  with l show ?thesis
    by (simp add: item_text_def)
qed

lemma isTopLayer_cong:
  "map fst (tbl w) = map fst (tbl w') \<Longrightarrow> isTopLayer cs w r = isTopLayer cs w' r"
  by (simp add: isTopLayer_def item_text_cong[of w w'])

lemma update_table_fields:
  assumes "all_components_data w0 \<noteq> []"
  shows "map fst (tbl (snd (update_table_for_selected_side env w0))) =
           map (\<lambda>row. map (\<lambda>c. if c < length row then row ! c else ''???'')
                         [0..<length (hd (all_components_data w0))])
               (filtered_data_of (csv_settings env) (build_side w0) (all_components_data w0))"
    and "pdb (snd (update_table_for_selected_side env w0)) =
           Some (map (\<lambda>row. if col_pn (csv_settings env) < length row
                             then row ! col_pn (csv_settings env) else [])
                     (filtered_data_of (csv_settings env) (build_side w0) (all_components_data w0)))"
    and "pdc (snd (update_table_for_selected_side env w0)) =
           Some (map (\<lambda>row. if col_com (csv_settings env) < length row
                             then row ! col_com (csv_settings env) else [])
                     (filtered_data_of (csv_settings env) (build_side w0) (all_components_data w0)))"
    and "build_side (snd (update_table_for_selected_side env w0)) = build_side w0"
  using assms by (simp_all add: update_table_for_selected_side_def Let_def comp_def)

lemma filtered_row_kept:
  assumes "1 \<le> r" "r < length (filtered_data_of cs side data)"
  shows "keep_row cs (target_side_of side) (filtered_data_of cs side data ! r)"
proof -
  let ?f = "filter (keep_row cs (target_side_of side)) (tl data)"
  from assms obtain r' where r': "r = Suc r'" "r' < length ?f"
    by (cases r) (auto simp: filtered_data_of_def)
  then have "filtered_data_of cs side data ! r = ?f ! r'"
    by (simp add: filtered_data_of_def)
  moreover from r' have "?f ! r' \<in> set ?f" by (rule_tac nth_mem) simp
  then have "keep_row cs (target_side_of side) (?f ! r')"
    unfolding set_filter by blast
  ultimately show ?thesis by (simp only:)
qed

lemma filtered_row_side:
  assumes ne: "all_components_data w0 \<noteq> []"
    and r: "1 \<le> r" "r < length (tbl (snd (update_table_for_selected_side env w0)))"
    and top: "isTopLayer (csv_settings env) (snd (update_table_for_selected_side env w0)) r = Inr b"
  shows "b = (build_side w0 = 0)"
proof -
  let ?cs = "csv_settings env"
  let ?w1 = "snd (update_table_for_selected_side env w0)"
  let ?fd = "filtered_data_of ?cs (build_side w0) (all_components_data w0)"
  let ?n = "length (hd (all_components_data w0))"
  let ?row = "?fd ! r"
  note f = update_table_fields[OF ne, of env]
  from f(1) have len: "length (tbl ?w1) = length ?fd"
    using map_eq_imp_length_eq by fastforce
  with r have rl: "r < length ?fd" by simp
  from filtered_row_kept[OF r(1) rl] have keep: "keep_row ?cs (target_side_of (build_side w0)) ?row" .
  have texts: "fst (tbl ?w1 ! r) = map (\<lambda>c. if c < length ?row then ?row ! c else ''???'') [0..<?n]"
  proof -
    have "fst (tbl ?w1 ! r) = map fst (tbl ?w1) ! r"
      using r(2) by simp
    also have "\<dots> = map (\<lambda>c. if c < length ?row then ?row ! c else ''???'') [0..<?n]"
      unfolding f(1) using rl by simp
    finally show ?thesis .
  qed
  show ?thesis
  proof (cases "col_layer ?cs < 0")
    case True
    with top keep show ?thesis
      by (auto simp: isTopLayer_def keep_row_def target_side_of_def split: if_splits)
  next
    case False
    with keep have k: "nat (col_layer ?cs) < length ?row"
      "prefix (take 3 (target_side_of (build_side w0))) (lower (?row ! nat (col_layer ?cs)))"
      by (auto simp: keep_row_def split: if_splits)
    from False top obtain tb where tb: "item_text ?w1 r (nat (col_layer ?cs)) = Inr tb"
      by (auto simp: isTopLayer_def split: sum.splits)
    have "tb = ?row ! nat (col_layer ?cs)"
    proof (cases "nat (col_layer ?cs) < ?n")
      case True
      with tb r(2) k(1) show ?thesis
        by (simp add: item_text_def texts)
    next
      case False
      with tb r(2) have "tb = []"
        by (auto simp: item_text_def texts split: if_splits)
      with False top tb \<open>\<not> col_layer ?cs < 0\<close> show ?thesis
        by (simp add: isTopLayer_def lower_def)
    qed
    with k(2) have p: "prefix (take 3 (target_side_of (build_side w0))) (lower tb)" by simp
    show ?thesis
    proof (cases "build_side w0 = 0")
      case True
      with p have "prefix ''top'' (lower tb)" by (simp add: target_side_of_def)
      with top tb \<open>\<not> col_layer ?cs < 0\<close> True show ?thesis
        by (simp add: isTopLayer_def)
    next
      case False
      with p have "prefix ''bot'' (lower tb)" by (simp add: target_side_of_def)
      moreover from this have "\<not> prefix ''top'' (lower tb)"
        using not_top_and_bot by blast
      ultimately show ?thesis
        using top tb \<open>\<not> col_layer ?cs < 0\<close> False by (simp add: isTopLayer_def)
    qed
  qed
qed

lemma des_loop_cong:
  assumes "map fst (tbl w) = map fst (tbl w')"
  shows "des_loop cs w rs acc = des_loop cs w' rs acc"
proof (induction rs arbitrary: acc)
  case Nil
  then show ?case by simp
next
  case (Cons r rs)
  obtain tops bots ts bs where acc: "acc = (tops, bots, ts, bs)"
    by (cases acc) auto
  show ?case
    unfolding acc des_loop.simps isTopLayer_cong[OF assms, of cs r]
      item_text_cong[OF assms, of r "col_des cs"] Cons.IH ..
qed

lemma process_match_des:
  "\<exists>e tops bots ts bs.
     des_loop (csv_settings env) w (matchlist_of n db tok) ([], [], [], []) = (e, tops, bots, ts, bs)
     \<and> topDesList (snd (process_match n (Some db) env w tok upd)) = Some tops
     \<and> botDesList (snd (process_match n (Some db) env w tok upd)) = Some bots"
proof -
  let ?w = "w\<lparr>matcher_calls := matcher_calls w @ [tok]\<rparr>"
  have same: "des_loop cs ?w rs acc = des_loop cs w rs acc" for cs rs acc
    by (rule des_loop_cong) simp
  obtain e tops bots ts bs where
    d: "des_loop (csv_settings env) w (matchlist_of n db tok) ([], [], [], [])
          = (e, tops, bots, ts, bs)"
    by (metis prod_cases5)
  have "topDesList (snd (process_match n (Some db) env w tok upd)) = Some tops
     \<and> botDesList (snd (process_match n (Some db) env w tok upd)) = Some bots"
    by (cases e) (simp_all add: process_match_def Let_def same d find_next_placement_frame)
  with d show ?thesis by blast
qed

lemma process_match_side:
  assumes ne: "all_components_data w0 \<noteq> []"
    and w1: "w1 = snd (update_table_for_selected_side env w0)"
    and tbl: "map fst (tbl w) = map fst (tbl w1)"
    and side: "build_side w = build_side w1"
    and len: "length db = length (tbl w1)"
    and lists: "topDesList (snd (process_match n (Some db) env w tok upd)) = Some tops"
      "botDesList (snd (process_match n (Some db) env w tok upd)) = Some bots"
  shows "(\<forall>i \<in> set tops \<union> set bots. i < length (tbl w))
       \<and> (\<forall>i \<in> set (if build_side w = 0 then bots else tops). i = 0)"
proof -
  let ?cs = "csv_settings env"
  from process_match_des[of env w n db tok upd] lists obtain e ts bs where
    d: "des_loop ?cs w (matchlist_of n db tok) ([], [], [], []) = (e, tops, bots, ts, bs)"
    by auto
  from des_loop_members[OF d]
  have t: "set tops \<subseteq> {r \<in> set (matchlist_of n db tok). isTopLayer ?cs w r = Inr True}"
    and b: "set bots \<subseteq> {r \<in> set (matchlist_of n db tok). isTopLayer ?cs w r = Inr False}"
    by simp_all
  from tbl have l: "length (tbl w) = length (tbl w1)"
    by (rule map_eq_imp_length_eq)
  have inr: "i < length (tbl w)" if "i \<in> set (matchlist_of n db tok)" for i
    using that len l by (simp add: set_matchlist_of)
  have bs: "build_side w = build_side w0"
    using side update_table_fields(4)[OF ne, of env] by (simp add: w1)
  have opp: "i = 0" if i: "i \<in> set (matchlist_of n db tok)"
    and s: "isTopLayer ?cs w i = Inr (build_side w \<noteq> 0)" for i
  proof (rule ccontr)
    assume "i \<noteq> 0"
    then have 1: "1 \<le> i" by simp
    from inr[OF i] l have 2: "i < length (tbl (snd (update_table_for_selected_side env w0)))"
      by (simp add: w1)
    from s isTopLayer_cong[OF tbl, of ?cs i]
    have 3: "isTopLayer ?cs (snd (update_table_for_selected_side env w0)) i = Inr (build_side w \<noteq> 0)"
      by (simp add: w1)
    from filtered_row_side[OF ne 1 2 3] bs show False by auto
  qed
  have "\<forall>i \<in> set tops \<union> set bots. i < length (tbl w)"
    using t b inr by blast
  moreover have "\<forall>i \<in> set (if build_side w = 0 then bots else tops). i = 0"
  proof (cases "build_side w = 0")
    case True
    with b opp show ?thesis by auto
  next
    case False
    with t opp show ?thesis by auto
  qed
  ultimately show ?thesis by blast
qed

lemma table_header_row:
  assumes "all_components_data w0 \<noteq> []"
  shows "fst (hd (tbl (snd (update_table_for_selected_side env w0)))) = hd (all_components_data w0)"
proof -
  have "map (\<lambda>c. if c < length row then row ! c else d) [0..<length row] = row" for row d
    by (rule nth_equalityI) simp_all
  with assms show ?thesis
    by (simp add: update_table_for_selected_side_def Let_def filtered_data_of_def)
qed

lemma headerless_pn:
  "process_new_pn example_env headerless_loaded ''4k7-1%'' True =
     (None, headerless_loaded\<lparr>matcher_calls := [''4k7-1%''], topDesList := Some [],
        botDesList := Some [0], topDes := [], botDes := ''R9, '', cur_placement := None,
        place := ''Done''\<rparr>)"
  by (simp add: headerless_loaded_eq eval_defs example_defs headerless_rows_def)

lemma example_update:
  "update_table_for_selected_side example_env example_loaded = (None, example_loaded)"
proof -
  have "update_table_for_selected_side example_env example_loaded
        = (recolourTable MeatBagCSVSettingsKicadMultiLayer example_loaded, example_loaded)"
    by (simp add: update_table_for_selected_side_def Let_def example_loaded_def example_defs
        filtered_data_of_def keep_row_def target_side_of_def lower_def lower_char_def)
  then show ?thesis by (simp add: example_recolour)
qed

lemma example_pn_advanced:
  "process_new_pn example_env example_advanced ''100nF'' False =
     (None, example_advanced\<lparr>matcher_calls := [''100nF'', ''100nF''],
        topDesList := Some [1, 2], botDesList := Some [], topDes := ''C1, C2, '',
        botDes := []\<rparr>)"
  by (simp add: example_advanced_eq eval_defs example_scanned_def example_loaded_def example_defs)


text \<open>
  \<^bold>\<open>C10\<close> (as amended). \<open>update_table_for_selected_side\<close> rebuilds \<open>pdb\<close> and \<open>pdc\<close>
  from the rows it puts into the table, one pool entry per table row: the first row of
  the loaded data, which it keeps as the header row whatever that row holds, and after
  it the rows of the selected side. As long as the texts of the table, the pools and
  the selected side stay as it left them, whatever token \<open>process_new_pn\<close> or
  \<open>process_new_com\<close> is given, and whether or not it ends with an exception, every row
  in \<open>topDesList\<close> and \<open>botDesList\<close> is a row of that table, and the list of the side
  that is not selected holds no row other than row 0.
\<close>

theorem pools_follow_side:
  assumes ne: "all_components_data w0 \<noteq> []"
    and w1: "w1 = snd (update_table_for_selected_side env w0)"
    and same: "map fst (tbl w) = map fst (tbl w1)" "pdb w = pdb w1" "pdc w = pdc w1"
      "build_side w = build_side w1"
  shows "pdb w1 = Some (map (\<lambda>row. if col_pn (csv_settings env) < length row
                                    then row ! col_pn (csv_settings env) else [])
            (filtered_data_of (csv_settings env) (build_side w0) (all_components_data w0)))
    \<and> pdc w1 = Some (map (\<lambda>row. if col_com (csv_settings env) < length row
                                    then row ! col_com (csv_settings env) else [])
            (filtered_data_of (csv_settings env) (build_side w0) (all_components_data w0)))
    \<and> length (tbl w1)
        = length (filtered_data_of (csv_settings env) (build_side w0) (all_components_data w0))
    \<and> fst (hd (tbl w1)) = hd (all_components_data w0)
    \<and> (\<forall>tops bots.
          topDesList (snd (process_new_pn env w tok upd)) = Some tops \<longrightarrow>
          botDesList (snd (process_new_pn env w tok upd)) = Some bots \<longrightarrow>
            (\<forall>i \<in> set tops \<union> set bots. i < length (tbl w))
            \<and> (\<forall>i \<in> set (if build_side w = 0 then bots else tops). i = 0))
    \<and> (\<forall>tops bots.
          topDesList (snd (process_new_com env w tok upd)) = Some tops \<longrightarrow>
          botDesList (snd (process_new_com env w tok upd)) = Some bots \<longrightarrow>
            (\<forall>i \<in> set tops \<union> set bots. i < length (tbl w))
            \<and> (\<forall>i \<in> set (if build_side w = 0 then bots else tops). i = 0))"
proof -
  let ?fd = "filtered_data_of (csv_settings env) (build_side w0) (all_components_data w0)"
  note f = update_table_fields[OF ne, of env, folded w1]
  from f(1) have len: "length (tbl w1) = length ?fd"
    using map_eq_imp_length_eq by fastforce
  obtain db where db: "pdb w = Some db" "length db = length (tbl w1)"
    using same(2) f(2) len by simp
  obtain dc where dc: "pdc w = Some dc" "length dc = length (tbl w1)"
    using same(3) f(3) len by simp
  have pn: "(\<forall>i \<in> set tops \<union> set bots. i < length (tbl w))
            \<and> (\<forall>i \<in> set (if build_side w = 0 then bots else tops). i = 0)"
    if "topDesList (snd (process_new_pn env w tok upd)) = Some tops"
      "botDesList (snd (process_new_pn env w tok upd)) = Some bots" for tops bots
  proof -
    from that have "topDesList (snd (process_match 4 (Some db) env w tok upd)) = Some tops"
      "botDesList (snd (process_match 4 (Some db) env w tok upd)) = Some bots"
      unfolding process_new_pn_def db(1) by - assumption+
    from process_match_side[OF ne w1 same(1) same(4) db(2) this] show ?thesis .
  qed
  have com: "(\<forall>i \<in> set tops \<union> set bots. i < length (tbl w))
            \<and> (\<forall>i \<in> set (if build_side w = 0 then bots else tops). i = 0)"
    if "topDesList (snd (process_new_com env w tok upd)) = Some tops"
      "botDesList (snd (process_new_com env w tok upd)) = Some bots" for tops bots
  proof -
    from that have "topDesList (snd (process_match 3 (Some dc) env w tok upd)) = Some tops"
      "botDesList (snd (process_match 3 (Some dc) env w tok upd)) = Some bots"
      unfolding process_new_com_def dc(1) by - assumption+
    from process_match_side[OF ne w1 same(1) same(4) dc(2) this] show ?thesis .
  qed
  have A: "\<forall>tops bots.
          topDesList (snd (process_new_pn env w tok upd)) = Some tops \<longrightarrow>
          botDesList (snd (process_new_pn env w tok upd)) = Some bots \<longrightarrow>
            (\<forall>i \<in> set tops \<union> set bots. i < length (tbl w))
            \<and> (\<forall>i \<in> set (if build_side w = 0 then bots else tops). i = 0)"
    using pn by blast
  have B: "\<forall>tops bots.
          topDesList (snd (process_new_com env w tok upd)) = Some tops \<longrightarrow>
          botDesList (snd (process_new_com env w tok upd)) = Some bots \<longrightarrow>
            (\<forall>i \<in> set tops \<union> set bots. i < length (tbl w))
            \<and> (\<forall>i \<in> set (if build_side w = 0 then bots else tops). i = 0)"
    using com by blast
  note hd = table_header_row[OF ne, of env, folded w1]
  from f(2) f(3) len hd A B show ?thesis
    by (intro conjI) assumption+
qed

text \<open>The theorem at the example board, with the top side selected and row 1 already
  placed.\<close>

theorem pools_follow_side_witness:
  "all_components_data example_loaded \<noteq> []
   \<and> example_loaded = snd (update_table_for_selected_side example_env example_loaded)
   \<and> map fst (tbl example_advanced) = map fst (tbl example_loaded)
   \<and> pdb example_advanced = pdb example_loaded
   \<and> pdc example_advanced = pdc example_loaded
   \<and> build_side example_advanced = build_side example_loaded
   \<and> pdb example_loaded = Some [''Val'', ''100nF'', ''100nF'', ''10k'']
   \<and> topDesList (snd (process_new_pn example_env example_advanced ''100nF'' False))
       = Some [1, 2]
   \<and> botDesList (snd (process_new_pn example_env example_advanced ''100nF'' False))
       = Some []
   \<and> length (tbl example_advanced) = 4"
proof -
  have h: "all_components_data example_loaded \<noteq> []"
    "example_loaded = snd (update_table_for_selected_side example_env example_loaded)"
    "map fst (tbl example_advanced) = map fst (tbl example_loaded)"
    "pdb example_advanced = pdb example_loaded"
    "pdc example_advanced = pdc example_loaded"
    "build_side example_advanced = build_side example_loaded"
    by (simp_all add: example_update example_advanced_eq example_scanned_def)
      (simp_all add: example_loaded_def)
  have l: "topDesList (snd (process_new_pn example_env example_advanced ''100nF'' False))
       = Some [1, 2]"
    "botDesList (snd (process_new_pn example_env example_advanced ''100nF'' False)) = Some []"
    by (simp_all add: example_pn_advanced)
  have t: "length (tbl example_advanced) = 4"
    "pdb example_loaded = Some [''Val'', ''100nF'', ''100nF'', ''10k'']"
    by (simp_all add: example_advanced_eq example_scanned_def example_loaded_def)
  from pools_follow_side[OF h, of "''100nF''" False] h l t show ?thesis
    by simp
qed

text \<open>The claim lets no component row into the list of the side that is not
  selected. In the file without a header line the first row is the bottom-side
  component \<open>R9\<close>; loaded with the top side selected, it is row 0 of the table, and the
  scan of its value puts it into \<open>botDesList\<close>.\<close>

theorem pools_follow_side_counterexample:
  "build_side headerless_loaded = 0
   \<and> pdb headerless_loaded = Some [''4k7-1%'', ''10k'']
   \<and> fst (process_new_pn example_env headerless_loaded ''4k7-1%'' True) = None
   \<and> topDesList (snd (process_new_pn example_env headerless_loaded ''4k7-1%'' True)) = Some []
   \<and> botDesList (snd (process_new_pn example_env headerless_loaded ''4k7-1%'' True)) = Some [0]
   \<and> item_text headerless_loaded 0 (col_des (csv_settings example_env)) = Inr ''R9''
   \<and> isTopLayer (csv_settings example_env) headerless_loaded 0 = Inr False"
  by (simp add: headerless_pn)
    (simp add: headerless_loaded_eq example_defs isTopLayer_def item_text_def lower_def
      lower_char_def)

end
